(* ===== verification/Extern.thy ===== *)
theory Extern
  imports Prelude
begin

text \<open>
  What the service does not implement itself. \<open>lib\<close> collects the pure functions of the
  third-party crates (base58 keys, base64, bincode, the SPL token instruction decoder);
  \<open>sys\<close> is the part of the process every effectful call touches: the clock (nanoseconds)
  and the log of the effects performed so far. An effect takes an amount of time the
  environment chooses, and its result may depend on how many effects came before, so a
  call that fails now may succeed when it is repeated.
\<close>

section \<open>Solana data\<close>

type_synonym bytes = "u8 list"
type_synonym pubkey = bytes
type_synonym signature = bytes

record instruction =
  program_id_index :: u8
  ix_data :: bytes

text \<open>A \<^verbatim>\<open>VersionedTransaction\<close> as the code reads it: \<open>lookups\<close> is \<^verbatim>\<open>address_table_lookups()\<close>,
  \<open>None\<close> for a legacy message.\<close>

record vtx =
  static_keys :: "pubkey list"
  lookups :: "bytes list option"
  instructions :: "instruction list"

datatype authority_type = MintTokens | FreezeAccount | AccountOwner | CloseAccountAuth

datatype token_instruction =
    SetAuthority authority_type "pubkey option"
  | Approve u64
  | ApproveChecked u64 u8
  | CloseAccount
  | OtherTokenInstruction

text \<open>The derived \<^verbatim>\<open>Debug\<close> text of \<^verbatim>\<open>AuthorityType\<close>.\<close>

fun authority_debug :: "authority_type \<Rightarrow> string" where
  "authority_debug MintTokens = ''MintTokens''"
| "authority_debug FreezeAccount = ''FreezeAccount''"
| "authority_debug AccountOwner = ''AccountOwner''"
| "authority_debug CloseAccountAuth = ''CloseAccount''"

record lib =
  pk_str :: "pubkey \<Rightarrow> string"
  pk_parse :: "string \<Rightarrow> string + pubkey"
  sig_parse :: "string \<Rightarrow> signature option"
  b64_std :: "string \<Rightarrow> string + bytes"
  b64_url :: "string \<Rightarrow> string + bytes"
  bincode_tx :: "bytes \<Rightarrow> string + vtx"
  token_unpack :: "bytes \<Rightarrow> token_instruction option"

section \<open>Effects and the clock\<close>

datatype effect =
    ERpc string
  | ESleep nat
  | EFac string
  | EDb string

record sys =
  s_now :: nat
  s_log :: "effect list"

text \<open>One effect: its result and its duration are the environment's, indexed by the number of
  effects performed before.\<close>

definition perform :: "(nat \<Rightarrow> nat) \<Rightarrow> effect \<Rightarrow> (nat \<Rightarrow> 'r) \<Rightarrow> 'a sys_scheme \<Rightarrow> 'r \<times> 'a sys_scheme" where
  "perform dur e f s =
     (let k = length (s_log s)
      in (f k, s\<lparr>s_log := s_log s @ [e], s_now := s_now s + dur k\<rparr>))"

text \<open>\<open>grows P s t\<close>: \<open>t\<close> is a later state of the same process, all effects between the two
  satisfy \<open>P\<close>, and nothing but the log and the clock has changed.\<close>

definition grows :: "(effect \<Rightarrow> bool) \<Rightarrow> 'a sys_scheme \<Rightarrow> 'a sys_scheme \<Rightarrow> bool" where
  "grows P s t \<longleftrightarrow>
     s_now s \<le> s_now t
     \<and> prefix (s_log s) (s_log t)
     \<and> (\<forall>e \<in> set (drop (length (s_log s)) (s_log t)). P e)
     \<and> sys.more t = sys.more s"

lemma grows_refl [simp, intro]: "grows P s s"
  by (simp add: grows_def)

lemma grows_trans [trans]: "\<lbrakk>grows P s t; grows P t u\<rbrakk> \<Longrightarrow> grows P s u"
  by (force simp: grows_def prefix_def)

lemma grows_mono: "\<lbrakk>grows P s t; \<And>e. P e \<Longrightarrow> Q e\<rbrakk> \<Longrightarrow> grows Q s t"
  by (auto simp: grows_def)

lemma perform_grows [frame_rules]: "P e \<Longrightarrow> grows P s (snd (perform d e f s))"
  by (simp add: perform_def grows_def Let_def)

lemma perform_log [simp]: "s_log (snd (perform d e f s)) = s_log s @ [e]"
  by (simp add: perform_def Let_def)

lemma perform_more [simp]: "sys.more (snd (perform d e f s)) = sys.more s"
  by (simp add: perform_def Let_def)

lemma growsD:
  assumes "grows P s t"
  shows grows_now: "s_now s \<le> s_now t" and grows_more: "sys.more t = sys.more s"
    and grows_log: "\<exists>es. s_log t = s_log s @ es \<and> (\<forall>e \<in> set es. P e)"
  using assms by (auto simp: grows_def prefix_def)

definition is_rpc :: "effect \<Rightarrow> bool" where
  "is_rpc e = (case e of ERpc _ \<Rightarrow> True | ESleep _ \<Rightarrow> True | _ \<Rightarrow> False)"

lemma is_rpc_simps [simp]:
  "is_rpc (ERpc m)" "is_rpc (ESleep n)" "\<not> is_rpc (EFac m)" "\<not> is_rpc (EDb m)"
  by (simp_all add: is_rpc_def)

end
