(* ===== verification/Retry.thy ===== *)
theory Retry
  imports Extern
begin

text \<open>
  \<^verbatim>\<open>src/rpc_retry.rs\<close>: the classification of RPC errors into transient and terminal, the
  retry policy read from the environment, and the retry loop with exponential backoff and
  full jitter. The loop runs an operation on the process state; the loop itself draws a
  random number and sleeps. The locale \<open>rpc_operation\<close> states what a caller may rely on
  about the operation it retries.
\<close>

section \<open>Client errors\<close>

datatype rpc_error_data = DataEmpty | SendTransactionPreflightFailure | NodeUnhealthy

datatype rpc_error =
    RpcRequestError string
  | RpcResponseError int string rpc_error_data
  | ParseError string
  | ForUser string

text \<open>A \<^verbatim>\<open>reqwest\<close> error with the answers of \<^verbatim>\<open>is_timeout\<close>, \<^verbatim>\<open>is_connect\<close>, \<^verbatim>\<open>is_body\<close>, \<^verbatim>\<open>is_decode\<close>.\<close>

datatype client_error =
    Io string
  | Reqwest bool bool bool bool
  | Middleware string
  | RpcErr rpc_error
  | SerdeJson string
  | SigningError string
  | TransactionError string
  | Custom string

fun classify_rpc_error :: "rpc_error \<Rightarrow> string option" where
  "classify_rpc_error (RpcRequestError _) = Some ''rpc-transport''"
| "classify_rpc_error (ForUser _) = Some ''rpc-transport''"
| "classify_rpc_error (RpcResponseError code message data) =
     (if code = - 32602 then None
      else if data = SendTransactionPreflightFailure then None
      else let msg_lower = to_lower message
           in if contains msg_lower ''rate limit''
                 \<or> contains msg_lower ''too many requests''
                 \<or> contains msg_lower ''server error''
                 \<or> contains msg_lower ''temporarily unavailable''
                 \<or> contains msg_lower ''gateway''
                 \<or> contains msg_lower ''timeout''
              then Some ''rpc-transient-response'' else None)"
| "classify_rpc_error (ParseError _) = Some ''rpc-parse''"

fun retryable_reason :: "client_error \<Rightarrow> string option" where
  "retryable_reason (Io _) = Some ''io''"
| "retryable_reason (Reqwest timeout connect body decode) =
     (if timeout \<or> connect \<or> body \<or> decode then Some ''reqwest-transport'' else None)"
| "retryable_reason (Middleware _) = Some ''middleware''"
| "retryable_reason (RpcErr rpc) = classify_rpc_error rpc"
| "retryable_reason (SerdeJson _) = Some ''json-decode''"
| "retryable_reason (SigningError _) = None"
| "retryable_reason (TransactionError _) = None"
| "retryable_reason (Custom _) = None"

section \<open>The policy\<close>

text \<open>Durations are nanoseconds; \<open>DUR_MAX\<close> is \<^verbatim>\<open>Duration::MAX\<close>.\<close>

definition ms :: nat where
  "ms = 1000000"

definition DUR_MAX :: nat where
  "DUR_MAX = (2 ^ 64 - 1) * 1000000000 + 999999999"

record retry_policy =
  max_attempts :: nat
  initial_backoff :: nat
  total_budget :: nat

definition env_u64 :: "(string \<Rightarrow> string option) \<Rightarrow> string \<Rightarrow> nat \<Rightarrow> nat" where
  "env_u64 getenv key dflt =
     unwrap_or (Option.bind (getenv key) (parse_unsigned (2 ^ 64))) dflt"

definition clamp_nat :: "nat \<Rightarrow> nat \<Rightarrow> nat \<Rightarrow> nat" where
  "clamp_nat lo hi x = (if x < lo then lo else if hi < x then hi else x)"

definition policy_from_env :: "(string \<Rightarrow> string option) \<Rightarrow> retry_policy" where
  "policy_from_env getenv =
     (let attempts = clamp_nat 1 10 (env_u64 getenv ''SOLRISK_RPC_MAX_ATTEMPTS'' 3);
          initial_ms = clamp_nat 10 5000 (env_u64 getenv ''SOLRISK_RPC_INITIAL_BACKOFF_MS'' 120);
          total_ms = clamp_nat 100 30000 (env_u64 getenv ''SOLRISK_RPC_TOTAL_BUDGET_MS'' 6000)
      in \<lparr>max_attempts = attempts, initial_backoff = initial_ms * ms, total_budget = total_ms * ms\<rparr>)"

section \<open>The loop\<close>

text \<open>\<^verbatim>\<open>1u32.checked_shl(k).unwrap_or(u32::MAX)\<close> and the backoff bound in milliseconds.\<close>

definition shl_or_max :: "nat \<Rightarrow> nat" where
  "shl_or_max k = (if k < 32 then 2 ^ k else 2 ^ 32 - 1)"

definition backoff_base_ms :: "retry_policy \<Rightarrow> nat \<Rightarrow> nat \<Rightarrow> nat" where
  "backoff_base_ms policy attempt budget_left =
     (let base = min DUR_MAX (initial_backoff policy * shl_or_max (attempt - 1))
      in min (base div ms) (budget_left div ms) mod 2 ^ 64)"

text \<open>The random draw from \<open>0..=base_ms\<close>: the environment's number, reduced into the range.\<close>

definition jitter_ms :: "(nat \<Rightarrow> nat) \<Rightarrow> nat \<Rightarrow> nat \<Rightarrow> nat" where
  "jitter_ms rng k base_ms = (if base_ms > 0 then rng k mod (base_ms + 1) else 0)"

text \<open>One iteration's decision after a failed attempt: \<open>None\<close> gives up, \<open>Some d\<close> sleeps for
  \<open>d\<close> milliseconds and tries again.\<close>

definition retry_decision ::
    "retry_policy \<Rightarrow> (nat \<Rightarrow> nat) \<Rightarrow> nat \<Rightarrow> nat \<Rightarrow> nat \<Rightarrow> client_error \<Rightarrow> nat option" where
  "retry_decision policy rng k attempt elapsed err =
     (let budget_left = total_budget policy - elapsed;
          attempts_left = max_attempts policy - attempt;
          will_retry = (retryable_reason err \<noteq> None \<and> attempts_left > 0 \<and> budget_left > ms)
      in if \<not> will_retry then None
         else let sleep_ms = jitter_ms rng k (backoff_base_ms policy attempt budget_left)
              in if sleep_ms * ms \<ge> budget_left then None else Some sleep_ms)"

text \<open>\<^verbatim>\<open>tokio::time::sleep\<close>: logged; the clock moves on by the requested time plus whatever
  the scheduler adds.\<close>

definition do_sleep :: "(nat \<Rightarrow> nat) \<Rightarrow> nat \<Rightarrow> 'a sys_scheme \<Rightarrow> 'a sys_scheme" where
  "do_sleep dur d s = snd (perform (\<lambda>k. d * ms + dur k) (ESleep d) (\<lambda>_. ()) s)"

function retry_loop ::
    "retry_policy \<Rightarrow> (nat \<Rightarrow> nat) \<Rightarrow> (nat \<Rightarrow> nat)
     \<Rightarrow> ('a sys_scheme \<Rightarrow> (client_error + 't) \<times> 'a sys_scheme)
     \<Rightarrow> nat \<Rightarrow> nat \<Rightarrow> 'a sys_scheme \<Rightarrow> (client_error + 't) \<times> 'a sys_scheme" where
  "retry_loop policy rng dur op started attempt0 s =
     (let attempt = attempt0 + 1; (r, s1) = op s
      in case r of
           Inr v \<Rightarrow> (Inr v, s1)
         | Inl err \<Rightarrow>
             (case retry_decision policy rng (length (s_log s1)) attempt (s_now s1 - started) err of
                None \<Rightarrow> (Inl err, s1)
              | Some d \<Rightarrow> retry_loop policy rng dur op started attempt (do_sleep dur d s1)))"
  by pat_completeness auto
termination
  by (relation "measure (\<lambda>(policy, rng, dur, op, started, attempt0, s). max_attempts policy - attempt0)")
    (auto simp: retry_decision_def Let_def split: if_splits)

declare retry_loop.simps [simp del]

definition with_retry ::
    "retry_policy \<Rightarrow> (nat \<Rightarrow> nat) \<Rightarrow> (nat \<Rightarrow> nat)
     \<Rightarrow> ('a sys_scheme \<Rightarrow> (client_error + 't) \<times> 'a sys_scheme)
     \<Rightarrow> 'a sys_scheme \<Rightarrow> (client_error + 't) \<times> 'a sys_scheme" where
  "with_retry policy rng dur op s = retry_loop policy rng dur op (s_now s) 0 s"

section \<open>Properties of the pieces\<close>

lemma clamp_nat_bounds: "lo \<le> hi \<Longrightarrow> lo \<le> clamp_nat lo hi x \<and> clamp_nat lo hi x \<le> hi"
  by (simp add: clamp_nat_def)

lemma retry_decision_SomeD:
  assumes "retry_decision policy rng k attempt elapsed err = Some d"
  shows "retryable_reason err \<noteq> None" "attempt < max_attempts policy"
    "elapsed + d * ms < total_budget policy"
    "d * ms \<le> initial_backoff policy * shl_or_max (attempt - 1)"
proof -
  let ?left = "total_budget policy - elapsed"
  let ?b = "backoff_base_ms policy attempt ?left"
  from assms have d: "d = jitter_ms rng k ?b" and le: "d * ms < ?left"
    by (auto simp: retry_decision_def Let_def split: if_splits)
  from assms show "retryable_reason err \<noteq> None" "attempt < max_attempts policy"
    by (auto simp: retry_decision_def Let_def split: if_splits)
  from le show "elapsed + d * ms < total_budget policy" by linarith
  have "d \<le> ?b" by (simp add: d jitter_ms_def less_Suc_eq_le [symmetric])
  also have "?b \<le> (initial_backoff policy * shl_or_max (attempt - 1)) div ms"
    unfolding backoff_base_ms_def Let_def
    by (rule order_trans [OF mod_less_eq_dividend])
      (simp add: div_le_mono min.coboundedI1)
  finally show "d * ms \<le> initial_backoff policy * shl_or_max (attempt - 1)"
    by (simp add: ms_def less_eq_div_iff_mult_less_eq)
qed

lemma do_sleep_grows [frame_rules]: "(\<And>n. P (ESleep n)) \<Longrightarrow> grows P s (do_sleep dur d s)"
  unfolding do_sleep_def by (rule perform_grows)

text \<open>Effects that are not sleeps, counted: one per attempt when the operation is one call.\<close>

definition calls :: "effect list \<Rightarrow> nat" where
  "calls es = length (filter (\<lambda>e. case e of ESleep _ \<Rightarrow> False | _ \<Rightarrow> True) es)"

lemma calls_append [simp]: "calls (xs @ ys) = calls xs + calls ys"
  by (simp add: calls_def)

lemma calls_simps [simp]: 
  "calls [] = 0" "calls (ESleep n # es) = calls es" "calls (ERpc m # es) = Suc (calls es)"
  by (simp_all add: calls_def)

text \<open>The milliseconds of all pauses that were asked for.\<close>

definition slept :: "effect list \<Rightarrow> nat" where
  "slept es = (\<Sum>e\<leftarrow>es. case e of ESleep d \<Rightarrow> d | _ \<Rightarrow> 0)"

lemma slept_simps [simp]:
  "slept [] = 0" "slept (ESleep n # es) = n + slept es" "slept (ERpc m # es) = slept es"
  "slept (es @ fs) = slept es + slept fs"
  by (simp_all add: slept_def)

lemma do_sleep_now: "s_now t + d * ms \<le> s_now (do_sleep dur d t)"
  by (simp add: do_sleep_def perform_def Let_def)

lemma do_sleep_log [simp]: "s_log (do_sleep dur d s) = s_log s @ [ESleep d]"
  by (simp add: do_sleep_def)

section \<open>What the loop guarantees\<close>

text \<open>The interface of a retried operation: one call that only logs and lets time pass.\<close>

locale rpc_operation =
  fixes op :: "'a sys_scheme \<Rightarrow> (client_error + 't) \<times> 'a sys_scheme"
    and name :: string
  assumes op_log: "s_log (snd (op s)) = s_log s @ [ERpc name]"
    and op_now: "s_now s \<le> s_now (snd (op s))"
    and op_more: "sys.more (snd (op s)) = sys.more s"
begin

lemma op_grows: "grows is_rpc s (snd (op s))"
  by (simp add: grows_def op_log op_now op_more)

lemma loop_grows: "grows is_rpc s (snd (retry_loop policy rng dur op started n s))"
proof (induction "max_attempts policy - n" arbitrary: n s rule: less_induct)
  case less
  obtain r s1 where op: "op s = (r, s1)" by force
  with op_grows [of s] have g: "grows is_rpc s s1" by simp
  show ?case
  proof (cases r)
    case (Inr v)
    then show ?thesis using g by (simp add: retry_loop.simps [of _ _ _ _ _ n s] op)
  next
    case (Inl err)
    show ?thesis
    proof (cases "retry_decision policy rng (length (s_log s1)) (n + 1) (s_now s1 - started) err")
      case None
      then show ?thesis using g Inl by (simp add: retry_loop.simps [of _ _ _ _ _ n s] op)
    next
      case (Some d)
      then have "max_attempts policy - (n + 1) < max_attempts policy - n"
        using retry_decision_SomeD(2) by fastforce
      from less [OF this, of "do_sleep dur d s1"] grows_trans [OF g do_sleep_grows]
      show ?thesis using Inl Some
        by (simp add: retry_loop.simps [of _ _ _ _ _ n s] op) (blast intro: grows_trans)
    qed
  qed
qed

text \<open>The attempts made, and the reason a failing loop stopped.\<close>

lemma loop_spec:
  assumes "retry_loop policy rng dur op started n s = (r, t)"
  shows "\<exists>es sX. s_log t = s_log s @ es \<and> op sX = (r, t)
     \<and> 1 \<le> calls es \<and> calls es \<le> max 1 (max_attempts policy - n)
     \<and> (\<forall>err. r = Inl err \<longrightarrow>
          retry_decision policy rng (length (s_log t)) (n + calls es) (s_now t - started) err = None)"
  using assms
proof (induction "max_attempts policy - n" arbitrary: n s rule: less_induct)
  case less
  obtain r1 s1 where op: "op s = (r1, s1)" by force
  have log: "s_log s1 = s_log s @ [ERpc name]" using op_log [of s] by (simp add: op)
  show ?case
  proof (cases "\<exists>err d. r1 = Inl err \<and>
      retry_decision policy rng (length (s_log s1)) (n + 1) (s_now s1 - started) err = Some d")
    case True
    then obtain err d where r1: "r1 = Inl err" and
      d: "retry_decision policy rng (length (s_log s1)) (n + 1) (s_now s1 - started) err = Some d"
      by blast
    then have lt: "n + 1 < max_attempts policy" by (blast dest: retry_decision_SomeD(2))
    have eq: "retry_loop policy rng dur op started (n + 1) (do_sleep dur d s1) = (r, t)"
      using less.prems r1 d by (simp add: retry_loop.simps [of _ _ _ _ _ n s] op)
    from lt have "max_attempts policy - (n + 1) < max_attempts policy - n" by simp
    from less.hyps [OF this eq] obtain es sX where
      "s_log t = s_log (do_sleep dur d s1) @ es" "op sX = (r, t)" "1 \<le> calls es"
      "calls es \<le> max 1 (max_attempts policy - (n + 1))"
      "\<forall>err. r = Inl err \<longrightarrow> retry_decision policy rng (length (s_log t))
          (n + 1 + calls es) (s_now t - started) err = None"
      by blast
    with log lt show ?thesis
      by (intro exI [of _ "[ERpc name] @ [ESleep d] @ es"] exI [of _ sX]) auto
  next
    case False
    with less.prems have "(r, t) = (r1, s1)"
      by (auto simp: retry_loop.simps [of _ _ _ _ _ n s] op split: sum.splits option.splits)
    with False log op show ?thesis
      by (intro exI [of _ "[ERpc name]"] exI [of _ s]) auto
  qed
qed

text \<open>The pauses end within the budget, whatever the scheduler adds to them.\<close>

lemma loop_pauses:
  assumes "started \<le> s_now s"
  shows "\<exists>es. s_log (snd (retry_loop policy rng dur op started n s)) = s_log s @ es
    \<and> (slept es = 0 \<or> (s_now s - started) + slept es * ms < total_budget policy)"
  using assms
proof (induction "max_attempts policy - n" arbitrary: n s rule: less_induct)
  case less
  obtain r s1 where op: "op s = (r, s1)" by force
  have log: "s_log s1 = s_log s @ [ERpc name]" and now: "s_now s \<le> s_now s1"
    using op_log [of s] op_now [of s] by (simp_all add: op)
  show ?case
  proof (cases "\<exists>err d. r = Inl err \<and>
      retry_decision policy rng (length (s_log s1)) (n + 1) (s_now s1 - started) err = Some d")
    case True
    then obtain err d where r: "r = Inl err" and
      d: "retry_decision policy rng (length (s_log s1)) (n + 1) (s_now s1 - started) err = Some d"
      by blast
    let ?s2 = "do_sleep dur d s1"
    have lt: "max_attempts policy - (n + 1) < max_attempts policy - n"
      using retry_decision_SomeD(2) [OF d] by simp
    have "started \<le> s_now ?s2" using less.prems now do_sleep_now [of s1 d dur] by linarith
    from less.hyps [OF lt this] obtain es where
      es: "s_log (snd (retry_loop policy rng dur op started (n + 1) ?s2)) = s_log ?s2 @ es"
        "slept es = 0 \<or> (s_now ?s2 - started) + slept es * ms < total_budget policy"
      by blast
    have "(s_now s - started) + (d + slept es) * ms < total_budget policy"
      using es(2) retry_decision_SomeD(3) [OF d] do_sleep_now [of s1 d dur] now less.prems
      by (auto simp: algebra_simps)
    then show ?thesis
      using es(1) log r d by (intro exI [of _ "[ERpc name, ESleep d] @ es"])
        (simp add: retry_loop.simps [of _ _ _ _ _ n s] op)
  next
    case False
    then show ?thesis
      using log by (intro exI [of _ "[ERpc name]"])
        (auto simp: retry_loop.simps [of _ _ _ _ _ n s] op split: sum.splits option.splits)
  qed
qed

lemma with_retry_grows: "grows is_rpc s (snd (with_retry policy rng dur op s))"
  unfolding with_retry_def by (rule loop_grows)

lemma with_retry_attempts:
  assumes "with_retry policy rng dur op s = (r, t)"
  shows "\<exists>es. s_log t = s_log s @ es \<and> 1 \<le> calls es \<and> calls es \<le> max 1 (max_attempts policy)"
  using loop_spec [OF assms [unfolded with_retry_def]] by auto

lemma with_retry_result_from_op:
  "with_retry policy rng dur op s = (r, t) \<Longrightarrow> \<exists>sX. op sX = (r, t)"
  using loop_spec [of policy rng dur "s_now s" 0 s r t] by (auto simp: with_retry_def)

text \<open>A loop that fails had a reason to stop: a terminal error, no attempt left, or no budget
  left for the pause it drew.\<close>

lemma with_retry_failure:
  assumes "with_retry policy rng dur op s = (Inl err, t)"
  shows "\<exists>es. s_log t = s_log s @ es \<and>
     (retryable_reason err = None
      \<or> max_attempts policy \<le> calls es
      \<or> total_budget policy \<le> s_now t - s_now s + ms
      \<or> total_budget policy \<le> s_now t - s_now s
          + jitter_ms rng (length (s_log t))
              (backoff_base_ms policy (calls es) (total_budget policy - (s_now t - s_now s))) * ms)"
proof -
  obtain es where es: "s_log t = s_log s @ es" and
    "retry_decision policy rng (length (s_log t)) (calls es) (s_now t - s_now s) err = None"
    using loop_spec [OF assms [unfolded with_retry_def]] by auto
  then show ?thesis
    by (intro exI [of _ es]) (force simp: retry_decision_def Let_def split: if_splits)
qed

end
text \<open>A success or a terminal error on the first attempt ends the loop at once.\<close>

lemma with_retry_first_ok: "op s = (Inr v, s1) \<Longrightarrow> with_retry policy rng dur op s = (Inr v, s1)"
  by (simp add: with_retry_def retry_loop.simps [of _ _ _ _ _ 0 s])

lemma with_retry_terminal:
  "\<lbrakk>op s = (Inl err, s1); retryable_reason err = None\<rbrakk>
   \<Longrightarrow> with_retry policy rng dur op s = (Inl err, s1)"
  by (simp add: with_retry_def retry_loop.simps [of _ _ _ _ _ 0 s] retry_decision_def)

end
