(* ===== verification/Floats.thy ===== *)
theory Floats
  imports Prelude "HOL-Library.Log_Nat"
begin

text \<open>
  IEEE 754 binary floating point as Rust's \<^verbatim>\<open>f32\<close> and \<^verbatim>\<open>f64\<close> compute with it: every
  operation is the exact rational result rounded to the nearest representable value, ties
  to even, with overflow to an infinity. Values are rationals, the two infinities and NaN;
  the sign of zero is not kept, because no comparison or cast of the code distinguishes it.
  The theory also has the casts to integers (truncating, saturating, NaN to 0) and the
  decimal parser behind \<^verbatim>\<open>str::parse::<f64>\<close>.
\<close>

section \<open>Values and rounding\<close>

datatype fl = FNan | FPosInf | FNegInf | Fin rat

definition pow2 :: "int \<Rightarrow> rat" where
  "pow2 k = (if 0 \<le> k then 2 ^ nat k else 1 / 2 ^ nat (- k))"

text \<open>The same power by squaring, as the code equation of \<open>pow2\<close>.\<close>

function pow2i :: "int \<Rightarrow> int" where
  "pow2i k = (if k \<le> 0 then 1 else if k mod 2 = 0 then (let h = pow2i (k div 2) in h * h) else 2 * pow2i (k - 1))"
  by pat_completeness auto
termination by (relation "measure nat") auto

declare pow2i.simps [simp del]

lemma pow2i_nat: "pow2i (int n) = 2 ^ n"
proof (induction n rule: less_induct)
  case (less n)
  consider "n = 0" | "0 < n" "even n" | "odd n" by auto
  then show ?case
  proof cases
    case 1 then show ?thesis by (simp add: pow2i.simps)
  next
    case 2
    then obtain m where m: "n = 2 * m" by (auto elim: evenE)
    with 2 have "pow2i (int m) = 2 ^ m" by (intro less.IH) auto
    moreover have "int (2 * m) div 2 = int m" by simp
    moreover have "int n mod 2 = 0" "\<not> int n \<le> 0" "int n div 2 = int m" using 2 m by simp_all
    ultimately have "pow2i (int n) = 2 ^ m * 2 ^ m"
      by (simp only: pow2i.simps [of "int n"] simp_thms if_False if_True Let_def)
    moreover have "n = m + m" using m by simp
    ultimately show ?thesis by (simp only: power_add)
  next
    case 3
    then obtain m where m: "n = Suc (2 * m)" by (auto elim: oddE)
    have "pow2i (int (2 * m)) = 2 ^ (2 * m)" by (rule less.IH) (simp add: m)
    moreover have "int n mod 2 = 1" "0 < int n" "int n - 1 = int (2 * m)" using m by simp_all
    ultimately show ?thesis by (subst pow2i.simps) (simp add: m)
  qed
qed

lemma pow2_code [code]:
  "pow2 k = (if 0 \<le> k then of_int (pow2i k) else 1 / of_int (pow2i (- k)))"
proof (cases "0 \<le> k")
  case True
  then show ?thesis using pow2i_nat [of "nat k"] by (simp add: pow2_def)
next
  case False
  then show ?thesis using pow2i_nat [of "nat (- k)"] by (simp add: pow2_def)
qed

text \<open>The largest \<open>k\<close> with \<open>pow2 k \<le> x\<close>, for a positive \<open>x\<close>.\<close>

definition log2_floor :: "rat \<Rightarrow> int" where
  "log2_floor x =
     (let (n, d) = quotient_of x; l = bitlen n - bitlen d
      in if pow2 l \<le> x then l else l - 1)"

definition round_even :: "rat \<Rightarrow> int" where
  "round_even y =
     (let f = \<lfloor>y\<rfloor>; r = y - of_int f
      in if r < 1 / 2 then f else if 1 / 2 < r then f + 1 else if even f then f else f + 1)"

text \<open>A format: bits of significand, exponent of the least subnormal, overflow exponent.\<close>

record fformat =
  prec :: int
  emin :: int
  emax :: int

definition F32 :: fformat where
  "F32 = \<lparr>prec = 24, emin = - 149, emax = 128\<rparr>"

definition F64 :: fformat where
  "F64 = \<lparr>prec = 53, emin = - 1074, emax = 1024\<rparr>"

definition fround :: "fformat \<Rightarrow> rat \<Rightarrow> fl" where
  "fround F x =
     (if x = 0 then Fin 0
      else let q = pow2 (max (log2_floor \<bar>x\<bar> - (prec F - 1)) (emin F));
               r = of_int (round_even (\<bar>x\<bar> / q)) * q
           in if pow2 (emax F) \<le> r then (if x < 0 then FNegInf else FPosInf)
              else Fin (if x < 0 then - r else r))"

section \<open>Operations\<close>

fun fneg :: "fl \<Rightarrow> fl" where
  "fneg FNan = FNan"
| "fneg FPosInf = FNegInf"
| "fneg FNegInf = FPosInf"
| "fneg (Fin x) = Fin (- x)"

fun fadd :: "fformat \<Rightarrow> fl \<Rightarrow> fl \<Rightarrow> fl" where
  "fadd F (Fin x) (Fin y) = fround F (x + y)"
| "fadd F FNan b = FNan"
| "fadd F a FNan = FNan"
| "fadd F FPosInf FNegInf = FNan"
| "fadd F FNegInf FPosInf = FNan"
| "fadd F FPosInf b = FPosInf"
| "fadd F FNegInf b = FNegInf"
| "fadd F a FPosInf = FPosInf"
| "fadd F a FNegInf = FNegInf"

text \<open>The sign of a non-NaN value: -1, 0 or 1.\<close>

fun fsgn :: "fl \<Rightarrow> int" where
  "fsgn FNan = 0"
| "fsgn FPosInf = 1"
| "fsgn FNegInf = - 1"
| "fsgn (Fin x) = (if 0 < x then 1 else if x < 0 then - 1 else 0)"

definition inf_of :: "int \<Rightarrow> fl" where
  "inf_of s = (if s = 0 then FNan else if 0 < s then FPosInf else FNegInf)"

fun fmul :: "fformat \<Rightarrow> fl \<Rightarrow> fl \<Rightarrow> fl" where
  "fmul F (Fin x) (Fin y) = fround F (x * y)"
| "fmul F FNan b = FNan"
| "fmul F a FNan = FNan"
| "fmul F a b = inf_of (fsgn a * fsgn b)"

text \<open>Division of two finite values by a non-zero divisor, and the cases the code can reach
  with an infinite dividend or divisor; division by a zero is an infinity of the dividend's
  sign, as for a positive zero.\<close>

fun fdiv :: "fformat \<Rightarrow> fl \<Rightarrow> fl \<Rightarrow> fl" where
  "fdiv F (Fin x) (Fin y) = (if y = 0 then inf_of (fsgn (Fin x)) else fround F (x / y))"
| "fdiv F FNan b = FNan"
| "fdiv F a FNan = FNan"
| "fdiv F (Fin x) b = Fin 0"
| "fdiv F a (Fin y) = inf_of (fsgn a * (if y < 0 then - 1 else 1))"
| "fdiv F a b = FNan"

text \<open>Comparisons: every comparison with a NaN is false.\<close>

fun flt :: "fl \<Rightarrow> fl \<Rightarrow> bool" where
  "flt FNan b = False"
| "flt a FNan = False"
| "flt (Fin x) (Fin y) = (x < y)"
| "flt FNegInf b = (b \<noteq> FNegInf)"
| "flt a FPosInf = (a \<noteq> FPosInf)"
| "flt a b = False"

definition feq :: "fl \<Rightarrow> fl \<Rightarrow> bool" where
  "feq a b = (a = b \<and> a \<noteq> FNan)"

text \<open>\<^verbatim>\<open>f64::min\<close>: the other operand when one is NaN.\<close>

definition fmin :: "fl \<Rightarrow> fl \<Rightarrow> fl" where
  "fmin a b = (if a = FNan then b else if b = FNan then a else if flt b a then b else a)"

text \<open>\<^verbatim>\<open>f64::round\<close>: to the nearest integer, halves away from zero.\<close>

fun fround_half_away :: "fl \<Rightarrow> fl" where
  "fround_half_away (Fin x) =
     Fin (if x < 0 then - of_int \<lfloor>- x + 1 / 2\<rfloor> else of_int \<lfloor>x + 1 / 2\<rfloor>)"
| "fround_half_away a = a"

definition rat_trunc :: "rat \<Rightarrow> int" where
  "rat_trunc x = (if x < 0 then - \<lfloor>- x\<rfloor> else \<lfloor>x\<rfloor>)"

text \<open>\<^verbatim>\<open>as i32\<close>, \<^verbatim>\<open>as u64\<close>: truncate, saturate, NaN to 0.\<close>

fun cast_int :: "int \<Rightarrow> int \<Rightarrow> fl \<Rightarrow> int" where
  "cast_int lo hi FNan = 0"
| "cast_int lo hi FPosInf = hi"
| "cast_int lo hi FNegInf = lo"
| "cast_int lo hi (Fin x) = clamp lo hi (rat_trunc x)"

definition f_as_i32 :: "fl \<Rightarrow> int" where
  "f_as_i32 = cast_int (- (2 ^ 31)) (2 ^ 31 - 1)"

definition f_as_u64 :: "fl \<Rightarrow> nat" where
  "f_as_u64 x = nat (cast_int 0 (2 ^ 64 - 1) x)"

section \<open>Parsing\<close>

text \<open>The grammar of \<^verbatim>\<open>f64::from_str\<close>: an optional sign, then \<open>inf\<close>, \<open>infinity\<close> or \<open>nan\<close>
  in any case, or decimal digits with an optional point (a digit on at least one side) and
  an optional exponent.\<close>

fun take_digits :: "string \<Rightarrow> nat list \<times> string" where
  "take_digits [] = ([], [])"
| "take_digits (c # cs) =
     (case digit_val c of
        None \<Rightarrow> ([], c # cs)
      | Some d \<Rightarrow> let (ds, r) = take_digits cs in (d # ds, r))"

definition digits_val :: "nat list \<Rightarrow> nat" where
  "digits_val ds = foldl (\<lambda>a d. a * 10 + d) 0 ds"

definition pow10 :: "int \<Rightarrow> rat" where
  "pow10 k = (if 0 \<le> k then 10 ^ nat k else 1 / 10 ^ nat (- k))"

definition parse_exponent :: "string \<Rightarrow> int option" where
  "parse_exponent s =
     (case s of
        [] \<Rightarrow> Some 0
      | c # cs \<Rightarrow>
          if c \<noteq> CHR ''e'' \<and> c \<noteq> CHR ''E'' then None
          else let neg = (cs \<noteq> [] \<and> hd cs = CHR ''-'');
                   body = (if cs \<noteq> [] \<and> (hd cs = CHR ''-'' \<or> hd cs = CHR ''+'') then tl cs else cs);
                   (ds, r) = take_digits body
               in if ds = [] \<or> r \<noteq> [] then None
                  else Some (if neg then - int (digits_val ds) else int (digits_val ds)))"

definition parse_decimal :: "string \<Rightarrow> rat option" where
  "parse_decimal s =
     (let (ip, r) = take_digits s;
          (fp, r') = (case r of c # cs \<Rightarrow> if c = CHR ''.'' then take_digits cs else ([], r)
                              | [] \<Rightarrow> ([], []))
      in if ip = [] \<and> fp = [] then None
         else case parse_exponent r' of
                None \<Rightarrow> None
              | Some e \<Rightarrow> Some (of_nat (digits_val (ip @ fp)) * pow10 (e - int (length fp))))"

definition parse_f64 :: "string \<Rightarrow> fl option" where
  "parse_f64 s =
     (let neg = (s \<noteq> [] \<and> hd s = CHR ''-'');
          t = (if s \<noteq> [] \<and> (hd s = CHR ''-'' \<or> hd s = CHR ''+'') then tl s else s);
          sg = (\<lambda>v. if neg then fneg v else v)
      in if to_lower t = ''inf'' \<or> to_lower t = ''infinity'' then Some (sg FPosInf)
         else if to_lower t = ''nan'' then Some FNan
         else map_option (\<lambda>x. sg (fround F64 x)) (parse_decimal t))"

section \<open>Facts about rounding\<close>

lemma pow2_pos: "0 < pow2 k"
  by (simp add: pow2_def)

lemma pow2_Suc: "pow2 (k + 1) = 2 * pow2 k"
proof (cases "0 \<le> k")
  case True
  then show ?thesis by (simp add: pow2_def nat_add_distrib)
next
  case False
  then have *: "nat (- k) = Suc (nat (- (k + 1)))" by simp
  show ?thesis
  proof (cases "k = - 1")
    case True
    then show ?thesis by (simp add: pow2_def)
  next
    case neq: False
    with False have "\<not> 0 \<le> k + 1" by simp
    with False show ?thesis by (simp add: pow2_def *)
  qed
qed

lemma pow2_add_nat: "pow2 (k + int n) = 2 ^ n * pow2 k"
proof (induction n)
  case (Suc n)
  have "pow2 (k + int (Suc n)) = pow2 (k + int n + 1)" by (simp add: algebra_simps)
  then show ?case using Suc by (simp only: pow2_Suc) simp
qed simp

lemma pow2_mono: "j \<le> k \<Longrightarrow> pow2 j \<le> pow2 k"
proof -
  assume "j \<le> k"
  then have "pow2 k = 2 ^ nat (k - j) * pow2 j"
    using pow2_add_nat [of j "nat (k - j)"] by simp
  moreover have "1 * pow2 j \<le> 2 ^ nat (k - j) * pow2 j"
    using pow2_pos [of j] by (intro mult_right_mono) auto
  ultimately show ?thesis by simp
qed

lemma round_even_int [simp]: "round_even (of_int n) = n"
  by (simp add: round_even_def Let_def)

lemma round_even_error: "\<bar>of_int (round_even y) - y\<bar> \<le> 1 / 2"
proof -
  have "of_int \<lfloor>y\<rfloor> \<le> y" "y < of_int \<lfloor>y\<rfloor> + 1" by linarith+
  then have "0 \<le> y - of_int \<lfloor>y\<rfloor>" "y - of_int \<lfloor>y\<rfloor> < 1" by linarith+
  then show ?thesis
    unfolding round_even_def Let_def by (simp split: if_split add: abs_le_iff)
qed

lemma bitlen_rat_bounds:
  assumes "0 < n"
  shows "pow2 (bitlen n - 1) \<le> of_int n \<and> of_int n < pow2 (bitlen n)"
proof -
  have b: "0 < bitlen n"
    using assms bitlen_nonneg [of n] bitlen_eq_zero_iff [of n] by linarith
  have "2 ^ nat (bitlen n - 1) \<le> n \<and> n < 2 ^ nat (bitlen n)"
    using bitlen_bounds assms by blast
  then have "(of_int (2 ^ nat (bitlen n - 1)) :: rat) \<le> of_int n \<and> (of_int n :: rat) < of_int (2 ^ nat (bitlen n))"
    by (simp only: of_int_le_iff of_int_less_iff)
  then show ?thesis using b by (simp add: pow2_def)
qed

lemma pow2_diff: "pow2 (a - b) = pow2 a / pow2 b"
proof (cases "b \<le> a")
  case True
  then have "pow2 a = 2 ^ nat (a - b) * pow2 b" using pow2_add_nat [of b "nat (a - b)"] by simp
  then show ?thesis using pow2_pos [of b] True by (simp add: pow2_def)
next
  case False
  then have "pow2 b = 2 ^ nat (b - a) * pow2 a" using pow2_add_nat [of a "nat (b - a)"] by simp
  then show ?thesis using pow2_pos [of a] False by (simp add: pow2_def)
qed

lemma log2_floor_bounds:
  assumes "0 < x"
  shows "pow2 (log2_floor x) \<le> x \<and> x < pow2 (log2_floor x + 1)"
proof -
  obtain n d where q: "quotient_of x = (n, d)" by force
  have d: "0 < d" and x: "x = of_int n / of_int d"
    using q quotient_of_denom_pos quotient_of_div by blast+
  have n: "0 < n" using assms d x by (simp add: zero_less_divide_iff)
  let ?l = "bitlen n - bitlen d"
  have nb: "pow2 (bitlen n - 1) \<le> of_int n" "of_int n < pow2 (bitlen n)"
    and db: "pow2 (bitlen d - 1) \<le> of_int d" "of_int d < pow2 (bitlen d)"
    using bitlen_rat_bounds n d by blast+
  have dp: "(0::rat) < of_int d" using d by simp
  have "pow2 (?l - 1) \<le> x"
  proof -
    have "pow2 (?l - 1) = pow2 (bitlen n - 1) / pow2 (bitlen d)"
      using pow2_diff [of "bitlen n - 1" "bitlen d"] by (simp add: algebra_simps)
    also have "\<dots> \<le> of_int n / of_int d"
      using nb(1) db(2) dp n by (intro frac_le) simp_all
    finally show ?thesis by (simp add: x)
  qed
  moreover have "x < pow2 (?l + 1)"
  proof -
    have "x < pow2 (bitlen n) / pow2 (bitlen d - 1)"
      unfolding x using nb(2) db(1) dp n pow2_pos [of "bitlen d - 1"]
      by (intro frac_less) simp_all
    also have "\<dots> = pow2 (?l + 1)"
      using pow2_diff [of "bitlen n" "bitlen d - 1"] by (simp add: algebra_simps)
    finally show ?thesis .
  qed
  ultimately show ?thesis
    by (auto simp: log2_floor_def q Let_def)
qed

text \<open>A value with at most \<open>prec\<close> significant bits and an exponent in range is rounded to itself.\<close>

lemma fround_exact_pos:
  assumes m: "0 < m" "of_int m < pow2 (prec F)" and k: "emin F \<le> k"
    and x: "x = of_int m * pow2 k" and le: "x < pow2 (emax F)"
  shows "fround F x = Fin x"
proof -
  have pos: "0 < x" using m pow2_pos [of k] by (simp add: x)
  define e where "e = max (log2_floor x - (prec F - 1)) (emin F)"
  have "pow2 (log2_floor x) \<le> x" using log2_floor_bounds [OF pos] by simp
  also have "x < pow2 (prec F) * pow2 k"
    unfolding x using m(2) pow2_pos [of k] by (rule mult_strict_right_mono)
  also have "\<dots> = pow2 (k + prec F)"
    using pow2_diff [of "k + prec F" "prec F"] pow2_pos [of "prec F"] by (simp add: field_simps)
  finally have "\<not> k + prec F \<le> log2_floor x" using pow2_mono [of "k + prec F"] by force
  then have "e \<le> k" using k by (simp add: e_def)
  then have "x = of_int (m * 2 ^ nat (k - e)) * pow2 e"
    using pow2_add_nat [of e "nat (k - e)"] by (simp add: x)
  then have "x / pow2 e = of_int (m * 2 ^ nat (k - e))"
    using pow2_pos [of e] by (simp add: field_simps)
  then have "of_int (round_even (x / pow2 e)) * pow2 e = x"
    using pow2_pos [of e] by (metis less_irrefl nonzero_eq_divide_eq round_even_int)
  then show ?thesis
    using pos le by (simp add: fround_def e_def [symmetric])
qed

lemma pow2_numeral_nat: "pow2 (numeral k) = 2 ^ numeral k"
  by (simp add: pow2_def)

lemma fround_F64_nat:
  assumes "n < 2 ^ 53"
  shows "fround F64 (of_nat n) = Fin (of_nat n)"
proof (cases "n = 0")
  case True
  then show ?thesis by (simp add: fround_def)
next
  case False
  have "(of_nat n :: rat) < of_nat (2 ^ 53)" using assms by (simp only: of_nat_less_iff)
  then have lt: "of_nat n < pow2 53" by (simp add: pow2_def)
  have "pow2 53 \<le> pow2 1024" by (rule pow2_mono) simp
  with lt have "of_nat n < pow2 (emax F64)"
    by (simp only: F64_def fformat.simps order_less_le_trans)
  moreover have "0 < int n" "of_int (int n) < pow2 (prec F64)" "emin F64 \<le> 0"
    using False lt by (simp_all add: F64_def)
  ultimately show ?thesis
    by (intro fround_exact_pos [of "int n" F64 0]) (simp_all add: pow2_def [of 0])
qed

text \<open>Half a unit in the last place bounds the rounding error.\<close>

lemma fround_close:
  assumes "\<bar>x\<bar> < pow2 m" "emin F \<le> m - prec F" "m < emax F" "0 < prec F"
  shows "\<exists>r. fround F x = Fin r \<and> \<bar>r - x\<bar> \<le> pow2 (m - prec F) / 2"
proof (cases "x = 0")
  case True
  then show ?thesis using pow2_pos [of "m - prec F"] by (simp add: fround_def)
next
  case False
  then have pos: "0 < \<bar>x\<bar>" by simp
  define e where "e = max (log2_floor \<bar>x\<bar> - (prec F - 1)) (emin F)"
  define r where "r = of_int (round_even (\<bar>x\<bar> / pow2 e)) * pow2 e"
  have "\<not> m \<le> log2_floor \<bar>x\<bar>"
    using pow2_mono [of m "log2_floor \<bar>x\<bar>"] log2_floor_bounds [OF pos] assms(1) by linarith
  then have q: "pow2 e \<le> pow2 (m - prec F)" using assms(2) by (intro pow2_mono) (simp add: e_def)
  have "\<bar>r - \<bar>x\<bar>\<bar> = \<bar>of_int (round_even (\<bar>x\<bar> / pow2 e)) - \<bar>x\<bar> / pow2 e\<bar> * pow2 e"
    using pow2_pos [of e] abs_mult [of "of_int (round_even (\<bar>x\<bar> / pow2 e)) - \<bar>x\<bar> / pow2 e" "pow2 e"]
    by (simp add: r_def left_diff_distrib)
  also have "\<dots> \<le> 1 / 2 * pow2 e"
    using round_even_error pow2_pos [of e] by (intro mult_right_mono) auto
  finally have err: "\<bar>r - \<bar>x\<bar>\<bar> \<le> pow2 (m - prec F) / 2" using q by linarith
  have "pow2 (m - prec F) \<le> pow2 m" "pow2 (m + 1) \<le> pow2 (emax F)"
    using assms(3,4) by (intro pow2_mono; simp)+
  then have "\<not> pow2 (emax F) \<le> r"
    using err assms(1) pow2_pos [of m] pow2_Suc [of m] unfolding abs_le_iff by linarith
  moreover have "fround F x = (if pow2 (emax F) \<le> r then (if x < 0 then FNegInf else FPosInf)
      else Fin (if x < 0 then - r else r))"
    using False by (simp add: fround_def e_def r_def Let_def)
  ultimately show ?thesis using err by (auto simp: abs_if split: if_splits)
qed

lemma fround_F64_close:
  assumes "\<bar>x\<bar> < 1024"
  shows "\<exists>r. fround F64 x = Fin r \<and> \<bar>r - x\<bar> \<le> 1 / 2 ^ 43"
proof -
  have "\<exists>r. fround F64 x = Fin r \<and> \<bar>r - x\<bar> \<le> pow2 (10 - prec F64) / 2"
    using assms by (intro fround_close) (simp_all add: F64_def pow2_def [of 10])
  then show ?thesis by (auto simp: F64_def pow2_def)
qed

text \<open>A finite value between two bounds.\<close>

definition fl_in :: "rat \<Rightarrow> rat \<Rightarrow> fl \<Rightarrow> bool" where
  "fl_in lo hi x = (case x of Fin c \<Rightarrow> lo \<le> c \<and> c \<le> hi | _ \<Rightarrow> False)"

lemma fl_in_mono: "\<lbrakk>fl_in lo hi x; lo' \<le> lo; hi \<le> hi'\<rbrakk> \<Longrightarrow> fl_in lo' hi' x"
  by (auto simp: fl_in_def split: fl.splits)

lemma fround_F32_fl_in:
  assumes "\<bar>x\<bar> < 4"
  shows "fl_in (x - 1 / 2 ^ 23) (x + 1 / 2 ^ 23) (fround F32 x)"
proof -
  have "\<exists>r. fround F32 x = Fin r \<and> \<bar>r - x\<bar> \<le> pow2 (2 - prec F32) / 2"
    using assms by (intro fround_close) (simp_all add: F32_def pow2_def [of 2])
  then obtain r where r: "fround F32 x = Fin r" "\<bar>r - x\<bar> \<le> pow2 (2 - prec F32) / 2" by blast
  moreover have "pow2 (2 - prec F32) / 2 = 1 / 2 ^ 23" by (simp add: F32_def pow2_def)
  ultimately have "\<bar>r - x\<bar> \<le> 1 / 2 ^ 23" by (simp only:)
  then show ?thesis unfolding fl_in_def r(1) fl.case abs_le_iff by linarith
qed

lemma fl_in_fmin:
  assumes "fl_in lo hi x" "fl_in a b y" "lo \<le> a"
  shows "fl_in lo b (fmin x y)"
  using assms by (auto simp: fl_in_def fmin_def split: fl.splits)

end
