(* ===== verification/Json.thy ===== *)
theory Json
  imports Floats
begin

text \<open>
  \<^verbatim>\<open>serde_json::Value\<close> and the accessors the code calls on it. An object is an association
  list; \<open>jinsert\<close> replaces or appends a key, so a built object has distinct keys. The text
  reader and printer of the crate are parameters of the model (\<open>World\<close>).
\<close>

datatype json =
    JNull
  | JBool bool
  | JPos nat
  | JNeg int
  | JFloat fl
  | JStr string
  | JArr "json list"
  | JObj "(string \<times> json) list"

fun jget :: "json \<Rightarrow> string \<Rightarrow> json option" where
  "jget (JObj m) k = map_of m k"
| "jget v k = None"

fun as_str :: "json \<Rightarrow> string option" where
  "as_str (JStr s) = Some s"
| "as_str v = None"

fun as_bool :: "json \<Rightarrow> bool option" where
  "as_bool (JBool b) = Some b"
| "as_bool v = None"

fun as_u64 :: "json \<Rightarrow> nat option" where
  "as_u64 (JPos n) = Some n"
| "as_u64 v = None"

fun is_obj :: "json \<Rightarrow> bool" where
  "is_obj (JObj m) = True"
| "is_obj v = False"

text \<open>\<^verbatim>\<open>if let Some(obj) = v.as_object_mut() { obj.insert(k, x) }\<close>.\<close>

fun jinsert :: "string \<Rightarrow> json \<Rightarrow> json \<Rightarrow> json" where
  "jinsert k x (JObj m) = JObj (AList.update k x m)"
| "jinsert k x v = v"

text \<open>Insert every pair of another object, in its order.\<close>

definition jinsert_all :: "(string \<times> json) list \<Rightarrow> json \<Rightarrow> json" where
  "jinsert_all kvs v = foldl (\<lambda>a (k, x). jinsert k x a) v kvs"

fun obj_pairs :: "json \<Rightarrow> (string \<times> json) list" where
  "obj_pairs (JObj m) = m"
| "obj_pairs v = []"

definition get_str :: "json \<Rightarrow> string \<Rightarrow> string option" where
  "get_str v k = Option.bind (jget v k) as_str"

text \<open>\<^verbatim>\<open>Value::pointer\<close> for a path of two object keys.\<close>

definition pointer2 :: "json \<Rightarrow> string \<Rightarrow> string \<Rightarrow> json option" where
  "pointer2 v a b = Option.bind (jget v a) (\<lambda>w. jget w b)"

lemma as_u64_Some: "as_u64 v = Some n \<longleftrightarrow> v = JPos n"
  by (cases v) auto

lemma as_bool_Some: "as_bool v = Some b \<longleftrightarrow> v = JBool b"
  by (cases v) auto

lemma as_str_Some: "as_str v = Some t \<longleftrightarrow> v = JStr t"
  by (cases v) auto

lemma is_obj_jinsert [simp]: "is_obj (jinsert k x v) = is_obj v"
  by (cases v) auto

lemma jget_jinsert: "jget (jinsert k x v) k' = (if is_obj v \<and> k' = k then Some x else jget v k')"
  by (cases v) (auto simp: update_conv')

lemma jget_jinsert_same [simp]: "is_obj v \<Longrightarrow> jget (jinsert k x v) k = Some x"
  by (simp add: jget_jinsert)

lemma jget_jinsert_other [simp]: "k' \<noteq> k \<Longrightarrow> jget (jinsert k x v) k' = jget v k'"
  by (simp add: jget_jinsert)

lemma jinsert_not_obj: "\<not> is_obj v \<Longrightarrow> jinsert k x v = v"
  by (cases v) auto

lemma is_obj_jinsert_all [simp]: "is_obj (jinsert_all kvs v) = is_obj v"
  unfolding jinsert_all_def by (induction kvs arbitrary: v) (auto split: prod.splits)

lemma jinsert_all_simps [simp]:
  "jinsert_all [] v = v"
  "jinsert_all ((k, x) # kvs) v = jinsert_all kvs (jinsert k x v)"
  by (simp_all add: jinsert_all_def)

lemma jget_jinsert_all_other:
  "k \<notin> fst ` set kvs \<Longrightarrow> jget (jinsert_all kvs v) k = jget v k"
  by (induction kvs arbitrary: v) auto

lemma jget_jinsert_all:
  "\<lbrakk>distinct (map fst kvs); (k, x) \<in> set kvs; is_obj v\<rbrakk> \<Longrightarrow> jget (jinsert_all kvs v) k = Some x"
proof (induction kvs arbitrary: v)
  case (Cons a kvs)
  obtain k' x' where a: "a = (k', x')" by force
  show ?case
  proof (cases "k \<in> fst ` set kvs")
    case True
    with Cons a show ?thesis by (auto simp: image_iff)
  next
    case False
    with Cons.prems a have "k' = k" "x' = x" by (force simp: image_iff)+
    with False Cons.prems a show ?thesis by (simp add: jget_jinsert_all_other)
  qed
qed simp

end
