(* ===== verification/Rpc.thy ===== *)
theory Rpc
  imports Retry Json
begin

text \<open>
  The Solana RPC client as the code sees it: one operation per method, each a single effect
  whose reply the environment chooses. \<open>env\<close> is the environment of the whole service: the
  third-party functions, the clock and random number sources, the environment variables and
  the RPC replies. Every reply function takes the number of effects performed so far, so the
  replies of one method may differ from call to call.
\<close>

datatype ui_encoding = Base64 | OtherEncoding

datatype ui_account_data =
    UiJson json
  | UiBinary string ui_encoding
  | UiLegacyBinary string

record ui_account =
  ua_lamports :: u64
  ua_data :: ui_account_data

record keyed_account =
  ka_pubkey :: string
  ka_data :: ui_account_data

record sig_info =
  si_signature :: string
  si_block_time :: "int option"

text \<open>A fetched transaction: the encoded message and, if present, the status meta's balances.\<close>

datatype encoded_transaction = EncBinary string | EncOther

record enc_tx =
  et_meta :: "(u64 list \<times> u64 list) option"
  et_transaction :: encoded_transaction

record sim_response =
  sr_err :: "string option"
  sr_accounts :: "ui_account option list option"

record token_amount =
  ta_ui_amount :: "fl option"
  ta_decimals :: u8

record env =
  e_lib :: lib
  e_dur :: "nat \<Rightarrow> nat"
  e_rng :: "nat \<Rightarrow> nat"
  e_getenv :: "string \<Rightarrow> string option"
  e_balance :: "nat \<Rightarrow> pubkey \<Rightarrow> client_error + u64"
  e_token_accounts :: "nat \<Rightarrow> pubkey \<Rightarrow> client_error + keyed_account list"
  e_sigs :: "nat \<Rightarrow> pubkey \<Rightarrow> signature option \<Rightarrow> nat \<Rightarrow> client_error + sig_info list"
  e_tx :: "nat \<Rightarrow> signature \<Rightarrow> client_error + enc_tx"
  e_simulate :: "nat \<Rightarrow> vtx \<Rightarrow> string list \<Rightarrow> client_error + sim_response"
  e_supply :: "nat \<Rightarrow> pubkey \<Rightarrow> client_error + token_amount"
  e_account :: "nat \<Rightarrow> pubkey \<Rightarrow> client_error + bytes"
  e_largest :: "nat \<Rightarrow> pubkey \<Rightarrow> client_error + fl option list"

definition rpc_get_balance where
  "rpc_get_balance (E :: 'e env_scheme) pk =
     perform (e_dur E) (ERpc ''getBalance'') (\<lambda>k. e_balance E k pk)"

definition rpc_get_token_accounts where
  "rpc_get_token_accounts (E :: 'e env_scheme) pk =
     perform (e_dur E) (ERpc ''getTokenAccountsByOwner'') (\<lambda>k. e_token_accounts E k pk)"

definition rpc_get_signatures where
  "rpc_get_signatures (E :: 'e env_scheme) pk before limit =
     perform (e_dur E) (ERpc ''getSignaturesForAddress'') (\<lambda>k. e_sigs E k pk before limit)"

definition rpc_get_transaction where
  "rpc_get_transaction (E :: 'e env_scheme) sig =
     perform (e_dur E) (ERpc ''getTransaction'') (\<lambda>k. e_tx E k sig)"

definition rpc_simulate where
  "rpc_simulate (E :: 'e env_scheme) tx addrs =
     perform (e_dur E) (ERpc ''simulateTransaction'') (\<lambda>k. e_simulate E k tx addrs)"

definition rpc_get_token_supply where
  "rpc_get_token_supply (E :: 'e env_scheme) m =
     perform (e_dur E) (ERpc ''getTokenSupply'') (\<lambda>k. e_supply E k m)"

definition rpc_get_account where
  "rpc_get_account (E :: 'e env_scheme) m =
     perform (e_dur E) (ERpc ''getAccountInfo'') (\<lambda>k. e_account E k m)"

definition rpc_get_largest where
  "rpc_get_largest (E :: 'e env_scheme) m =
     perform (e_dur E) (ERpc ''getTokenLargestAccounts'') (\<lambda>k. e_largest E k m)"

lemmas rpc_ops = rpc_get_balance_def rpc_get_token_accounts_def rpc_get_signatures_def
  rpc_get_transaction_def rpc_simulate_def rpc_get_token_supply_def rpc_get_account_def
  rpc_get_largest_def

text \<open>\<^verbatim>\<open>with_retry(RetryPolicy::from_env(), \<dots>)\<close>, as every collector calls it.\<close>

definition retrying ::
    "'e env_scheme \<Rightarrow> ('a sys_scheme \<Rightarrow> (client_error + 't) \<times> 'a sys_scheme)
     \<Rightarrow> 'a sys_scheme \<Rightarrow> (client_error + 't) \<times> 'a sys_scheme" where
  "retrying E op = with_retry (policy_from_env (e_getenv E)) (e_rng E) (e_dur E) op"

section \<open>Every method is a retryable operation\<close>

lemma perform_rpc_operation: "rpc_operation (perform d (ERpc m) f) m"
  by unfold_locales (simp_all add: perform_def Let_def)

interpretation op_balance: rpc_operation "rpc_get_balance E pk" "''getBalance''"
  for E :: "'e env_scheme" and pk
  unfolding rpc_ops by (rule perform_rpc_operation)

interpretation op_token_accounts:
  rpc_operation "rpc_get_token_accounts E pk" "''getTokenAccountsByOwner''"
  for E :: "'e env_scheme" and pk
  unfolding rpc_ops by (rule perform_rpc_operation)

interpretation op_signatures:
  rpc_operation "rpc_get_signatures E pk before limit" "''getSignaturesForAddress''"
  for E :: "'e env_scheme" and pk before limit
  unfolding rpc_ops by (rule perform_rpc_operation)

interpretation op_transaction: rpc_operation "rpc_get_transaction E sig" "''getTransaction''"
  for E :: "'e env_scheme" and sig
  unfolding rpc_ops by (rule perform_rpc_operation)

interpretation op_supply: rpc_operation "rpc_get_token_supply E m" "''getTokenSupply''"
  for E :: "'e env_scheme" and m
  unfolding rpc_ops by (rule perform_rpc_operation)

interpretation op_account: rpc_operation "rpc_get_account E m" "''getAccountInfo''"
  for E :: "'e env_scheme" and m
  unfolding rpc_ops by (rule perform_rpc_operation)

interpretation op_largest: rpc_operation "rpc_get_largest E m" "''getTokenLargestAccounts''"
  for E :: "'e env_scheme" and m
  unfolding rpc_ops by (rule perform_rpc_operation)

text \<open>A retried call only lets time pass and logs RPC calls and pauses, at most ten calls.\<close>

lemma retrying_op_grows: "rpc_operation op m \<Longrightarrow> grows is_rpc s (snd (retrying E op s))"
  unfolding retrying_def by (rule rpc_operation.with_retry_grows)

lemma policy_attempts: "1 \<le> max_attempts (policy_from_env g) \<and> max_attempts (policy_from_env g) \<le> 10"
  by (simp add: policy_from_env_def Let_def clamp_nat_def)

lemma retrying_op_calls:
  assumes "rpc_operation op m"
  shows "\<exists>es. s_log (snd (retrying E op s)) = s_log s @ es \<and> 1 \<le> calls es \<and> calls es \<le> 10"
proof -
  obtain r t where rt: "retrying E op s = (r, t)" by force
  then show ?thesis
    using rpc_operation.with_retry_attempts [OF assms, of _ _ _ s r t] policy_attempts [of "e_getenv E"]
    unfolding retrying_def by force
qed

lemmas retrying_grows [frame_rules] =
  retrying_op_grows [OF op_balance.rpc_operation_axioms]
  retrying_op_grows [OF op_token_accounts.rpc_operation_axioms]
  retrying_op_grows [OF op_signatures.rpc_operation_axioms]
  retrying_op_grows [OF op_transaction.rpc_operation_axioms]
  retrying_op_grows [OF op_supply.rpc_operation_axioms]
  retrying_op_grows [OF op_account.rpc_operation_axioms]
  retrying_op_grows [OF op_largest.rpc_operation_axioms]

end
