(* ===== verification/Labels.thy ===== *)
theory Labels
  imports Prelude
begin

text \<open>
  Wallet labels (\<^verbatim>\<open>src/signals/labels.rs\<close>): label entries, the per-wallet index built from a
  list of entries, the JSONL reader, the process-wide cache with its deny and allow index,
  and the coverage summary. The parsing of one JSON line is a parameter; the database read
  that refreshes the cache is in \<open>Caches\<close>, on top of the operations here.

  The locale \<open>label_index\<close> states the interface the signal collectors rely on (a lookup
  returns exactly the entries of that wallet, in order); it is interpreted on the code's
  hash-map index at the end of the theory.
\<close>

section \<open>Entries and the index\<close>

record label_entry =
  le_wallet :: string
  le_source :: string
  le_label :: string
  le_weight :: int
  le_note :: string

text \<open>\<^verbatim>\<open>HashMap<String, Vec<LabelEntry>>\<close> as an association list with distinct keys.\<close>

record label_idx =
  by_wallet :: "(string \<times> label_entry list) list"

definition li_push :: "label_entry \<Rightarrow> (string \<times> label_entry list) list \<Rightarrow> (string \<times> label_entry list) list" where
  "li_push e m = AList.update (le_wallet e) (unwrap_or (map_of m (le_wallet e)) [] @ [e]) m"

definition li_build :: "label_entry list \<Rightarrow> label_idx" where
  "li_build es = \<lparr>by_wallet = foldl (\<lambda>m e. li_push e m) [] es\<rparr>"

definition li_lookup :: "label_idx \<Rightarrow> string \<Rightarrow> label_entry list" where
  "li_lookup idx w = unwrap_or (map_of (by_wallet idx) w) []"

section \<open>The JSONL files\<close>

text \<open>\<^verbatim>\<open>str::lines\<close>: split at newlines, drop a trailing carriage return, and no last empty line.\<close>

definition strip_cr :: "string \<Rightarrow> string" where
  "strip_cr l = (if l \<noteq> [] \<and> last l = char_of (13 :: nat) then butlast l else l)"

definition str_lines :: "string \<Rightarrow> string list" where
  "str_lines s =
     (let ws = split_on (char_of (10 :: nat)) s
      in map strip_cr (if last ws = [] then butlast ws else ws))"

definition parse_jsonl :: "(string \<Rightarrow> label_entry option) \<Rightarrow> string \<Rightarrow> label_entry list" where
  "parse_jsonl from_str raw =
     List.map_filter from_str
       (filter (\<lambda>l. trim l \<noteq> [] \<and> \<not> starts_with l ''#'') (str_lines raw))"

section \<open>The cache\<close>

record label_cache =
  lc_deny :: label_idx
  lc_allow :: label_idx
  lc_last_fetch :: "nat option"

definition static_deny_index :: "(string \<Rightarrow> label_entry option) \<Rightarrow> string \<Rightarrow> label_idx" where
  "static_deny_index from_str raw = li_build (parse_jsonl from_str raw)"

definition static_allow_index :: "(string \<Rightarrow> label_entry option) \<Rightarrow> string \<Rightarrow> label_idx" where
  "static_allow_index from_str raw = li_build (parse_jsonl from_str raw)"

definition static_label_cache ::
    "(string \<Rightarrow> label_entry option) \<Rightarrow> string \<Rightarrow> string \<Rightarrow> label_cache" where
  "static_label_cache from_str deny_raw allow_raw =
     \<lparr>lc_deny = static_deny_index from_str deny_raw,
      lc_allow = static_allow_index from_str allow_raw,
      lc_last_fetch = None\<rparr>"

definition label_cache_fresh :: "nat \<Rightarrow> nat \<Rightarrow> label_cache \<Rightarrow> bool" where
  "label_cache_fresh ttl now c =
     (case lc_last_fetch c of None \<Rightarrow> False | Some t \<Rightarrow> now - t < ttl)"

text \<open>The rows of a non-empty fetch: positive weights go to the deny index, the rest to allow.\<close>

definition install_labels :: "label_entry list \<Rightarrow> nat \<Rightarrow> label_cache \<Rightarrow> label_cache" where
  "install_labels rows now c =
     c\<lparr>lc_deny := li_build (filter (\<lambda>e. le_weight e > 0) rows),
       lc_allow := li_build (filter (\<lambda>e. \<not> le_weight e > 0) rows),
       lc_last_fetch := Some now\<rparr>"

record label_coverage =
  deny_count :: nat
  allow_count :: nat
  cov_sources :: "string list"

text \<open>\<^verbatim>\<open>sort\<close> then \<^verbatim>\<open>dedup\<close> over byte strings.\<close>

fun str_le :: "string \<Rightarrow> string \<Rightarrow> bool" where
  "str_le [] t = True"
| "str_le (a # s) [] = False"
| "str_le (a # s) (b # t) =
     (let m = of_char a :: nat; n = of_char b in m < n \<or> (m = n \<and> str_le s t))"

fun str_insort :: "string \<Rightarrow> string list \<Rightarrow> string list" where
  "str_insort x [] = [x]"
| "str_insort x (y # ys) = (if str_le x y then x # y # ys else y # str_insort x ys)"

definition label_coverage :: "label_idx \<Rightarrow> label_idx \<Rightarrow> label_coverage" where
  "label_coverage deny allow =
     \<lparr>deny_count = length (by_wallet deny),
      allow_count = length (by_wallet allow),
      cov_sources =
        remdups_adj (foldr str_insort
          (map le_source (concat (map snd (by_wallet deny)) @ concat (map snd (by_wallet allow)))) [])\<rparr>"

section \<open>The interface of a label index\<close>

locale label_index =
  fixes build :: "label_entry list \<Rightarrow> 'i"
    and lookup :: "'i \<Rightarrow> string \<Rightarrow> label_entry list"
  assumes lookup_build: "lookup (build es) w = filter (\<lambda>e. le_wallet e = w) es"
begin

lemma hit_iff: "e \<in> set (lookup (build es) w) \<longleftrightarrow> e \<in> set es \<and> le_wallet e = w"
  by (auto simp: lookup_build)

lemma miss_iff: "lookup (build es) w = [] \<longleftrightarrow> (\<forall>e \<in> set es. le_wallet e \<noteq> w)"
  by (auto simp: lookup_build filter_empty_conv)

lemma split_by_weight:
  "set (lookup (build (filter P es)) w) \<inter> set (lookup (build (filter (\<lambda>e. \<not> P e) es)) w) = {}"
  "set (lookup (build (filter P es)) w) \<union> set (lookup (build (filter (\<lambda>e. \<not> P e) es)) w)
     = set (lookup (build es) w)"
  by (auto simp: lookup_build)

lemma deny_weights_positive:
  "e \<in> set (lookup (build (filter (\<lambda>e. le_weight e > 0) es)) w) \<Longrightarrow> le_weight e > 0"
  by (auto simp: lookup_build)

end

text \<open>The code's index satisfies the interface: pushing one entry extends exactly one bucket.\<close>

lemma li_push_lookup:
  "unwrap_or (map_of (li_push e m) w) [] =
     unwrap_or (map_of m w) [] @ (if le_wallet e = w then [e] else [])"
  by (simp add: li_push_def update_conv')

lemma li_fold_lookup:
  "unwrap_or (map_of (foldl (\<lambda>m e. li_push e m) m es) w) [] =
     unwrap_or (map_of m w) [] @ filter (\<lambda>e. le_wallet e = w) es"
  by (induction es arbitrary: m) (simp_all add: li_push_lookup)

interpretation li: label_index li_build li_lookup
  by unfold_locales (simp add: li_lookup_def li_build_def li_fold_lookup)

lemma li_build_distinct: "distinct (map fst (by_wallet (li_build es)))"
proof -
  have "distinct (map fst m) \<Longrightarrow> distinct (map fst (foldl (\<lambda>m e. li_push e m) m es))" for m
    by (induction es arbitrary: m) (simp_all add: li_push_def distinct_update)
  from this [of "[]"] show ?thesis by (simp add: li_build_def)
qed

lemma li_build_keys: "fst ` set (by_wallet (li_build es)) = le_wallet ` set es"
proof -
  have "fst ` set (foldl (\<lambda>m e. li_push e m) m es) = fst ` set m \<union> le_wallet ` set es" for m
    by (induction es arbitrary: m) (auto simp: li_push_def dom_update)
  from this [of "[]"] show ?thesis by (simp add: li_build_def)
qed

lemma deny_count_card:
  "deny_count (label_coverage (li_build ds) as) = card (le_wallet ` set ds)"
  using li_build_distinct [of ds] li_build_keys [of ds]
  by (simp add: label_coverage_def)
    (metis distinct_card length_map list.set_map)

lemma str_le_refl [simp]: "str_le s s"
  by (induction s) (auto simp: Let_def)

lemma set_str_insort [simp]: "set (str_insort x xs) = insert x (set xs)"
  by (induction xs) auto

lemma set_str_sort [simp]: "set (foldr str_insort xs ys) = set xs \<union> set ys"
  by (induction xs) auto

lemma coverage_sources_set:
  "set (cov_sources (label_coverage d a)) =
     le_source ` (\<Union> (set ` snd ` set (by_wallet d)) \<union> \<Union> (set ` snd ` set (by_wallet a)))"
  by (auto simp: label_coverage_def image_iff)

text \<open>What the indices hold after a refresh.\<close>

lemma install_labels_lookup:
  "li_lookup (lc_deny (install_labels rows now c)) w = filter (\<lambda>e. le_wallet e = w \<and> 0 < le_weight e) rows"
  "li_lookup (lc_allow (install_labels rows now c)) w = filter (\<lambda>e. le_wallet e = w \<and> le_weight e \<le> 0) rows"
  by (simp_all add: install_labels_def li.lookup_build not_less conj_commute)

text \<open>The entries of a built index, and its size.\<close>

lemma li_build_entries: "\<Union> (set ` snd ` set (by_wallet (li_build es))) = set es"
proof
  show "\<Union> (set ` snd ` set (by_wallet (li_build es))) \<subseteq> set es"
  proof
    fix e assume "e \<in> \<Union> (set ` snd ` set (by_wallet (li_build es)))"
    then obtain k l where kl: "(k, l) \<in> set (by_wallet (li_build es))" "e \<in> set l" by auto
    then have "li_lookup (li_build es) k = l" by (simp add: li_lookup_def li_build_distinct)
    with kl(2) show "e \<in> set es" using li.hit_iff by blast
  qed
  show "set es \<subseteq> \<Union> (set ` snd ` set (by_wallet (li_build es)))"
  proof
    fix e assume "e \<in> set es"
    then have "e \<in> set (li_lookup (li_build es) (le_wallet e))" by (simp add: li.hit_iff)
    then obtain l where "map_of (by_wallet (li_build es)) (le_wallet e) = Some l" "e \<in> set l"
      by (cases "map_of (by_wallet (li_build es)) (le_wallet e)") (auto simp: li_lookup_def)
    then show "e \<in> \<Union> (set ` snd ` set (by_wallet (li_build es)))" by (force dest: map_of_SomeD)
  qed
qed

lemma li_build_size: "length (by_wallet (li_build es)) = card (le_wallet ` set es)"
  using li_build_distinct [of es] li_build_keys [of es] by (metis distinct_card length_map list.set_map)

end
