(* ===== verification/Tx.thy ===== *)
theory Tx
  imports Rpc Labels
begin

text \<open>
  \<^verbatim>\<open>src/signals/tx.rs\<close>: decoding of a base64 transaction, the static screen \<open>analyze\<close> over its
  instructions, and the best-effort simulation with the net SOL and token balance changes.
  Token amounts and lamports are 64-bit words; a delta is their wrapping signed difference.
\<close>

section \<open>Constants and signals\<close>

definition OUTFLOW_LAMPORTS_THRESHOLD :: int where
  "OUTFLOW_LAMPORTS_THRESHOLD = 10000000"

definition SYSTEM_PROGRAM :: string where
  "SYSTEM_PROGRAM = ''11111111111111111111111111111111''"
definition SPL_TOKEN_PROGRAM :: string where
  "SPL_TOKEN_PROGRAM = ''TokenkegQfeZyiNwAJbNbGKPFXCWuBvf9Ss623VQ5DA''"
definition TOKEN_2022_PROGRAM :: string where
  "TOKEN_2022_PROGRAM = ''TokenzQdBNbLqP5VEhdkAS6EPFLC1PHnBqCXEpPxuEb''"
definition ATA_PROGRAM :: string where
  "ATA_PROGRAM = ''ATokenGPvbdGVxr1b2hvZbsiqW5xWH25efTNsLJA8knL''"
definition COMPUTE_BUDGET_PROGRAM :: string where
  "COMPUTE_BUDGET_PROGRAM = ''ComputeBudget111111111111111111111111111111''"
definition MEMO_PROGRAM :: string where
  "MEMO_PROGRAM = ''MemoSq4gqABAXKb96qnH8TysNcWxMyWCqXgDLGmfcHr''"
definition MEMO_PROGRAM_V1 :: string where
  "MEMO_PROGRAM_V1 = ''Memo1UhkJRfHyvLMcVucJwxXeuD728EqVDDwQDxFMNo''"

record tx_label_hit =
  lh_program :: string
  lh_source :: string
  lh_label :: string

record token_change =
  tc_mint :: string
  tc_delta_raw :: int

record tx_signals =
  fee_payer :: "string option"
  subject :: "string option"
  instruction_count :: nat
  programs :: "string list"
  uses_lookup_tables :: bool
  simulated :: bool
  simulation_error :: "string option"
  net_sol_change_lamports :: "int option"
  net_token_changes :: "token_change list"
  deny_program_hits :: "tx_label_hit list"
  authority_handoffs :: "string list"
  delegations :: nat
  close_accounts :: nat
  unknown_programs :: "string list"

definition is_known_safe :: "string \<Rightarrow> bool" where
  "is_known_safe program =
     (program = SYSTEM_PROGRAM \<or> program = SPL_TOKEN_PROGRAM \<or> program = TOKEN_2022_PROGRAM
      \<or> program = ATA_PROGRAM \<or> program = COMPUTE_BUDGET_PROGRAM
      \<or> program = MEMO_PROGRAM \<or> program = MEMO_PROGRAM_V1)"

definition is_token_program :: "string \<Rightarrow> bool" where
  "is_token_program program = (program = SPL_TOKEN_PROGRAM \<or> program = TOKEN_2022_PROGRAM)"

section \<open>Decoding\<close>

definition is_ok :: "'a + 'b \<Rightarrow> bool" where
  "is_ok r = (case r of Inl _ \<Rightarrow> False | Inr _ \<Rightarrow> True)"

definition ok :: "'a + 'b \<Rightarrow> 'b option" where
  "ok r = (case r of Inl _ \<Rightarrow> None | Inr v \<Rightarrow> Some v)"

lemma ok_simps [simp]: "ok (Inl e) = None" "ok (Inr v) = Some v" "is_ok (Inr v)" "\<not> is_ok (Inl e)"
  by (simp_all add: ok_def is_ok_def)

definition base64_ok :: "lib \<Rightarrow> string \<Rightarrow> bool" where
  "base64_ok L tx_b64 = (let t = trim tx_b64 in is_ok (b64_std L t) \<or> is_ok (b64_url L t))"

definition decode_tx :: "lib \<Rightarrow> string \<Rightarrow> string + vtx" where
  "decode_tx L tx_b64 =
     (case (case b64_std L (trim tx_b64) of
              Inr bs \<Rightarrow> Inr bs
            | Inl _ \<Rightarrow> b64_url L (trim tx_b64)) of
        Inl e \<Rightarrow> Inl (''transaction is not valid base64: '' @ e)
      | Inr bs \<Rightarrow>
          (case bincode_tx L bs of
             Inl e \<Rightarrow> Inl (''could not deserialize transaction: '' @ e)
           | Inr t \<Rightarrow> Inr t))"

section \<open>The static screen\<close>

definition hits_of :: "string \<Rightarrow> label_entry list \<Rightarrow> tx_label_hit list" where
  "hits_of program es =
     map (\<lambda>h. \<lparr>lh_program = program, lh_source = le_source h, lh_label = le_label h\<rparr>) es"

text \<open>The loop body after the program id was resolved to \<open>program\<close>.\<close>

definition record_token_ix :: "token_instruction \<Rightarrow> tx_signals \<Rightarrow> tx_signals" where
  "record_token_ix t s =
     (case t of
        SetAuthority a _ \<Rightarrow> s\<lparr>authority_handoffs := authority_handoffs s @ [authority_debug a]\<rparr>
      | Approve _ \<Rightarrow> s\<lparr>delegations := delegations s + 1\<rparr>
      | ApproveChecked _ _ \<Rightarrow> s\<lparr>delegations := delegations s + 1\<rparr>
      | CloseAccount \<Rightarrow> s\<lparr>close_accounts := close_accounts s + 1\<rparr>
      | OtherTokenInstruction \<Rightarrow> s)"

definition analyze_program :: "lib \<Rightarrow> label_idx \<Rightarrow> string \<Rightarrow> bytes \<Rightarrow> tx_signals \<Rightarrow> tx_signals" where
  "analyze_program L deny program data s =
     (let s1 = s\<lparr>programs := push_new program (programs s)\<rparr>;
          s2 = s1\<lparr>deny_program_hits := deny_program_hits s1 @ hits_of program (li_lookup deny program)\<rparr>
      in if is_token_program program then
           (case token_unpack L data of
              Some t \<Rightarrow> record_token_ix t s2
            | None \<Rightarrow> s2)
         else if \<not> is_known_safe program \<and> program \<notin> set (unknown_programs s2) then
           s2\<lparr>unknown_programs := unknown_programs s2 @ [program]\<rparr>
         else s2)"

definition analyze_ix :: "lib \<Rightarrow> label_idx \<Rightarrow> pubkey list \<Rightarrow> tx_signals \<Rightarrow> instruction \<Rightarrow> tx_signals" where
  "analyze_ix L deny keys s ix =
     (case get_nth keys (unat (program_id_index ix)) of
        None \<Rightarrow> s\<lparr>uses_lookup_tables := True\<rparr>
      | Some k \<Rightarrow> analyze_program L deny (pk_str L k) (ix_data ix) s)"

definition init_signals :: "lib \<Rightarrow> vtx \<Rightarrow> string option \<Rightarrow> tx_signals" where
  "init_signals L tx owner_override =
     (let fp = map_option (pk_str L) (first_opt (static_keys tx))
      in \<lparr>fee_payer = fp,
          subject = or_else owner_override fp,
          instruction_count = length (instructions tx),
          programs = [],
          uses_lookup_tables = unwrap_or (map_option (\<lambda>l. l \<noteq> []) (lookups tx)) False,
          simulated = False, simulation_error = None,
          net_sol_change_lamports = None, net_token_changes = [],
          deny_program_hits = [], authority_handoffs = [],
          delegations = 0, close_accounts = 0, unknown_programs = []\<rparr>)"

definition analyze :: "lib \<Rightarrow> label_idx \<Rightarrow> vtx \<Rightarrow> string option \<Rightarrow> tx_signals" where
  "analyze L deny tx owner_override =
     foldl (analyze_ix L deny (static_keys tx)) (init_signals L tx owner_override) (instructions tx)"

section \<open>Simulation\<close>

record sim_outcome =
  so_simulated :: bool
  so_error :: "string option"
  so_net_sol :: "int option"
  so_net_tokens :: "token_change list"

definition sim_none :: sim_outcome where
  "sim_none = \<lparr>so_simulated = False, so_error = None, so_net_sol = None, so_net_tokens = []\<rparr>"

text \<open>\<^verbatim>\<open>u64::from_le_bytes\<close>.\<close>

definition from_le_bytes :: "bytes \<Rightarrow> u64" where
  "from_le_bytes bs = word_of_nat (foldr (\<lambda>b acc. unat b + 256 * acc) bs 0)"

definition parse_token_account :: "lib \<Rightarrow> ui_account_data \<Rightarrow> (string \<times> u64) option" where
  "parse_token_account L data =
     (case data of
        UiJson parsed \<Rightarrow>
          Option.bind (jget parsed ''info'') (\<lambda>info.
          Option.bind (get_str info ''mint'') (\<lambda>mint.
          Option.bind (jget info ''tokenAmount'') (\<lambda>ta.
          Option.bind (get_str ta ''amount'') (\<lambda>a.
          Option.bind (parse_unsigned (2 ^ 64) a) (\<lambda>n.
          Some (mint, word_of_nat n))))))
      | UiBinary s enc \<Rightarrow>
          (if enc = Base64 then
             Option.bind (ok (b64_std L s)) (\<lambda>bs.
               if length bs < 72 then None
               else Some (pk_str L (take 32 bs), from_le_bytes (take 8 (drop 64 bs))))
           else None)
      | UiLegacyBinary _ \<Rightarrow> None)"

text \<open>\<^verbatim>\<open>touched\<close> holds (account, mint, amount before); a \<open>None\<close> post amount is skipped.\<close>

definition token_delta :: "string \<times> string \<times> u64 \<Rightarrow> u64 option \<Rightarrow> token_change option" where
  "token_delta t post =
     (case t of (_, mint, pre) \<Rightarrow>
        Option.bind post (\<lambda>q.
          let delta = i64_sub q pre
          in if delta \<noteq> 0 then Some \<lparr>tc_mint = mint, tc_delta_raw = delta\<rparr> else None))"

definition compute_token_deltas ::
    "(string \<times> string \<times> u64) list \<Rightarrow> u64 option list \<Rightarrow> token_change list" where
  "compute_token_deltas touched posts =
     List.map_filter (\<lambda>(t, p). token_delta t p) (zip touched posts)"

definition touched_accounts ::
    "lib \<Rightarrow> string list \<Rightarrow> keyed_account list \<Rightarrow> (string \<times> string \<times> u64) list" where
  "touched_accounts L tx_keys accts =
     List.map_filter
       (\<lambda>ka. if ka_pubkey ka \<in> set tx_keys
             then map_option (\<lambda>(mint, amount). (ka_pubkey ka, mint, amount))
                    (parse_token_account L (ka_data ka))
             else None) accts"

definition post_amounts ::
    "lib \<Rightarrow> (string \<times> string \<times> u64) list \<Rightarrow> ui_account option list option \<Rightarrow> u64 option list" where
  "post_amounts L touched sim_accounts =
     map (\<lambda>i. Option.bind sim_accounts (\<lambda>a.
            map_option (\<lambda>slot.
              unwrap_or (map_option snd (Option.bind slot (\<lambda>ui. parse_token_account L (ua_data ui)))) 0)
            (get_nth a (i + 1)))) [0..<length touched]"

definition post_lamports :: "ui_account option list option \<Rightarrow> u64 option" where
  "post_lamports sim_accounts =
     Option.bind sim_accounts (\<lambda>a. Option.bind (first_opt a) (map_option ua_lamports))"

definition net_sol :: "u64 option \<Rightarrow> u64 option \<Rightarrow> int option" where
  "net_sol pre post =
     (case (pre, post) of (Some p, Some q) \<Rightarrow> Some (i64_sub q p) | _ \<Rightarrow> None)"

definition simulate ::
    "'e env_scheme \<Rightarrow> vtx \<Rightarrow> string option \<Rightarrow> 'a sys_scheme \<Rightarrow> sim_outcome \<times> 'a sys_scheme" where
  "simulate E tx subj s =
     (let L = e_lib E in
      case subj of
        None \<Rightarrow> (sim_none, s)
      | Some subject_s \<Rightarrow>
          (case ok (pk_parse L subject_s) of
             None \<Rightarrow> (sim_none, s)
           | Some subject_pk \<Rightarrow>
               (let tx_keys = map (pk_str L) (static_keys tx);
                    (accts, s1) = rpc_get_token_accounts E subject_pk s;
                    touched = touched_accounts L tx_keys (unwrap_or (ok accts) []);
                    (bal, s2) = rpc_get_balance E subject_pk s1;
                    pre_sol = ok bal;
                    addresses = subject_s # map fst touched;
                    (resp, s3) = rpc_simulate E tx addresses s2
                in (case resp of
                      Inl _ \<Rightarrow> (sim_none, s3)
                    | Inr r \<Rightarrow>
                        (\<lparr>so_simulated = True,
                          so_error = sr_err r,
                          so_net_sol = net_sol pre_sol (post_lamports (sr_accounts r)),
                          so_net_tokens =
                            compute_token_deltas touched (post_amounts L touched (sr_accounts r))\<rparr>,
                         s3)))))"

section \<open>Reference description of the static screen\<close>

text \<open>The instructions whose program id resolves to a static key, with the program's text.\<close>

definition resolve_ix :: "lib \<Rightarrow> pubkey list \<Rightarrow> instruction \<Rightarrow> (string \<times> bytes) option" where
  "resolve_ix L keys ix =
     map_option (\<lambda>k. (pk_str L k, ix_data ix)) (get_nth keys (unat (program_id_index ix)))"

definition resolved :: "lib \<Rightarrow> vtx \<Rightarrow> (string \<times> bytes) list" where
  "resolved L tx = List.map_filter (resolve_ix L (static_keys tx)) (instructions tx)"

definition token_ix_of :: "lib \<Rightarrow> string \<times> bytes \<Rightarrow> token_instruction option" where
  "token_ix_of L pd = (if is_token_program (fst pd) then token_unpack L (snd pd) else None)"

definition handoff_of :: "token_instruction \<Rightarrow> string option" where
  "handoff_of t = (case t of SetAuthority a _ \<Rightarrow> Some (authority_debug a) | _ \<Rightarrow> None)"

definition is_delegation :: "token_instruction \<Rightarrow> bool" where
  "is_delegation t = (case t of Approve _ \<Rightarrow> True | ApproveChecked _ _ \<Rightarrow> True | _ \<Rightarrow> False)"

definition is_opaque :: "string \<Rightarrow> bool" where
  "is_opaque p = (\<not> is_token_program p \<and> \<not> is_known_safe p)"

definition dedup :: "'a list \<Rightarrow> 'a list" where
  "dedup xs = foldl (\<lambda>acc x. push_new x acc) [] xs"

definition screen_spec :: "lib \<Rightarrow> label_idx \<Rightarrow> vtx \<Rightarrow> string option \<Rightarrow> tx_signals" where
  "screen_spec L deny tx owner_override =
     (let rs = resolved L tx; ts = List.map_filter (token_ix_of L) rs
      in (init_signals L tx owner_override)
           \<lparr>programs := dedup (map fst rs),
            uses_lookup_tables :=
              (unwrap_or (map_option (\<lambda>l. l \<noteq> []) (lookups tx)) False
               \<or> (\<exists>ix \<in> set (instructions tx). resolve_ix L (static_keys tx) ix = None)),
            deny_program_hits := concat (map (\<lambda>(p, _). hits_of p (li_lookup deny p)) rs),
            authority_handoffs := List.map_filter handoff_of ts,
            delegations := length (filter is_delegation ts),
            close_accounts := length (filter (\<lambda>t. t = CloseAccount) ts),
            unknown_programs := dedup (filter is_opaque (map fst rs))\<rparr>)"

lemma map_filter_simps [simp]:
  "List.map_filter f [] = []"
  "List.map_filter f (x # xs) = (case f x of None \<Rightarrow> List.map_filter f xs | Some y \<Rightarrow> y # List.map_filter f xs)"
  by (simp_all add: List.map_filter_def split: option.splits)

lemma token_program_safe: "is_token_program p \<Longrightarrow> is_known_safe p"
  by (auto simp: is_token_program_def is_known_safe_def)

lemma set_foldl_push_new [simp]:
  "set (foldl (\<lambda>acc x. push_new x acc) acc xs) = set acc \<union> set xs"
  by (induction xs arbitrary: acc) auto

lemma set_dedup [simp]: "set (dedup xs) = set xs"
  by (simp add: dedup_def)

lemma distinct_dedup [simp]: "distinct (dedup xs)"
proof -
  have "distinct acc \<Longrightarrow> distinct (foldl (\<lambda>acc x. push_new x acc) acc xs)" for acc
    by (induction xs arbitrary: acc) (auto intro: distinct_push_new)
  then show ?thesis by (simp add: dedup_def)
qed

text \<open>One instruction, then the whole loop from any accumulated signals.\<close>

lemma analyze_ix_unresolved:
  "resolve_ix L keys ix = None \<Longrightarrow> analyze_ix L deny keys s ix = s\<lparr>uses_lookup_tables := True\<rparr>"
  by (simp add: resolve_ix_def analyze_ix_def)

lemma analyze_ix_resolved:
  assumes "resolve_ix L keys ix = Some (p, d)"
  shows "analyze_ix L deny keys s ix =
    s\<lparr>programs := push_new p (programs s),
      deny_program_hits := deny_program_hits s @ hits_of p (li_lookup deny p),
      authority_handoffs := authority_handoffs s
        @ (case Option.bind (token_ix_of L (p, d)) handoff_of of None \<Rightarrow> [] | Some a \<Rightarrow> [a]),
      delegations := delegations s
        + (case token_ix_of L (p, d) of Some t \<Rightarrow> if is_delegation t then 1 else 0 | None \<Rightarrow> 0),
      close_accounts := close_accounts s + (if token_ix_of L (p, d) = Some CloseAccount then 1 else 0),
      unknown_programs := (if is_opaque p then push_new p (unknown_programs s) else unknown_programs s)\<rparr>"
proof -
  from assms obtain k where k: "get_nth keys (unat (program_id_index ix)) = Some k" "p = pk_str L k"
      "d = ix_data ix"
    by (auto simp: resolve_ix_def)
  note defs = analyze_ix_def k analyze_program_def Let_def token_ix_of_def
    record_token_ix_def handoff_of_def is_delegation_def is_opaque_def
  show ?thesis
  proof (cases "is_token_program (pk_str L k)")
    case True
    show ?thesis
    proof (cases "token_unpack L (ix_data ix)")
      case None
      then show ?thesis using True by (simp add: defs)
    next
      case (Some t)
      then show ?thesis using True by (cases t) (simp_all add: defs)
    qed
  next
    case False
    then show ?thesis by (simp add: defs push_new_def)
  qed
qed

lemma analyze_loop:
  "foldl (analyze_ix L deny keys) s ixs =
    (let rs = List.map_filter (resolve_ix L keys) ixs; ts = List.map_filter (token_ix_of L) rs
     in s\<lparr>programs := foldl (\<lambda>acc x. push_new x acc) (programs s) (map fst rs),
          uses_lookup_tables := (uses_lookup_tables s \<or> (\<exists>ix \<in> set ixs. resolve_ix L keys ix = None)),
          deny_program_hits :=
            deny_program_hits s @ concat (map (\<lambda>(p, _). hits_of p (li_lookup deny p)) rs),
          authority_handoffs := authority_handoffs s @ List.map_filter handoff_of ts,
          delegations := delegations s + length (filter is_delegation ts),
          close_accounts := close_accounts s + length (filter (\<lambda>t. t = CloseAccount) ts),
          unknown_programs :=
            foldl (\<lambda>acc x. push_new x acc) (unknown_programs s) (filter is_opaque (map fst rs))\<rparr>)"
proof (induction ixs arbitrary: s)
  case Nil
  then show ?case by simp
next
  case (Cons ix ixs)
  show ?case
  proof (cases "resolve_ix L keys ix")
    case None
    then show ?thesis
      by (simp add: Cons.IH analyze_ix_unresolved Let_def)
  next
    case (Some pd)
    obtain p d where pd: "pd = (p, d)" by force
    with Some show ?thesis
      by (cases "token_ix_of L (p, d)")
        (auto simp: Cons.IH analyze_ix_resolved Let_def split: option.splits)
  qed
qed

lemma analyze_refines: "analyze L deny tx owner = screen_spec L deny tx owner"
  by (simp add: analyze_def analyze_loop screen_spec_def resolved_def dedup_def init_signals_def Let_def)

lemma deny_hit_iff:
  "deny_program_hits (screen_spec L deny tx owner) = [] \<longleftrightarrow>
     (\<forall>(p, _) \<in> set (resolved L tx). li_lookup deny p = [])"
  by (auto simp: screen_spec_def Let_def hits_of_def)

lemma map_filter_Nil_iff: "List.map_filter f xs = [] \<longleftrightarrow> (\<forall>x \<in> set xs. f x = None)"
  by (induction xs) (auto split: option.splits)

lemma set_map_filter': "set (List.map_filter f xs) = {y. \<exists>x \<in> set xs. f x = Some y}"
  by (induction xs) (auto split: option.splits)

section \<open>Simulation: what is disclosed was measured\<close>

lemma token_delta_measured:
  "token_delta (a, m, pre) post = Some c \<longleftrightarrow>
     (\<exists>q. post = Some q \<and> i64_sub q pre \<noteq> 0 \<and> c = \<lparr>tc_mint = m, tc_delta_raw = i64_sub q pre\<rparr>)"
  by (auto simp: token_delta_def Let_def split: option.splits Option.bind_splits if_splits)

lemma compute_token_deltas_iff:
  "c \<in> set (compute_token_deltas touched posts) \<longleftrightarrow>
     (\<exists>i a m pre q. i < length touched \<and> i < length posts \<and> touched ! i = (a, m, pre)
        \<and> posts ! i = Some q \<and> i64_sub q pre \<noteq> 0
        \<and> c = \<lparr>tc_mint = m, tc_delta_raw = i64_sub q pre\<rparr>)" (is "?L = ?R")
proof -
  have "?L \<longleftrightarrow> (\<exists>x \<in> set (zip touched posts). token_delta (fst x) (snd x) = Some c)"
    by (simp add: compute_token_deltas_def set_map_filter' case_prod_unfold)
  also have "\<dots> \<longleftrightarrow> (\<exists>i < min (length touched) (length posts).
      token_delta (touched ! i) (posts ! i) = Some c)"
    unfolding set_zip by (simp only: Bex_def mem_Collect_eq) (metis fst_conv snd_conv)
  also have "\<dots> \<longleftrightarrow> ?R"
  proof
    assume "\<exists>i < min (length touched) (length posts). token_delta (touched ! i) (posts ! i) = Some c"
    then obtain i where i: "i < length touched" "i < length posts"
      "token_delta (touched ! i) (posts ! i) = Some c" by auto
    obtain a m pre where "touched ! i = (a, m, pre)" by (metis prod_cases3)
    with i show ?R by (auto simp: token_delta_measured)
  qed (auto simp: token_delta_measured)
  finally show ?thesis .
qed

lemma post_amounts_unmeasured: "post_amounts L touched None = replicate (length touched) None"
  by (simp add: post_amounts_def map_replicate_const)

lemma no_deltas_unmeasured: "compute_token_deltas touched (replicate n None) = []"
  by (auto simp: compute_token_deltas_def map_filter_Nil_iff token_delta_def in_set_zip
      split: prod.splits)

lemma simulate_grows [frame_rules]: "grows is_rpc s (snd (simulate E tx subj s))"
proof -
  have "grows is_rpc s (snd (rpc_get_token_accounts E pk s))"
    "grows is_rpc s (snd (rpc_get_balance E pk s))"
    "grows is_rpc s (snd (rpc_simulate E tx as s))" for pk as and s :: "'a sys_scheme"
    unfolding rpc_ops by (rule perform_grows, simp)+
  then show ?thesis
    by (auto simp: simulate_def Let_def split: option.splits sum.splits prod.splits)
      (metis grows_trans snd_conv)+
qed

text \<open>The 64-bit cast at its limit: draining an account of the full \<^verbatim>\<open>u64\<close> amount shows as a gain.\<close>

lemma token_drain_wraps:
  "compute_token_deltas [(a, m, - 1)] [Some 0] = [\<lparr>tc_mint = m, tc_delta_raw = 1\<rparr>]"
  by (simp add: compute_token_deltas_def token_delta_def i64_sub_def)

end
