(* ===== verification/Bands.thy ===== *)
theory Bands
  imports Floats
begin

text \<open>
  What the three scorers share: adding an \<^verbatim>\<open>i32\<close> penalty together with its flag, the clamp to
  0..100 and the band of a final score. The locale \<open>risk_scorer\<close> states the contract of a
  scorer (its score is the clamped raw sum, its band is the band of its score); the wallet,
  token and transaction scorers are its interpretations.
\<close>

definition add_i32 :: "int \<Rightarrow> int \<Rightarrow> int" where
  "add_i32 a b = wrap_i32 (a + b)"

lemma add_i32_id: "\<lbrakk>- (2 ^ 31) \<le> a + b; a + b < 2 ^ 31\<rbrakk> \<Longrightarrow> add_i32 a b = a + b"
  by (simp add: add_i32_def wrap_i32_id)

text \<open>\<^verbatim>\<open>if c { score += n; flags.push(f); }\<close>.\<close>

type_synonym tally = "int \<times> string list"

definition bump :: "bool \<Rightarrow> int \<Rightarrow> string \<Rightarrow> tally \<Rightarrow> tally" where
  "bump c n f t = (if c then (add_i32 (fst t) n, snd t @ [f]) else t)"

definition of_bool_i :: "bool \<Rightarrow> int \<Rightarrow> int" where
  "of_bool_i b n = (if b then n else 0)"

definition flag_if :: "bool \<Rightarrow> string \<Rightarrow> string list" where
  "flag_if c f = (if c then [f] else [])"

lemma snd_bump: "snd (bump c n f t) = snd t @ flag_if c f"
  by (simp add: bump_def flag_if_def)

text \<open>A run of conditional penalties of at most 60 points: while the sum stays small the
  32-bit score is the exact sum, and the flags are those of the conditions that hold.\<close>

definition bumps :: "(bool \<times> int \<times> string) list \<Rightarrow> tally \<Rightarrow> tally" where
  "bumps cs t = foldl (\<lambda>t (c, n, f). bump c n f t) t cs"

lemma bumps_simps [simp]:
  "bumps [] t = t" "bumps ((c, n, f) # cs) t = bumps cs (bump c n f t)"
  by (simp_all add: bumps_def)

lemma bump_exact:
  "\<lbrakk>0 \<le> fst t; fst t + 60 < 2 ^ 31; 0 \<le> n; n \<le> 60\<rbrakk>
   \<Longrightarrow> fst (bump c n f t) = fst t + of_bool_i c n"
  by (simp add: bump_def add_i32_id of_bool_i_def)

lemma bumps_score:
  assumes "0 \<le> fst t" "fst t + 60 * int (length cs) < 2 ^ 31"
    and "\<And>c n f. (c, n, f) \<in> set cs \<Longrightarrow> 0 \<le> n \<and> n \<le> 60"
  shows "fst (bumps cs t) = fst t + sum_list (map (\<lambda>(c, n, f). of_bool_i c n) cs)"
  using assms
proof (induction cs arbitrary: t)
  case (Cons x cs)
  obtain c n f where x: "x = (c, n, f)" by (metis prod_cases3)
  from Cons.prems x have n: "0 \<le> n" "n \<le> 60" by auto
  with Cons.prems x have e: "fst (bump c n f t) = fst t + of_bool_i c n"
    by (intro bump_exact) auto
  moreover have "0 \<le> of_bool_i c n \<and> of_bool_i c n \<le> 60" using n by (simp add: of_bool_i_def)
  moreover have "fst (bumps cs (bump c n f t)) = fst (bump c n f t)
      + sum_list (map (\<lambda>(c, n, f). of_bool_i c n) cs)"
    using calculation Cons.prems by (intro Cons.IH) auto
  ultimately show ?case by (simp add: x)
qed simp

lemma bumps_flags: "snd (bumps cs t) = snd t @ concat (map (\<lambda>(c, n, f). flag_if c f) cs)"
proof (induction cs arbitrary: t)
  case (Cons x cs)
  then show ?case by (cases x) (simp add: snd_bump)
qed simp

lemma bump_fold_score:
  assumes "0 \<le> fst t" "fst t + 60 * int (length xs) < 2 ^ 31"
  shows "fst (foldl (\<lambda>t x. bump True 60 (f x) t) t xs) = fst t + 60 * int (length xs)"
  using assms
proof (induction xs arbitrary: t)
  case (Cons x xs)
  then have "fst (bump True 60 (f x) t) = fst t + 60"
    by (simp add: bump_def add_i32_id)
  with Cons show ?case by simp
qed simp

lemma bump_fold_flags: "snd (foldl (\<lambda>t x. bump True n (f x) t) t xs) = snd t @ map f xs"
  by (induction xs arbitrary: t) (simp_all add: snd_bump flag_if_def)

definition final_score :: "int \<Rightarrow> int" where
  "final_score raw = clamp 0 100 raw"

definition risk_band :: "int \<Rightarrow> string" where
  "risk_band s =
     (if s \<le> 24 then ''LOW'' else if s \<le> 49 then ''MEDIUM''
      else if s \<le> 74 then ''HIGH'' else ''CRITICAL'')"

text \<open>The order of the bands.\<close>

definition band_rank :: "string \<Rightarrow> nat" where
  "band_rank b = (if b = ''LOW'' then 0 else if b = ''MEDIUM'' then 1 else if b = ''HIGH'' then 2 else 3)"

lemma band_rank_mono: "s \<le> t \<Longrightarrow> band_rank (risk_band s) \<le> band_rank (risk_band t)"
  by (simp add: risk_band_def band_rank_def)

lemma risk_band_iffs:
  "risk_band s = ''LOW'' \<longleftrightarrow> s \<le> 24"
  "risk_band s = ''MEDIUM'' \<longleftrightarrow> 25 \<le> s \<and> s \<le> 49"
  "risk_band s = ''HIGH'' \<longleftrightarrow> 50 \<le> s \<and> s \<le> 74"
  "risk_band s = ''CRITICAL'' \<longleftrightarrow> 75 \<le> s"
  by (auto simp: risk_band_def)

lemma risk_band_cases: "risk_band s \<in> {''LOW'', ''MEDIUM'', ''HIGH'', ''CRITICAL''}"
  by (simp add: risk_band_def)

locale risk_scorer =
  fixes raw :: "'s \<Rightarrow> int"
    and score :: "'s \<Rightarrow> int"
    and band :: "'s \<Rightarrow> string"
  assumes score_raw: "score s = final_score (raw s)"
    and band_score: "band s = risk_band (score s)"
begin

lemma score_range: "0 \<le> score s \<and> score s \<le> 100"
  using clamp_bounds [of 0 100] by (simp add: score_raw final_score_def)

lemma score_mono: "raw s \<le> raw t \<Longrightarrow> score s \<le> score t"
  by (simp add: score_raw final_score_def clamp_mono)

lemma band_mono: "raw s \<le> raw t \<Longrightarrow> band_rank (band s) \<le> band_rank (band t)"
  by (simp add: band_score band_rank_mono score_mono)

lemma band_raw:
  "band s = ''LOW'' \<longleftrightarrow> raw s \<le> 24"
  "band s = ''MEDIUM'' \<longleftrightarrow> 25 \<le> raw s \<and> raw s \<le> 49"
  "band s = ''HIGH'' \<longleftrightarrow> 50 \<le> raw s \<and> raw s \<le> 74"
  "band s = ''CRITICAL'' \<longleftrightarrow> 75 \<le> raw s"
  by (auto simp: band_score score_raw final_score_def clamp_def risk_band_iffs)

lemma score_exact: "\<lbrakk>0 \<le> raw s; raw s \<le> 100\<rbrakk> \<Longrightarrow> score s = raw s"
  by (simp add: score_raw final_score_def clamp_id)

end

end
