(* ===== verification/Scoring_Tx.thy ===== *)
theory Scoring_Tx
  imports Tx Bands
begin

text \<open>
  \<^verbatim>\<open>src/scoring_tx.rs\<close>: the SIGN / REVIEW / BLOCK verdict and the score of a transaction from
  its signals.
\<close>

definition TX_SCORING_VERSION :: string where
  "TX_SCORING_VERSION = ''2.1.0''"

record tx_risk_result =
  tr_risk_score :: int
  tr_risk_band :: string
  tr_risk_domain :: string
  tr_recommendation :: string
  tr_signals :: tx_signals
  tr_flags :: "string list"
  tr_confidence :: fl
  tr_signal_quality :: string
  tr_scoring_version :: string

definition outflow_via_unknown :: "tx_signals \<Rightarrow> bool" where
  "outflow_via_unknown s =
     (unwrap_or (map_option (\<lambda>n. n < - OUTFLOW_LAMPORTS_THRESHOLD) (net_sol_change_lamports s)) False
      \<and> unknown_programs s \<noteq> [])"

definition token_outflow_via_unknown :: "tx_signals \<Rightarrow> bool" where
  "token_outflow_via_unknown s =
     ((\<exists>c \<in> set (net_token_changes s). tc_delta_raw c < 0) \<and> unknown_programs s \<noteq> [])"

text \<open>The additive part of \<^verbatim>\<open>score_tx\<close>: score and flags, in the order of the code.\<close>

definition tx_tally :: "tx_signals \<Rightarrow> tally" where
  "tx_tally s =
     (let t0 = (0, []);
          t1 = foldl (\<lambda>t h. bump True 60 (''DENY_PROGRAM:'' @ to_upper (lh_label h)) t) t0 (deny_program_hits s);
          t2 = foldl (\<lambda>t a. bump True 60 (''AUTHORITY_HANDOFF:'' @ a) t) t1 (authority_handoffs s);
          t3 = bump (delegations s > 0) 30 (''TOKEN_DELEGATION:'' @ show_nat (delegations s)) t2;
          t4 = bump (close_accounts s > 0) 20 (''CLOSE_ACCOUNT:'' @ show_nat (close_accounts s)) t3;
          t5 = bump (uses_lookup_tables s) 15 ''USES_LOOKUP_TABLES'' t4;
          t6 = bump (unknown_programs s \<noteq> []) 15
                 (''UNKNOWN_PROGRAMS:'' @ show_nat (length (unknown_programs s))) t5;
          t7 = bump (simulation_error s \<noteq> None) 10 ''WOULD_FAIL'' t6;
          t8 = bump (outflow_via_unknown s) 25
                 (''OUTFLOW_VIA_UNKNOWN_PROGRAM:''
                   @ show_int (- unwrap_or (net_sol_change_lamports s) 0)) t7
      in bump (token_outflow_via_unknown s) 25 ''TOKEN_OUTFLOW_VIA_UNKNOWN_PROGRAM'' t8)"

definition has_block :: "tx_signals \<Rightarrow> bool" where
  "has_block s = (deny_program_hits s \<noteq> [] \<or> authority_handoffs s \<noteq> [])"

definition has_review :: "tx_signals \<Rightarrow> bool" where
  "has_review s =
     (delegations s > 0 \<or> close_accounts s > 0 \<or> uses_lookup_tables s
      \<or> unknown_programs s \<noteq> [] \<or> simulation_error s \<noteq> None
      \<or> outflow_via_unknown s \<or> token_outflow_via_unknown s)"

definition tx_recommendation :: "tx_signals \<Rightarrow> string" where
  "tx_recommendation s =
     (if has_block s then ''BLOCK'' else if has_review s then ''REVIEW'' else ''SIGN'')"

definition tx_signal_quality :: "tx_signals \<Rightarrow> string" where
  "tx_signal_quality s =
     (if instruction_count s = 0 then ''low''
      else if uses_lookup_tables s then ''medium'' else ''high'')"

definition tx_confidence :: "string \<Rightarrow> fl" where
  "tx_confidence q =
     (if q = ''high'' then fround F32 (85 / 100)
      else if q = ''medium'' then fround F32 (60 / 100) else fround F32 (40 / 100))"

definition score_tx :: "tx_signals \<Rightarrow> tx_risk_result" where
  "score_tx s =
     (let (raw, flags) = tx_tally s;
          fs = final_score raw;
          quality = tx_signal_quality s
      in \<lparr>tr_risk_score = fs,
          tr_risk_band = risk_band fs,
          tr_risk_domain = ''transaction'',
          tr_recommendation = tx_recommendation s,
          tr_signals = s,
          tr_flags = flags,
          tr_confidence = tx_confidence quality,
          tr_signal_quality = quality,
          tr_scoring_version = TX_SCORING_VERSION\<rparr>)"

interpretation txs: risk_scorer "\<lambda>s. fst (tx_tally s)"
  "\<lambda>s. tr_risk_score (score_tx s)" "\<lambda>s. tr_risk_band (score_tx s)"
  by unfold_locales (simp_all add: score_tx_def case_prod_unfold Let_def)

section \<open>The raw sum without wrap-around\<close>

definition tx_raw_sum :: "tx_signals \<Rightarrow> int" where
  "tx_raw_sum s =
     60 * int (length (deny_program_hits s)) + 60 * int (length (authority_handoffs s))
     + of_bool_i (delegations s > 0) 30 + of_bool_i (close_accounts s > 0) 20
     + of_bool_i (uses_lookup_tables s) 15 + of_bool_i (unknown_programs s \<noteq> []) 15
     + of_bool_i (simulation_error s \<noteq> None) 10 + of_bool_i (outflow_via_unknown s) 25
     + of_bool_i (token_outflow_via_unknown s) 25"

text \<open>The penalties after the BLOCK tier, as one list.\<close>

definition tx_review_bumps :: "tx_signals \<Rightarrow> (bool \<times> int \<times> string) list" where
  "tx_review_bumps s =
     [(delegations s > 0, 30, ''TOKEN_DELEGATION:'' @ show_nat (delegations s)),
      (close_accounts s > 0, 20, ''CLOSE_ACCOUNT:'' @ show_nat (close_accounts s)),
      (uses_lookup_tables s, 15, ''USES_LOOKUP_TABLES''),
      (unknown_programs s \<noteq> [], 15, ''UNKNOWN_PROGRAMS:'' @ show_nat (length (unknown_programs s))),
      (simulation_error s \<noteq> None, 10, ''WOULD_FAIL''),
      (outflow_via_unknown s, 25,
        ''OUTFLOW_VIA_UNKNOWN_PROGRAM:'' @ show_int (- unwrap_or (net_sol_change_lamports s) 0)),
      (token_outflow_via_unknown s, 25, ''TOKEN_OUTFLOW_VIA_UNKNOWN_PROGRAM'')]"

definition tx_block_tally :: "tx_signals \<Rightarrow> tally" where
  "tx_block_tally s =
     foldl (\<lambda>t a. bump True 60 (''AUTHORITY_HANDOFF:'' @ a) t)
       (foldl (\<lambda>t h. bump True 60 (''DENY_PROGRAM:'' @ to_upper (lh_label h)) t) (0, [])
         (deny_program_hits s))
       (authority_handoffs s)"

lemma tx_tally_bumps: "tx_tally s = bumps (tx_review_bumps s) (tx_block_tally s)"
  by (simp only: tx_tally_def Let_def tx_review_bumps_def tx_block_tally_def bumps_simps)

lemma length_tx_review_bumps: "length (tx_review_bumps s) = 7"
  by (simp add: tx_review_bumps_def)

lemma tx_review_bumps_small: "(c, n, f) \<in> set (tx_review_bumps s) \<Longrightarrow> 0 \<le> n \<and> n \<le> 60"
  unfolding tx_review_bumps_def set_simps insert_iff prod.inject empty_iff by (elim disjE) simp_all

text \<open>Up to ten million findings the 32-bit sum is the exact sum of the penalties.\<close>

lemma tx_tally_exact:
  assumes "length (deny_program_hits s) + length (authority_handoffs s) \<le> 10000000"
  shows "fst (tx_tally s) = tx_raw_sum s"
proof -
  let ?d = "int (length (deny_program_hits s))" and ?a = "int (length (authority_handoffs s))"
  have len: "?d + ?a \<le> 10000000" using assms by linarith
  have b: "fst (tx_block_tally s) = 60 * ?d + 60 * ?a"
    unfolding tx_block_tally_def using len by (simp add: bump_fold_score)
  then have "fst (tx_tally s) = fst (tx_block_tally s)
      + sum_list (map (\<lambda>(c, n, f). of_bool_i c n) (tx_review_bumps s))"
    unfolding tx_tally_bumps using len
    by (intro bumps_score tx_review_bumps_small) (simp_all add: length_tx_review_bumps)
  then show ?thesis by (simp add: b tx_raw_sum_def tx_review_bumps_def)
qed

section \<open>Verdict facts\<close>

lemma tx_recommendation_iffs:
  "tx_recommendation s = ''BLOCK'' \<longleftrightarrow> has_block s"
  "tx_recommendation s = ''REVIEW'' \<longleftrightarrow> \<not> has_block s \<and> has_review s"
  "tx_recommendation s = ''SIGN'' \<longleftrightarrow> \<not> has_block s \<and> \<not> has_review s"
  by (auto simp: tx_recommendation_def)

lemma score_tx_simps [simp]:
  "tr_recommendation (score_tx s) = tx_recommendation s"
  "tr_signals (score_tx s) = s"
  "tr_flags (score_tx s) = snd (tx_tally s)"
  "tr_signal_quality (score_tx s) = tx_signal_quality s"
  by (simp_all add: score_tx_def case_prod_unfold Let_def)

text \<open>The flags of the tally are exactly the findings' flags, in order.\<close>

lemma tx_flags:
  "tr_flags (score_tx s) =
     map (\<lambda>h. ''DENY_PROGRAM:'' @ to_upper (lh_label h)) (deny_program_hits s)
     @ map (\<lambda>a. ''AUTHORITY_HANDOFF:'' @ a) (authority_handoffs s)
     @ flag_if (delegations s > 0) (''TOKEN_DELEGATION:'' @ show_nat (delegations s))
     @ flag_if (close_accounts s > 0) (''CLOSE_ACCOUNT:'' @ show_nat (close_accounts s))
     @ flag_if (uses_lookup_tables s) ''USES_LOOKUP_TABLES''
     @ flag_if (unknown_programs s \<noteq> []) (''UNKNOWN_PROGRAMS:'' @ show_nat (length (unknown_programs s)))
     @ flag_if (simulation_error s \<noteq> None) ''WOULD_FAIL''
     @ flag_if (outflow_via_unknown s)
         (''OUTFLOW_VIA_UNKNOWN_PROGRAM:'' @ show_int (- unwrap_or (net_sol_change_lamports s) 0))
     @ flag_if (token_outflow_via_unknown s) ''TOKEN_OUTFLOW_VIA_UNKNOWN_PROGRAM''"
  by (simp only: score_tx_simps tx_tally_bumps bumps_flags tx_block_tally_def bump_fold_flags
      tx_review_bumps_def list.map prod.case concat.simps append_assoc append_Nil append_Nil2 snd_conv)

lemma tx_flags_empty_iff: "tr_flags (score_tx s) = [] \<longleftrightarrow> tx_recommendation s = ''SIGN''"
  by (auto simp only: tx_flags tx_recommendation_iffs has_block_def has_review_def)
    (auto simp: flag_if_def)

section \<open>Screening one transaction\<close>

text \<open>The part of the \<^verbatim>\<open>tx-risk\<close> handler between decoding and the response: the static screen,
  the best-effort simulation, and the verdict on both.\<close>

definition merge_sim :: "sim_outcome \<Rightarrow> tx_signals \<Rightarrow> tx_signals" where
  "merge_sim sim sg =
     sg\<lparr>simulated := so_simulated sim,
        simulation_error := so_error sim,
        net_sol_change_lamports := so_net_sol sim,
        net_token_changes := so_net_tokens sim\<rparr>"

definition screen_tx ::
    "'e env_scheme \<Rightarrow> label_idx \<Rightarrow> vtx \<Rightarrow> string option \<Rightarrow> 'a sys_scheme \<Rightarrow> tx_risk_result \<times> 'a sys_scheme" where
  "screen_tx E deny tx owner_override s =
     (let sg = analyze (e_lib E) deny tx owner_override;
          (sim, s1) = simulate E tx (subject sg) s
      in (score_tx (merge_sim sim sg), s1))"

lemma merge_sim_static [simp]:
  "deny_program_hits (merge_sim sim sg) = deny_program_hits sg"
  "authority_handoffs (merge_sim sim sg) = authority_handoffs sg"
  "delegations (merge_sim sim sg) = delegations sg"
  "close_accounts (merge_sim sim sg) = close_accounts sg"
  "uses_lookup_tables (merge_sim sim sg) = uses_lookup_tables sg"
  "unknown_programs (merge_sim sim sg) = unknown_programs sg"
  "instruction_count (merge_sim sim sg) = instruction_count sg"
  "simulation_error (merge_sim sim sg) = so_error sim"
  "net_sol_change_lamports (merge_sim sim sg) = so_net_sol sim"
  "net_token_changes (merge_sim sim sg) = so_net_tokens sim"
  by (simp_all add: merge_sim_def)

lemma screen_tx_grows: "grows is_rpc s (snd (screen_tx E deny tx owner s))"
  using simulate_grows [of s E tx] by (simp add: screen_tx_def Let_def case_prod_unfold)

lemma screen_tx_result:
  "\<exists>sim. fst (screen_tx E deny tx owner s) = score_tx (merge_sim sim (screen_spec (e_lib E) deny tx owner))
     \<and> sim = fst (simulate E tx (subject (analyze (e_lib E) deny tx owner)) s)"
  by (simp add: screen_tx_def Let_def case_prod_unfold analyze_refines)

lemma tx_recommendation_screen:
  "tr_recommendation (fst (screen_tx E deny tx owner s)) =
     tx_recommendation (merge_sim (fst (simulate E tx (subject (analyze (e_lib E) deny tx owner)) s))
       (screen_spec (e_lib E) deny tx owner))"
  by (simp add: screen_tx_def Let_def case_prod_unfold analyze_refines)

text \<open>The findings of the static screen, read off the resolved instructions.\<close>

lemma screen_handoffs_iff:
  "authority_handoffs (screen_spec L deny tx owner) = [] \<longleftrightarrow>
     (\<forall>pd \<in> set (resolved L tx). \<forall>a o'. token_ix_of L pd \<noteq> Some (SetAuthority a o'))"
  by (auto simp: screen_spec_def Let_def map_filter_Nil_iff set_map_filter' handoff_of_def
      split: token_instruction.splits)

lemma screen_delegations_iff:
  "delegations (screen_spec L deny tx owner) = 0 \<longleftrightarrow>
     (\<forall>pd \<in> set (resolved L tx). \<forall>t. token_ix_of L pd = Some t \<longrightarrow> \<not> is_delegation t)"
  by (auto simp: screen_spec_def Let_def filter_empty_conv set_map_filter')

lemma screen_closes_iff:
  "close_accounts (screen_spec L deny tx owner) = 0 \<longleftrightarrow>
     (\<forall>pd \<in> set (resolved L tx). token_ix_of L pd \<noteq> Some CloseAccount)"
  by (auto simp: screen_spec_def Let_def filter_empty_conv set_map_filter')

lemma screen_unknown_iff:
  "unknown_programs (screen_spec L deny tx owner) = [] \<longleftrightarrow>
     (\<forall>pd \<in> set (resolved L tx). \<not> is_opaque (fst pd))"
proof -
  have "unknown_programs (screen_spec L deny tx owner) = []
      \<longleftrightarrow> set (unknown_programs (screen_spec L deny tx owner)) = {}" by simp
  then show ?thesis by (auto simp: screen_spec_def Let_def)
qed

lemma screen_lookup_iff:
  "uses_lookup_tables (screen_spec L deny tx owner) \<longleftrightarrow>
     (\<exists>l. lookups tx = Some l \<and> l \<noteq> [])
     \<or> (\<exists>ix \<in> set (instructions tx). length (static_keys tx) \<le> unat (program_id_index ix))"
  by (cases "lookups tx") (auto simp: screen_spec_def Let_def resolve_ix_def get_nth_None_iff)

text \<open>Without an opaque program no outflow is escalated.\<close>

lemma outflow_needs_opaque:
  "unknown_programs s = [] \<Longrightarrow> \<not> outflow_via_unknown s \<and> \<not> token_outflow_via_unknown s"
  by (simp add: outflow_via_unknown_def token_outflow_via_unknown_def)

end
