(* ===== verification/Funding.thy ===== *)
theory Funding
  imports Tx
begin

text \<open>
  \<^verbatim>\<open>src/signals/funding.rs\<close>: the multi-hop funder trace. The walk over funders and the
  pagination of one address are bounded loops over RPC calls; the funder of a genesis
  transaction is computed from its balances.
\<close>

section \<open>Data and limits\<close>

record funding_hop =
  fh_address :: string
  fh_hop :: nat
  fh_labels :: "tx_label_hit list"

record funding_trace =
  ft_funder :: "string option"
  ft_funder_labels :: "tx_label_hit list"
  ft_funding_chain :: "funding_hop list"
  ft_classification :: string
  ft_reached_genesis :: bool

definition trace_partial :: funding_trace where
  "trace_partial = \<lparr>ft_funder = None, ft_funder_labels = [], ft_funding_chain = [],
     ft_classification = ''partial_history'', ft_reached_genesis = False\<rparr>"

definition trace_simple :: "string \<Rightarrow> bool \<Rightarrow> funding_trace" where
  "trace_simple classification reached = \<lparr>ft_funder = None, ft_funder_labels = [],
     ft_funding_chain = [], ft_classification = classification, ft_reached_genesis = reached\<rparr>"

definition env_nat :: "(string \<Rightarrow> string option) \<Rightarrow> nat \<Rightarrow> string \<Rightarrow> nat \<Rightarrow> nat" where
  "env_nat getenv bound key dflt =
     unwrap_or (Option.bind (getenv key) (parse_unsigned bound)) dflt"

definition max_funder_hops :: "(string \<Rightarrow> string option) \<Rightarrow> nat" where
  "max_funder_hops getenv = max 1 (env_nat getenv (2 ^ 32) ''SOLRISK_MAX_FUNDER_HOPS'' 3)"

definition funder_hop_pages :: "(string \<Rightarrow> string option) \<Rightarrow> nat" where
  "funder_hop_pages getenv = max 1 (env_nat getenv (2 ^ 32) ''SOLRISK_FUNDER_HOP_PAGES'' 3)"

definition deny_labels_for :: "label_idx \<Rightarrow> string \<Rightarrow> tx_label_hit list" where
  "deny_labels_for deny address = hits_of address (li_lookup deny address)"

section \<open>The funder of a genesis transaction\<close>

definition sat_sub :: "u64 \<Rightarrow> u64 \<Rightarrow> u64" where
  "sat_sub a b = (if b \<le> a then a - b else 0)"

definition best_step ::
    "nat \<Rightarrow> u64 list \<Rightarrow> u64 list \<Rightarrow> (nat \<times> u64) option \<Rightarrow> nat \<Rightarrow> (nat \<times> u64) option" where
  "best_step wallet_idx pre post best i =
     (if i = wallet_idx then best
      else let decrease = sat_sub (pre ! i) (post ! i)
           in if decrease > 0 \<and> unwrap_or (map_option (\<lambda>(_, d). decrease > d) best) True
              then Some (i, decrease) else best)"

definition extract_funder :: "lib \<Rightarrow> enc_tx \<Rightarrow> pubkey \<Rightarrow> string option" where
  "extract_funder L encoded wallet =
     (case et_meta encoded of
        None \<Rightarrow> None
      | Some (pre, post) \<Rightarrow>
          (case et_transaction encoded of
             EncOther \<Rightarrow> None
           | EncBinary b64 \<Rightarrow>
               (case ok (decode_tx L b64) of
                  None \<Rightarrow> None
                | Some tx \<Rightarrow>
                    (let keys = static_keys tx
                     in if length pre \<noteq> length keys \<or> length post \<noteq> length keys then None
                        else case position wallet keys of
                               None \<Rightarrow> None
                             | Some wallet_idx \<Rightarrow>
                                 if post ! wallet_idx \<le> pre ! wallet_idx then None
                                 else map_option (\<lambda>(i, _). pk_str L (keys ! i))
                                        (foldl (best_step wallet_idx pre post) None [0..<length keys])))))"

definition fetch_funder_from_sig ::
    "'e env_scheme \<Rightarrow> string \<Rightarrow> pubkey \<Rightarrow> 'a sys_scheme \<Rightarrow> string option \<times> 'a sys_scheme" where
  "fetch_funder_from_sig E sig_str address s =
     (case sig_parse (e_lib E) sig_str of
        None \<Rightarrow> (None, s)
      | Some sig \<Rightarrow>
          (let (fetched, s1) = retrying E (rpc_get_transaction E sig) s
           in (Option.bind (ok fetched) (\<lambda>t. extract_funder (e_lib E) t address), s1)))"

section \<open>Pagination to an address's genesis\<close>

text \<open>\<^verbatim>\<open>for _ in 0..hop_max_pages\<close>: \<open>None\<close> when a page fails, else the oldest signature
  seen and whether a short page was reached.\<close>

fun funder_pages ::
    "'e env_scheme \<Rightarrow> pubkey \<Rightarrow> nat \<Rightarrow> signature option \<Rightarrow> string option
     \<Rightarrow> 'a sys_scheme \<Rightarrow> (string option \<times> bool) option \<times> 'a sys_scheme" where
  "funder_pages E address 0 before earliest s = (Some (earliest, False), s)"
| "funder_pages E address (Suc n) before earliest s =
     (let (r, s1) = retrying E (rpc_get_signatures E address before 100) s
      in case r of
           Inl _ \<Rightarrow> (None, s1)
         | Inr sigs \<Rightarrow>
             (let is_last = (length sigs < 100);
                  (before', earliest') =
                    (case last_opt sigs of
                       Some l \<Rightarrow> (sig_parse (e_lib E) (si_signature l), Some (si_signature l))
                     | None \<Rightarrow> (before, earliest))
              in if is_last then (Some (earliest', True), s1)
                 else funder_pages E address n before' earliest' s1))"

definition funder_of ::
    "'e env_scheme \<Rightarrow> pubkey \<Rightarrow> nat \<Rightarrow> 'a sys_scheme \<Rightarrow> string option \<times> 'a sys_scheme" where
  "funder_of E address hop_max_pages s =
     (let (r, s1) = funder_pages E address hop_max_pages None None s
      in case r of
           None \<Rightarrow> (None, s1)
         | Some (earliest, reached) \<Rightarrow>
             if \<not> reached then (None, s1)
             else case earliest of
                    None \<Rightarrow> (None, s1)
                  | Some sig_str \<Rightarrow> fetch_funder_from_sig E sig_str address s1)"

section \<open>The trace\<close>

function trace_loop ::
    "'e env_scheme \<Rightarrow> label_idx \<Rightarrow> nat \<Rightarrow> nat \<Rightarrow> string \<Rightarrow> nat \<Rightarrow> funding_hop list
     \<Rightarrow> 'a sys_scheme \<Rightarrow> funding_hop list \<times> 'a sys_scheme" where
  "trace_loop E deny max_hops hop_pages current hop chain s =
     (let labels = deny_labels_for deny current;
          chain' = chain @ [\<lparr>fh_address = current, fh_hop = hop, fh_labels = labels\<rparr>]
      in if labels \<noteq> [] \<or> hop \<ge> max_hops then (chain', s)
         else case ok (pk_parse (e_lib E) current) of
                None \<Rightarrow> (chain', s)
              | Some cur_pk \<Rightarrow>
                  (let (r, s1) = funder_of E cur_pk hop_pages s
                   in case r of
                        Some nxt \<Rightarrow> trace_loop E deny max_hops hop_pages nxt (hop + 1) chain' s1
                      | None \<Rightarrow> (chain', s1)))"
  by pat_completeness auto
termination
  by (relation "measure (\<lambda>(E, deny, max_hops, hop_pages, current, hop, chain, s). max_hops - hop)") auto

declare trace_loop.simps [simp del]

definition trace_of_chain :: "funding_hop list \<Rightarrow> funding_trace" where
  "trace_of_chain chain =
     (let any_labeled = (\<exists>h \<in> set chain. fh_labels h \<noteq> []);
          (funder, labels) = (case first_opt chain of
             Some h \<Rightarrow> (Some (fh_address h), fh_labels h) | None \<Rightarrow> (None, []))
      in \<lparr>ft_funder = funder, ft_funder_labels = labels, ft_funding_chain = chain,
          ft_classification = (if any_labeled then ''labeled_bad'' else ''traced_clean''),
          ft_reached_genesis = True\<rparr>)"

definition trace_funder ::
    "'e env_scheme \<Rightarrow> label_idx \<Rightarrow> pubkey \<Rightarrow> string option \<Rightarrow> bool
     \<Rightarrow> 'a sys_scheme \<Rightarrow> funding_trace \<times> 'a sys_scheme" where
  "trace_funder E deny wallet earliest_sig reached_genesis s =
     (if \<not> reached_genesis then (trace_partial, s)
      else case earliest_sig of
             None \<Rightarrow> (trace_simple ''no_history'' True, s)
           | Some sig_str \<Rightarrow>
               (let (h, s1) = fetch_funder_from_sig E sig_str wallet s
                in case h of
                     None \<Rightarrow> (trace_simple ''genesis_untraceable'' True, s1)
                   | Some hop1 \<Rightarrow>
                       (let (chain, s2) =
                              trace_loop E deny (max_funder_hops (e_getenv E))
                                (funder_hop_pages (e_getenv E)) hop1 1 [] s1
                        in (trace_of_chain chain, s2))))"

section \<open>Effects\<close>

lemma fetch_funder_grows [frame_rules]:
  "grows is_rpc s (snd (fetch_funder_from_sig E sig_str address s))"
  using retrying_grows(4) [of s E E]
  by (auto simp: fetch_funder_from_sig_def case_prod_unfold Let_def split: option.splits)

lemma funder_pages_grows [frame_rules]:
  "grows is_rpc s (snd (funder_pages E address n before earliest s))"
proof (induction n arbitrary: before earliest s)
  case (Suc n)
  obtain r s1 where r: "retrying E (rpc_get_signatures E address before 100) s = (r, s1)" by force
  have "grows is_rpc s s1" using retrying_grows(3) [of s E E address before 100] by (simp add: r)
  then show ?case
    using Suc.IH by (auto simp: r Let_def split: sum.splits prod.splits intro: grows_trans)
qed simp

lemma funder_of_grows [frame_rules]: "grows is_rpc s (snd (funder_of E address n s))"
  using funder_pages_grows [of s E address n None None]
  by (auto simp: funder_of_def Let_def split: option.splits prod.splits
      intro: grows_trans fetch_funder_grows)

text \<open>The two ways an iteration ends, as an induction rule.\<close>

definition mk_hop :: "label_idx \<Rightarrow> string \<Rightarrow> nat \<Rightarrow> funding_hop" where
  "mk_hop deny a hop = \<lparr>fh_address = a, fh_hop = hop, fh_labels = deny_labels_for deny a\<rparr>"

lemma trace_loop_walk:
  assumes stop: "\<And>current hop chain s s'. grows is_rpc s s' \<Longrightarrow>
      P current hop chain s (chain @ [mk_hop deny current hop], s')"
    and walk: "\<And>current hop chain s nxt s1 res.
      \<lbrakk>deny_labels_for deny current = []; hop < mh; grows is_rpc s s1;
       P nxt (hop + 1) (chain @ [mk_hop deny current hop]) s1 res\<rbrakk> \<Longrightarrow> P current hop chain s res"
  shows "P current hop chain s (trace_loop E deny mh hp current hop chain s)"
proof (induction "mh - hop" arbitrary: current hop chain s rule: less_induct)
  case less
  let ?c = "chain @ [mk_hop deny current hop]"
  show ?case
  proof (cases "deny_labels_for deny current \<noteq> [] \<or> hop \<ge> mh \<or> ok (pk_parse (e_lib E) current) = None")
    case True
    then have "trace_loop E deny mh hp current hop chain s = (?c, s)"
      by (subst trace_loop.simps) (auto simp: Let_def mk_hop_def)
    then show ?thesis using stop by simp
  next
    case False
    then obtain pk where pk: "ok (pk_parse (e_lib E) current) = Some pk" by blast
    obtain r s1 where r: "funder_of E pk hp s = (r, s1)" by force
    with funder_of_grows [of s E pk hp] have g: "grows is_rpc s s1" by simp
    have eq: "trace_loop E deny mh hp current hop chain s =
        (case r of Some nxt \<Rightarrow> trace_loop E deny mh hp nxt (hop + 1) ?c s1 | None \<Rightarrow> (?c, s1))"
      using False pk r by (subst trace_loop.simps) (cases r; simp add: Let_def mk_hop_def)
    show ?thesis
    proof (cases r)
      case None
      then show ?thesis using eq stop [OF g] by simp
    next
      case (Some nxt)
      from False have "mh - (hop + 1) < mh - hop" by auto
      then have "P nxt (hop + 1) ?c s1 (trace_loop E deny mh hp nxt (hop + 1) ?c s1)"
        by (rule less.hyps)
      from walk [OF _ _ g this] False
      have "P current hop chain s (trace_loop E deny mh hp nxt (hop + 1) ?c s1)" by simp
      then show ?thesis using Some eq by simp
    qed
  qed
qed

lemma trace_loop_grows [frame_rules]:
  "grows is_rpc s (snd (trace_loop E deny mh hp current hop chain s))"
  by (rule trace_loop_walk [where P = "\<lambda>_ _ _ s res. grows is_rpc s (snd res)"])
    (auto intro: grows_trans)

lemma trace_funder_grows [frame_rules]:
  "grows is_rpc s (snd (trace_funder E deny wallet sig reached s))"
proof -
  have "grows is_rpc s (snd (trace_loop E deny m p c h ch (snd (fetch_funder_from_sig E g wallet s))))"
    for m p c h ch g
    by (rule grows_trans [OF fetch_funder_grows trace_loop_grows])
  then show ?thesis
    using fetch_funder_grows [of s E _ wallet]
    by (auto simp: trace_funder_def case_prod_unfold Let_def split: option.splits)
qed

section \<open>The shape of a chain\<close>

text \<open>Hops are numbered from 1, every hop carries exactly the deny labels of its address, and
  only the last hop can be labeled.\<close>

definition chain_ok :: "label_idx \<Rightarrow> funding_hop list \<Rightarrow> bool" where
  "chain_ok deny chain \<longleftrightarrow>
     (\<forall>i < length chain. fh_hop (chain ! i) = i + 1
        \<and> fh_labels (chain ! i) = deny_labels_for deny (fh_address (chain ! i))
        \<and> (i + 1 < length chain \<longrightarrow> fh_labels (chain ! i) = []))"

lemma chain_ok_snoc:
  assumes "chain_ok deny chain" "\<forall>h \<in> set chain. fh_labels h = []"
  shows "chain_ok deny (chain @ [mk_hop deny a (length chain + 1)])"
  using assms by (auto simp: chain_ok_def mk_hop_def nth_append less_Suc_eq)

definition walk_ok :: "label_idx \<Rightarrow> nat \<Rightarrow> nat \<Rightarrow> funding_hop list \<Rightarrow> funding_hop list \<Rightarrow> bool" where
  "walk_ok deny mh hop chain res \<longleftrightarrow>
     (chain_ok deny chain \<and> (\<forall>h \<in> set chain. fh_labels h = []) \<and> hop = length chain + 1 \<and> hop \<le> mh
      \<longrightarrow> chain_ok deny res \<and> length chain < length res \<and> length res \<le> mh)"

lemma trace_loop_chain_ok:
  "walk_ok deny mh hop chain (fst (trace_loop E deny mh hp current hop chain s))"
proof (rule trace_loop_walk [where P = "\<lambda>_ hop chain _ res. walk_ok deny mh hop chain (fst res)"])
  show "walk_ok deny mh hop chain (fst (chain @ [mk_hop deny current hop], s'))" for current hop chain s'
    using chain_ok_snoc [of deny chain current] by (auto simp: walk_ok_def)
next
  fix current :: string and hop chain nxt res
  assume "deny_labels_for deny current = []" "hop < mh"
    and "walk_ok deny mh (hop + 1) (chain @ [mk_hop deny current hop]) (fst res)"
  then show "walk_ok deny mh hop chain (fst res)"
    using chain_ok_snoc [of deny chain current] by (auto simp: walk_ok_def mk_hop_def)
qed

lemma trace_funder_cases:
  fixes s :: "'a sys_scheme"
  obtains "fst (trace_funder E deny wallet sig reached s) = trace_partial" "\<not> reached"
  | "fst (trace_funder E deny wallet sig reached s) = trace_simple ''no_history'' True"
  | "fst (trace_funder E deny wallet sig reached s) = trace_simple ''genesis_untraceable'' True"
  | (traced) hop1 and s1 :: "'a sys_scheme" where "fst (trace_funder E deny wallet sig reached s) = trace_of_chain
      (fst (trace_loop E deny (max_funder_hops (e_getenv E)) (funder_hop_pages (e_getenv E)) hop1 1 [] s1))"
proof (cases "reached \<and> sig \<noteq> None")
  case False
  then show ?thesis using that(1,2) by (cases reached) (auto simp: trace_funder_def)
next
  case True
  then obtain sg where sg: "sig = Some sg" by blast
  obtain h s1 where h: "fetch_funder_from_sig E sg wallet s = (h, s1)" by force
  show ?thesis
  proof (cases h)
    case None
    with True sg h that(3) show ?thesis by (simp add: trace_funder_def)
  next
    case (Some hop1)
    with True sg h that(4) [of hop1 s1] show ?thesis
      by (simp add: trace_funder_def case_prod_unfold Let_def)
  qed
qed

lemma chain_ok_Nil [simp]: "chain_ok deny []"
  by (simp add: chain_ok_def)

lemma trace_funder_chain:
  fixes s :: "'b sys_scheme"
  shows "chain_ok deny (ft_funding_chain (fst (trace_funder E deny wallet sig reached s)))"
  "length (ft_funding_chain (fst (trace_funder E deny wallet sig reached s))) \<le> max_funder_hops (e_getenv E)"
proof -
  let ?t = "fst (trace_funder E deny wallet sig reached s)"
  have c: "ft_funding_chain (trace_of_chain ch) = ch" for ch
    by (simp add: trace_of_chain_def Let_def split: option.splits)
  have "1 \<le> max_funder_hops (e_getenv E)" by (simp add: max_funder_hops_def)
  then have w: "chain_ok deny (fst (trace_loop E deny (max_funder_hops (e_getenv E)) hp a 1 [] s1))"
    "length (fst (trace_loop E deny (max_funder_hops (e_getenv E)) hp a 1 [] s1)) \<le> max_funder_hops (e_getenv E)"
    for hp a and s1 :: "'b sys_scheme"
    using trace_loop_chain_ok [of deny "max_funder_hops (e_getenv E)" 1 "[]" E hp a s1]
    by (simp_all add: walk_ok_def)
  have "chain_ok deny (ft_funding_chain ?t) \<and> length (ft_funding_chain ?t) \<le> max_funder_hops (e_getenv E)"
    by (rule trace_funder_cases [of E deny wallet sig reached s])
      (simp_all only: c w trace_partial_def trace_simple_def funding_trace.simps chain_ok_Nil list.size, simp_all)
  then show "chain_ok deny (ft_funding_chain ?t)" "length (ft_funding_chain ?t) \<le> max_funder_hops (e_getenv E)"
    by auto
qed

section \<open>The chosen funder\<close>

text \<open>The loop keeps the first account, other than the wallet, with the largest decrease.\<close>

definition best_of :: "nat \<Rightarrow> u64 list \<Rightarrow> u64 list \<Rightarrow> nat \<Rightarrow> (nat \<times> u64) option \<Rightarrow> bool" where
  "best_of w pre post n r \<longleftrightarrow>
     (case r of
        None \<Rightarrow> \<forall>j < n. j \<noteq> w \<longrightarrow> sat_sub (pre ! j) (post ! j) = 0
      | Some (i, d) \<Rightarrow> i < n \<and> i \<noteq> w \<and> d = sat_sub (pre ! i) (post ! i) \<and> 0 < d
          \<and> (\<forall>j < n. j \<noteq> w \<longrightarrow> sat_sub (pre ! j) (post ! j) \<le> d)
          \<and> (\<forall>j < i. j \<noteq> w \<longrightarrow> sat_sub (pre ! j) (post ! j) < d))"

lemma best_step_best_of:
  assumes "best_of w pre post n r"
  shows "best_of w pre post (Suc n) (best_step w pre post r n)"
proof (cases r)
  case None
  with assms show ?thesis
    by (auto simp: best_of_def best_step_def Let_def less_Suc_eq word_gt_0)
next
  case (Some id)
  obtain i d where "id = (i, d)" by force
  with assms Some show ?thesis
    by (auto simp: best_of_def best_step_def Let_def less_Suc_eq word_gt_0 not_less
        dest: order_le_less_trans intro: less_imp_le)
qed

lemma best_fold: "best_of w pre post n (foldl (best_step w pre post) None [0..<n])"
proof (induction n)
  case 0
  then show ?case by (simp add: best_of_def)
next
  case (Suc n)
  then show ?case by (simp add: best_step_best_of)
qed

lemma extract_funder_SomeD:
  assumes "extract_funder L enc wallet = Some f"
  obtains pre post b64 tx w i where
    "et_meta enc = Some (pre, post)" "et_transaction enc = EncBinary b64"
    "decode_tx L b64 = Inr tx" "length pre = length (static_keys tx)"
    "length post = length (static_keys tx)" "w < length pre" "static_keys tx ! w = wallet"
    "pre ! w < post ! w" "i < length pre" "i \<noteq> w" "f = pk_str L (static_keys tx ! i)"
    "post ! i < pre ! i"
    "\<forall>j < length pre. j \<noteq> w \<longrightarrow> sat_sub (pre ! j) (post ! j) \<le> pre ! i - post ! i"
proof -
  from assms obtain pre post b64 tx w i d where e:
    "et_meta enc = Some (pre, post)" "et_transaction enc = EncBinary b64"
    "ok (decode_tx L b64) = Some tx" "length pre = length (static_keys tx)"
    "length post = length (static_keys tx)" "position wallet (static_keys tx) = Some w"
    "pre ! w < post ! w"
    "foldl (best_step w pre post) None [0..<length (static_keys tx)] = Some (i, d)"
    "f = pk_str L (static_keys tx ! i)"
    by (auto simp: extract_funder_def Let_def not_le split: option.splits encoded_transaction.splits if_splits)
  have "best_of w pre post (length pre) (Some (i, d))"
    using best_fold [of w pre post "length pre"] e(4,8) by simp
  then have b: "i < length pre" "i \<noteq> w" "d = sat_sub (pre ! i) (post ! i)" "0 < d"
    "\<forall>j < length pre. j \<noteq> w \<longrightarrow> sat_sub (pre ! j) (post ! j) \<le> d"
    unfolding best_of_def option.case prod.case by blast+
  then have "post ! i < pre ! i" "d = pre ! i - post ! i"
    by (auto simp: sat_sub_def split: if_splits)
      (metis order_le_less right_minus_eq less_irrefl)
  moreover have "decode_tx L b64 = Inr tx"
    using e(3) by (simp add: ok_def split: sum.splits)
  moreover have "w < length pre" "static_keys tx ! w = wallet"
    using position_SomeD [OF e(6)] e(4) by auto
  ultimately show ?thesis using that e b by blast
qed

end
