(* ===== verification/Activity.thy ===== *)
theory Activity
  imports Funding
begin

text \<open>
  \<^verbatim>\<open>src/signals/activity.rs\<close>: counterparties, program diversity and deny-labeled
  counterparties over a bounded window of recent transactions. The hash sets are lists
  without repetition; only their sizes are read.
\<close>

record activity_metrics =
  am_unique_counterparties :: nat
  am_program_diversity :: nat
  am_counterparty_labels :: "tx_label_hit list"
  am_txns_parsed :: nat
  am_measured :: bool

definition activity_empty :: activity_metrics where
  "activity_empty = \<lparr>am_unique_counterparties = 0, am_program_diversity = 0,
     am_counterparty_labels = [], am_txns_parsed = 0, am_measured = False\<rparr>"

definition max_tx_parse :: "(string \<Rightarrow> string option) \<Rightarrow> nat" where
  "max_tx_parse getenv = env_nat getenv (2 ^ 64) ''SOLRISK_MAX_TX_PARSE'' 20"

section \<open>One transaction\<close>

definition tx_programs :: "lib \<Rightarrow> pubkey list \<Rightarrow> instruction list \<Rightarrow> string list" where
  "tx_programs L keys ixs =
     foldl (\<lambda>ps ix. case get_nth keys (unat (program_id_index ix)) of
                      Some pk \<Rightarrow> push_new (pk_str L pk) ps
                    | None \<Rightarrow> ps) [] ixs"

definition counterparty_step ::
    "lib \<Rightarrow> string \<Rightarrow> string list \<Rightarrow> u64 list \<Rightarrow> u64 list \<Rightarrow> string list \<Rightarrow> nat \<times> pubkey \<Rightarrow> string list" where
  "counterparty_step L wallet_str progs pre post cps ik =
     (case ik of (i, key) \<Rightarrow>
        let s = pk_str L key
        in if s = wallet_str \<or> s \<in> set progs then cps
           else if pre ! i \<noteq> post ! i \<and> s \<notin> set cps then cps @ [s] else cps)"

definition activity_extract :: "lib \<Rightarrow> enc_tx \<Rightarrow> pubkey \<Rightarrow> (string list \<times> string list) option" where
  "activity_extract L encoded wallet =
     (case et_meta encoded of
        None \<Rightarrow> None
      | Some (pre, post) \<Rightarrow>
          (case et_transaction encoded of
             EncOther \<Rightarrow> None
           | EncBinary b64 \<Rightarrow>
               (case ok (decode_tx L b64) of
                  None \<Rightarrow> None
                | Some tx \<Rightarrow>
                    (let keys = static_keys tx
                     in if length pre \<noteq> length keys \<or> length post \<noteq> length keys then None
                        else let progs = tx_programs L keys (instructions tx)
                             in Some (foldl (counterparty_step L (pk_str L wallet) progs pre post) []
                                        (zip [0..<length keys] keys), progs)))))"

section \<open>The window\<close>

record activity_acc =
  aa_counterparties :: "string list"
  aa_programs :: "string list"
  aa_labeled :: "tx_label_hit list"
  aa_labeled_seen :: "(string \<times> string) list"
  aa_parsed :: nat

definition label_step :: "string \<Rightarrow> activity_acc \<Rightarrow> label_entry \<Rightarrow> activity_acc" where
  "label_step cp a hit =
     (if (cp, le_label hit) \<in> set (aa_labeled_seen a) then a
      else a\<lparr>aa_labeled_seen := aa_labeled_seen a @ [(cp, le_label hit)],
             aa_labeled := aa_labeled a
               @ [\<lparr>lh_program = cp, lh_source = le_source hit, lh_label = le_label hit\<rparr>]\<rparr>)"

definition counterparty_acc :: "label_idx \<Rightarrow> activity_acc \<Rightarrow> string \<Rightarrow> activity_acc" where
  "counterparty_acc deny a cp =
     (let a1 = foldl (label_step cp) a (li_lookup deny cp)
      in a1\<lparr>aa_counterparties := push_new cp (aa_counterparties a1)\<rparr>)"

definition parsed_tx :: "lib \<Rightarrow> label_idx \<Rightarrow> pubkey \<Rightarrow> enc_tx \<Rightarrow> activity_acc \<Rightarrow> activity_acc" where
  "parsed_tx L deny wallet tx a =
     (let a1 = a\<lparr>aa_parsed := aa_parsed a + 1\<rparr>
      in case activity_extract L tx wallet of
           None \<Rightarrow> a1
         | Some (cps, progs) \<Rightarrow>
             foldl (counterparty_acc deny)
               (a1\<lparr>aa_programs := foldl (\<lambda>ps p. push_new p ps) (aa_programs a1) progs\<rparr>) cps)"

fun activity_loop ::
    "'e env_scheme \<Rightarrow> label_idx \<Rightarrow> pubkey \<Rightarrow> string list \<Rightarrow> activity_acc
     \<Rightarrow> 'a sys_scheme \<Rightarrow> activity_acc \<times> 'a sys_scheme" where
  "activity_loop E deny wallet [] a s = (a, s)"
| "activity_loop E deny wallet (sig_str # sigs) a s =
     (case sig_parse (e_lib E) sig_str of
        None \<Rightarrow> activity_loop E deny wallet sigs a s
      | Some sig \<Rightarrow>
          (let (fetched, s1) = retrying E (rpc_get_transaction E sig) s
           in case fetched of
                Inl _ \<Rightarrow> activity_loop E deny wallet sigs a s1
              | Inr tx \<Rightarrow> activity_loop E deny wallet sigs (parsed_tx (e_lib E) deny wallet tx a) s1))"

definition analyze_recent_activity ::
    "'e env_scheme \<Rightarrow> label_idx \<Rightarrow> pubkey \<Rightarrow> string list \<Rightarrow> nat
     \<Rightarrow> 'a sys_scheme \<Rightarrow> activity_metrics \<times> 'a sys_scheme" where
  "analyze_recent_activity E deny wallet recent_sigs cap s =
     (if cap = 0 \<or> recent_sigs = [] then (activity_empty, s)
      else let (a, s1) = activity_loop E deny wallet (take cap recent_sigs)
                 \<lparr>aa_counterparties = [], aa_programs = [], aa_labeled = [], aa_labeled_seen = [], aa_parsed = 0\<rparr> s
           in (\<lparr>am_unique_counterparties = length (aa_counterparties a),
                am_program_diversity = length (aa_programs a),
                am_counterparty_labels = aa_labeled a,
                am_txns_parsed = aa_parsed a,
                am_measured = (aa_parsed a > 0)\<rparr>, s1))"

section \<open>Facts\<close>

lemma activity_loop_grows [frame_rules]:
  "grows is_rpc s (snd (activity_loop E deny wallet sigs a s))"
proof (induction sigs arbitrary: a s)
  case (Cons sig_str sigs)
  show ?case
  proof (cases "sig_parse (e_lib E) sig_str")
    case None
    then show ?thesis using Cons.IH by simp
  next
    case (Some sig)
    obtain r s1 where r: "retrying E (rpc_get_transaction E sig) s = (r, s1)" by force
    then have "grows is_rpc s s1" using retrying_grows(4) [of s E E sig] by simp
    then show ?thesis using Cons.IH Some r by (cases r) (auto intro: grows_trans)
  qed
qed simp

lemma analyze_recent_activity_grows [frame_rules]:
  "grows is_rpc s (snd (analyze_recent_activity E deny wallet sigs cap s))"
  using activity_loop_grows
  by (auto simp: analyze_recent_activity_def case_prod_unfold Let_def)

text \<open>What the accumulator keeps: no repeated counterparty, one hit per (address, label) pair,
  and every hit is a deny entry of a counterparty.\<close>

definition acc_ok :: "label_idx \<Rightarrow> activity_acc \<Rightarrow> bool" where
  "acc_ok deny a \<longleftrightarrow>
     distinct (aa_counterparties a) \<and> distinct (aa_programs a)
     \<and> distinct (aa_labeled_seen a)
     \<and> map (\<lambda>h. (lh_program h, lh_label h)) (aa_labeled a) = aa_labeled_seen a
     \<and> (\<forall>h \<in> set (aa_labeled a). h \<in> set (deny_labels_for deny (lh_program h)))"

lemma label_steps_ok:
  assumes "acc_ok deny a" "set es \<subseteq> set (li_lookup deny cp)"
  shows "acc_ok deny (foldl (label_step cp) a es)
    \<and> aa_counterparties (foldl (label_step cp) a es) = aa_counterparties a
    \<and> (\<forall>e \<in> set es. (cp, le_label e) \<in> set (aa_labeled_seen (foldl (label_step cp) a es)))
    \<and> set (aa_labeled_seen a) \<subseteq> set (aa_labeled_seen (foldl (label_step cp) a es))"
  using assms
proof (induction es arbitrary: a)
  case (Cons e es)
  have "acc_ok deny (label_step cp a e)"
    using Cons.prems by (auto simp: acc_ok_def label_step_def deny_labels_for_def hits_of_def)
  moreover have "(cp, le_label e) \<in> set (aa_labeled_seen (label_step cp a e))"
    "set (aa_labeled_seen a) \<subseteq> set (aa_labeled_seen (label_step cp a e))"
    "aa_counterparties (label_step cp a e) = aa_counterparties a"
    by (auto simp: label_step_def)
  ultimately show ?case using Cons.IH [of "label_step cp a e"] Cons.prems by auto
qed simp

lemma counterparty_acc_ok: "acc_ok deny a \<Longrightarrow> acc_ok deny (counterparty_acc deny a cp)"
  using label_steps_ok [of deny a "li_lookup deny cp" cp]
  by (auto simp: counterparty_acc_def Let_def acc_ok_def distinct_push_new)

lemma distinct_foldl_push: "distinct ps \<Longrightarrow> distinct (foldl (\<lambda>ps p. push_new p ps) ps xs)"
  by (induction xs arbitrary: ps) (simp_all add: distinct_push_new)

lemma parsed_tx_ok: "acc_ok deny a \<Longrightarrow> acc_ok deny (parsed_tx L deny wallet tx a)"
proof -
  have "acc_ok deny a \<Longrightarrow> acc_ok deny (foldl (counterparty_acc deny) a cps)" for a cps
    by (induction cps arbitrary: a) (simp_all add: counterparty_acc_ok)
  moreover assume "acc_ok deny a"
  then have "acc_ok deny (a\<lparr>aa_parsed := n\<rparr>)"
    "acc_ok deny (a\<lparr>aa_parsed := n, aa_programs := foldl (\<lambda>ps p. push_new p ps) (aa_programs a) qs\<rparr>)"
    for n qs by (simp_all add: acc_ok_def distinct_foldl_push)
  ultimately show ?thesis
    by (simp add: parsed_tx_def Let_def split: option.split prod.split)
qed

lemma activity_loop_ok:
  "acc_ok deny a \<Longrightarrow> acc_ok deny (fst (activity_loop E deny wallet sigs a s))"
proof (induction sigs arbitrary: a s)
  case (Cons sig_str sigs)
  then show ?case
    by (auto simp: Let_def parsed_tx_ok split: option.splits sum.splits prod.splits)
qed simp

lemma counterparty_acc_parsed [simp]: "aa_parsed (counterparty_acc deny a cp) = aa_parsed a"
proof -
  have "aa_parsed (foldl (label_step cp) a es) = aa_parsed a" for es
    by (induction es arbitrary: a) (simp_all add: label_step_def)
  then show ?thesis by (simp add: counterparty_acc_def Let_def)
qed

lemma parsed_tx_parsed [simp]: "aa_parsed (parsed_tx L deny wallet tx a) = aa_parsed a + 1"
proof -
  have "aa_parsed (foldl (counterparty_acc deny) a cps) = aa_parsed a" for a cps
    by (induction cps arbitrary: a) simp_all
  then show ?thesis by (auto simp: parsed_tx_def Let_def split: option.splits)
qed

lemma activity_loop_parsed:
  fixes s :: "'a sys_scheme"
  shows "aa_parsed a \<le> aa_parsed (fst (activity_loop E deny wallet sigs a s))
   \<and> aa_parsed (fst (activity_loop E deny wallet sigs a s)) \<le> aa_parsed a + length sigs"
proof (induction sigs arbitrary: a s)
  case (Cons sig_str sigs)
  have skip: "aa_parsed a \<le> aa_parsed (fst (activity_loop E deny wallet sigs a s'))
      \<and> aa_parsed (fst (activity_loop E deny wallet sigs a s')) \<le> aa_parsed a + length (sig_str # sigs)"
    and add: "aa_parsed a \<le> aa_parsed (fst (activity_loop E deny wallet sigs (parsed_tx L d w tx a) s'))
      \<and> aa_parsed (fst (activity_loop E deny wallet sigs (parsed_tx L d w tx a) s'))
        \<le> aa_parsed a + length (sig_str # sigs)" for L d w tx and s' :: "'a sys_scheme"
    using Cons.IH [of a s'] Cons.IH [of "parsed_tx L d w tx a" s'] by simp_all
  show ?case
    using skip add by (simp only: activity_loop.simps Let_def split: option.split sum.split prod.split) simp
qed simp

text \<open>The counterparties of one transaction: non-wallet, non-program keys whose balance moved.\<close>

lemma counterparty_fold_set:
  assumes "length pre = length keys" "length post = length keys"
  shows "set (foldl (counterparty_step L w progs pre post) cps (zip [m..<m + length ks] ks)) =
    set cps \<union> {s. \<exists>i < length ks. s = pk_str L (ks ! i) \<and> s \<noteq> w \<and> s \<notin> set progs
      \<and> pre ! (m + i) \<noteq> post ! (m + i)}"
proof (induction ks arbitrary: cps m)
  case (Cons k ks)
  have z: "zip [m..<m + length (k # ks)] (k # ks) = (m, k) # zip [Suc m..<Suc m + length ks] ks"
    by (simp add: upt_rec)
  have "{s. \<exists>i < length (k # ks). s = pk_str L ((k # ks) ! i) \<and> s \<noteq> w \<and> s \<notin> set progs
      \<and> pre ! (m + i) \<noteq> post ! (m + i)} =
    {s. s = pk_str L k \<and> s \<noteq> w \<and> s \<notin> set progs \<and> pre ! m \<noteq> post ! m} \<union>
    {s. \<exists>i < length ks. s = pk_str L (ks ! i) \<and> s \<noteq> w \<and> s \<notin> set progs
      \<and> pre ! (Suc m + i) \<noteq> post ! (Suc m + i)}"
    by (auto simp: less_Suc_eq_0_disj)
  then show ?case
    unfolding z using Cons.IH [of _ "Suc m"]
    by (auto simp: counterparty_step_def Let_def)
qed simp

text \<open>The metrics of a run: what was parsed, and which labels were met.\<close>

lemma analyze_recent_activity_metrics:
  assumes m_def: "m = fst (analyze_recent_activity E deny wallet sigs cap s)"
  shows "am_txns_parsed m \<le> min cap (length sigs)" "am_measured m \<longleftrightarrow> 0 < am_txns_parsed m"
    "distinct (map (\<lambda>h. (lh_program h, lh_label h)) (am_counterparty_labels m))"
    "\<forall>h \<in> set (am_counterparty_labels m). h \<in> set (deny_labels_for deny (lh_program h))"
proof -
  let ?init = "\<lparr>aa_counterparties = [], aa_programs = [], aa_labeled = [], aa_labeled_seen = [], aa_parsed = 0\<rparr>"
  let ?a = "fst (activity_loop E deny wallet (take cap sigs) ?init s)"
  have ok: "acc_ok deny ?a" by (rule activity_loop_ok) (simp add: acc_ok_def)
  have le: "aa_parsed ?a \<le> min cap (length sigs)"
    using activity_loop_parsed [where a = ?init and sigs = "take cap sigs" and E = E and deny = deny and wallet = wallet and s = s] by simp
  have m: "m = (if cap = 0 \<or> sigs = [] then activity_empty else
      \<lparr>am_unique_counterparties = length (aa_counterparties ?a), am_program_diversity = length (aa_programs ?a),
       am_counterparty_labels = aa_labeled ?a, am_txns_parsed = aa_parsed ?a, am_measured = (aa_parsed ?a > 0)\<rparr>)"
    by (simp add: m_def analyze_recent_activity_def case_prod_unfold Let_def)
  show "am_txns_parsed m \<le> min cap (length sigs)" "am_measured m \<longleftrightarrow> 0 < am_txns_parsed m"
    "distinct (map (\<lambda>h. (lh_program h, lh_label h)) (am_counterparty_labels m))"
    "\<forall>h \<in> set (am_counterparty_labels m). h \<in> set (deny_labels_for deny (lh_program h))"
    using le ok unfolding m acc_ok_def by (auto simp: activity_empty_def)
qed

end
