(* ===== verification/Chain.thy ===== *)
theory Chain
  imports Activity
begin

text \<open>
  \<^verbatim>\<open>src/signals/chain.rs\<close>: the on-chain signals of a wallet. Balance and token account count
  fall back to 0, the signature pages stop at the first failing page, and the funder trace and
  the recent-activity window run on whatever was collected. Timestamps are seconds.
\<close>

record chain_signals =
  age_days :: nat
  tx_count_total :: nat
  tx_count_30d :: nat
  unique_counterparties_30d :: "nat option"
  sol_balance_lamports :: u64
  spl_account_count :: nat
  has_activity_48h :: bool
  program_diversity_30d :: "nat option"
  is_fresh_funded :: bool
  funding_source_risk :: string
  funder :: "string option"
  funder_labels :: "tx_label_hit list"
  funding_chain :: "funding_hop list"
  counterparty_labels :: "tx_label_hit list"
  first_seen_ts :: int
  latest_tx_ts :: int
  counterparty_metrics_estimated :: bool
  sig_pages_fetched :: nat

definition default_chain_signals :: chain_signals where
  "default_chain_signals = \<lparr>age_days = 0, tx_count_total = 0, tx_count_30d = 0,
     unique_counterparties_30d = None, sol_balance_lamports = 0, spl_account_count = 0,
     has_activity_48h = False, program_diversity_30d = None, is_fresh_funded = False,
     funding_source_risk = ''not_checked'', funder = None, funder_labels = [],
     funding_chain = [], counterparty_labels = [], first_seen_ts = 0, latest_tx_ts = 0,
     counterparty_metrics_estimated = True, sig_pages_fetched = 0\<rparr>"

definition max_sig_pages :: "(string \<Rightarrow> string option) \<Rightarrow> nat" where
  "max_sig_pages getenv = env_nat getenv (2 ^ 32) ''SOLRISK_MAX_SIG_PAGES'' 5"

section \<open>Signature pages\<close>

record sig_collection =
  sc_sigs :: "sig_info list"
  sc_pages :: nat
  sc_reached :: bool

fun sig_pages ::
    "'e env_scheme \<Rightarrow> pubkey \<Rightarrow> nat \<Rightarrow> signature option \<Rightarrow> sig_collection
     \<Rightarrow> 'a sys_scheme \<Rightarrow> sig_collection \<times> 'a sys_scheme" where
  "sig_pages E pk 0 before c s = (c, s)"
| "sig_pages E pk (Suc n) before c s =
     (let (r, s1) = retrying E (rpc_get_signatures E pk before 100) s
      in case r of
           Inl _ \<Rightarrow> (c, s1)
         | Inr sigs \<Rightarrow>
             (let is_last = (length sigs < 100);
                  before' = (case last_opt sigs of
                     Some l \<Rightarrow> sig_parse (e_lib E) (si_signature l) | None \<Rightarrow> before);
                  c' = c\<lparr>sc_pages := sc_pages c + 1, sc_sigs := sc_sigs c @ sigs\<rparr>
              in if is_last then (c'\<lparr>sc_reached := True\<rparr>, s1)
                 else sig_pages E pk n before' c' s1))"

section \<open>Timestamps\<close>

record sig_scan =
  ss_first :: int
  ss_latest :: int
  ss_count_30d :: nat
  ss_active_48h :: bool

definition scan_sig :: "int \<Rightarrow> int \<Rightarrow> sig_scan \<Rightarrow> sig_info \<Rightarrow> sig_scan" where
  "scan_sig thirty_days_ago forty_eight_hours_ago a sig =
     (case si_block_time sig of
        None \<Rightarrow> a
      | Some bt \<Rightarrow>
          \<lparr>ss_first = (if ss_first a = 0 \<or> bt < ss_first a then bt else ss_first a),
           ss_latest = (if bt > ss_latest a then bt else ss_latest a),
           ss_count_30d = (if bt \<ge> thirty_days_ago then ss_count_30d a + 1 else ss_count_30d a),
           ss_active_48h = (bt \<ge> forty_eight_hours_ago \<or> ss_active_48h a)\<rparr>)"

definition scan_sigs :: "int \<Rightarrow> int \<Rightarrow> sig_info list \<Rightarrow> sig_scan" where
  "scan_sigs t30 t48 sigs =
     foldl (scan_sig t30 t48) \<lparr>ss_first = 0, ss_latest = 0, ss_count_30d = 0, ss_active_48h = False\<rparr> sigs"

definition age_of :: "int \<Rightarrow> int \<Rightarrow> nat" where
  "age_of now_ts first_seen =
     (if first_seen > 0 then nat (max (trunc_div (now_ts - first_seen) 86400) 0) else 0)"

definition now_secs :: "'a sys_scheme \<Rightarrow> int" where
  "now_secs s = int (s_now s div 1000000000)"

definition recent_signatures :: "int \<Rightarrow> sig_info list \<Rightarrow> string list" where
  "recent_signatures t30 sigs =
     map si_signature
       (filter (\<lambda>x. unwrap_or (map_option (\<lambda>bt. bt \<ge> t30) (si_block_time x)) False) sigs)"

section \<open>The collector\<close>

text \<open>The report at the end: what was collected, with the metrics of the activity pass if it measured any.\<close>

definition chain_report ::
    "u64 \<Rightarrow> nat \<Rightarrow> sig_collection \<Rightarrow> sig_scan \<Rightarrow> nat \<Rightarrow> bool \<Rightarrow> funding_trace \<Rightarrow> activity_metrics \<Rightarrow> chain_signals" where
  "chain_report sol_balance spl_count c sc age fresh trace activity =
     (let measured = am_measured activity
      in \<lparr>age_days = age,
          tx_count_total = length (sc_sigs c),
          tx_count_30d = ss_count_30d sc,
          unique_counterparties_30d =
            (if measured then Some (am_unique_counterparties activity) else None),
          sol_balance_lamports = sol_balance,
          spl_account_count = spl_count,
          has_activity_48h = ss_active_48h sc,
          program_diversity_30d =
            (if measured then Some (am_program_diversity activity) else None),
          is_fresh_funded = fresh,
          funding_source_risk = ft_classification trace,
          funder = ft_funder trace,
          funder_labels = ft_funder_labels trace,
          funding_chain = ft_funding_chain trace,
          counterparty_labels = am_counterparty_labels activity,
          first_seen_ts = ss_first sc,
          latest_tx_ts = ss_latest sc,
          counterparty_metrics_estimated = (\<not> measured),
          sig_pages_fetched = sc_pages c\<rparr>)"

definition collect_chain_signals ::
    "'e env_scheme \<Rightarrow> label_idx \<Rightarrow> string \<Rightarrow> 'a sys_scheme \<Rightarrow> (string + chain_signals) \<times> 'a sys_scheme" where
  "collect_chain_signals E deny wallet_str s =
     (case pk_parse (e_lib E) wallet_str of
        Inl e \<Rightarrow> (Inl (''invalid pubkey: '' @ e), s)
      | Inr pubkey \<Rightarrow>
          (let now_ts = now_secs s;
               thirty_days_ago = now_ts - 30 * 86400;
               forty_eight_hours_ago = now_ts - 48 * 3600;
               (bal, s1) = retrying E (rpc_get_balance E pubkey) s;
               sol_balance = unwrap_or (ok bal) 0;
               (tok, s2) = retrying E (rpc_get_token_accounts E pubkey) s1;
               spl_count = unwrap_or (map_option length (ok tok)) 0;
               (c, s3) = sig_pages E pubkey (max_sig_pages (e_getenv E)) None
                           \<lparr>sc_sigs = [], sc_pages = 0, sc_reached = False\<rparr> s2;
               all_sigs = sc_sigs c;
               total = length all_sigs;
               sc = scan_sigs thirty_days_ago forty_eight_hours_ago all_sigs;
               age = age_of now_ts (ss_first sc);
               fresh = (age < 1 \<and> total < 5);
               earliest_sig =
                 (if sc_reached c then map_option si_signature (last_opt all_sigs) else None);
               (trace, s4) = trace_funder E deny pubkey earliest_sig (sc_reached c) s3;
               (activity, s5) = analyze_recent_activity E deny pubkey
                                  (recent_signatures thirty_days_ago all_sigs)
                                  (max_tx_parse (e_getenv E)) s4
           in (Inr (chain_report sol_balance spl_count c sc age fresh trace activity), s5)))"

section \<open>Facts\<close>

lemma sig_pages_grows [frame_rules]: "grows is_rpc s (snd (sig_pages E pk n before c s))"
proof (induction n arbitrary: before c s)
  case (Suc n)
  obtain r s1 where r: "retrying E (rpc_get_signatures E pk before 100) s = (r, s1)" by force
  have "grows is_rpc s s1" using retrying_grows(3) [of s E E pk before 100] by (simp add: r)
  then show ?case
    using Suc.IH by (cases r) (auto simp: r Let_def intro: grows_trans)
qed simp

lemma collect_chain_signals_grows [frame_rules]:
  "grows is_rpc s (snd (collect_chain_signals E deny w s))"
  unfolding collect_chain_signals_def Let_def case_prod_unfold
  by (auto split: sum.split intro!: grows_trans [OF _ analyze_recent_activity_grows]
      grows_trans [OF _ trace_funder_grows] grows_trans [OF _ sig_pages_grows]
      grows_trans [OF _ retrying_grows(2)] retrying_grows(1))

text \<open>The collector fails on a malformed key only: no RPC failure is ever reported.\<close>

lemma collect_fails_iff:
  "(\<exists>e. fst (collect_chain_signals E deny w s) = Inl e) \<longleftrightarrow> (\<exists>e. pk_parse (e_lib E) w = Inl e)"
  unfolding collect_chain_signals_def Let_def case_prod_unfold by (auto split: sum.split)

lemma scan_count: "ss_count_30d (foldl (scan_sig t30 t48) a sigs) =
    ss_count_30d a + length (filter (\<lambda>x. \<exists>bt. si_block_time x = Some bt \<and> bt \<ge> t30) sigs)"
  by (induction sigs arbitrary: a) (auto simp: scan_sig_def split: option.splits)

lemma scan_active: "ss_active_48h (foldl (scan_sig t30 t48) a sigs) \<longleftrightarrow>
    ss_active_48h a \<or> (\<exists>x \<in> set sigs. \<exists>bt. si_block_time x = Some bt \<and> bt \<ge> t48)"
  by (induction sigs arbitrary: a) (auto simp: scan_sig_def split: option.splits)

lemma scan_latest_ge:
  "ss_latest a \<le> ss_latest (foldl (scan_sig t30 t48) a sigs)
   \<and> (\<forall>x \<in> set sigs. \<forall>bt. si_block_time x = Some bt \<longrightarrow> bt \<le> ss_latest (foldl (scan_sig t30 t48) a sigs))"
proof (induction sigs arbitrary: a)
  case (Cons x sigs)
  have "ss_latest a \<le> ss_latest (scan_sig t30 t48 a x)"
    "si_block_time x = Some bt \<Longrightarrow> bt \<le> ss_latest (scan_sig t30 t48 a x)" for bt
    by (auto simp: scan_sig_def split: option.splits)
  with Cons.IH [of "scan_sig t30 t48 a x"] show ?case
    by (auto intro: order_trans)
qed simp

text \<open>With positive block times the first-seen time is the least block time.\<close>

definition block_times :: "sig_info list \<Rightarrow> int set" where
  "block_times sigs = {bt. \<exists>x \<in> set sigs. si_block_time x = Some bt}"

lemma block_times_simps [simp]:
  "block_times [] = {}"
  "block_times (x # xs) = (case si_block_time x of None \<Rightarrow> {} | Some bt \<Rightarrow> {bt}) \<union> block_times xs"
  by (auto simp: block_times_def split: option.splits)

lemma scan_first_min:
  assumes "\<forall>bt \<in> block_times sigs. bt > 0" "0 \<le> ss_first a"
  shows "let r = ss_first (foldl (scan_sig t30 t48) a sigs)
     in (\<forall>bt \<in> block_times sigs. r \<le> bt) \<and> (r = ss_first a \<or> r \<in> block_times sigs)
        \<and> (0 < ss_first a \<longrightarrow> 0 < r \<and> r \<le> ss_first a)
        \<and> (block_times sigs \<noteq> {} \<longrightarrow> 0 < r)"
  using assms
proof (induction sigs arbitrary: a)
  case (Cons x sigs)
  show ?case
  proof (cases "si_block_time x")
    case None
    then show ?thesis using Cons by (simp add: scan_sig_def)
  next
    case (Some bt)
    with Cons.prems have bt: "0 < bt" by simp
    let ?a = "scan_sig t30 t48 a x"
    have f: "0 < ss_first ?a" "ss_first ?a \<le> bt" "ss_first ?a = bt \<or> ss_first ?a = ss_first a"
      "0 < ss_first a \<Longrightarrow> ss_first ?a \<le> ss_first a"
      using Some bt Cons.prems by (auto simp: scan_sig_def)
    from Cons.IH [of ?a] Cons.prems f(1) show ?thesis
      using f Some by (auto simp: Let_def intro: order_trans)
  qed
qed simp

lemma age_of_nonneg: "first > 0 \<Longrightarrow> first \<le> now \<Longrightarrow> int (age_of now first) = (now - first) div 86400"
  by (simp add: age_of_def trunc_div_nonneg pos_imp_zdiv_nonneg_iff)

lemma sig_pages_bounds:
  "sc_pages (fst (sig_pages E pk n before c s)) \<le> sc_pages c + n"
proof (induction n arbitrary: before c s)
  case (Suc n)
  obtain r s1 where r: "retrying E (rpc_get_signatures E pk before 100) s = (r, s1)" by force
  show ?case
  proof (cases r)
    case (Inr sigs)
    show ?thesis
      using Suc.IH [of _ "c\<lparr>sc_pages := sc_pages c + 1, sc_sigs := sc_sigs c @ sigs\<rparr>" s1]
      by (simp add: r Inr Let_def)
  qed (simp add: r)
qed simp

text \<open>A second page is only asked for after a full first one.\<close>

lemma sig_pages_full:
  "100 * sc_pages c \<le> length (sc_sigs c) \<Longrightarrow>
     100 * (sc_pages (fst (sig_pages E pk n before c s)) - 1)
       \<le> length (sc_sigs (fst (sig_pages E pk n before c s)))"
proof (induction n arbitrary: before c s)
  case 0
  then show ?case by simp
next
  case (Suc n)
  obtain r s1 where r: "retrying E (rpc_get_signatures E pk before 100) s = (r, s1)" by force
  show ?case
  proof (cases r)
    case (Inl e)
    then show ?thesis using Suc.prems by (simp add: r)
  next
    case (Inr sigs)
    have "100 * sc_pages c' \<le> length (sc_sigs c')"
      if "\<not> length sigs < 100" "c' = c\<lparr>sc_pages := sc_pages c + 1, sc_sigs := sc_sigs c @ sigs\<rparr>" for c'
      using that Suc.prems by simp
    then show ?thesis using Inr Suc.IH Suc.prems by (simp add: r Let_def)
  qed
qed

lemma collect_history:
  assumes "fst (collect_chain_signals E deny w s) = Inr sg"
  shows "100 * (sig_pages_fetched sg - 1) \<le> tx_count_total sg"
proof -
  obtain pk where pk: "pk_parse (e_lib E) w = Inr pk"
    using assms by (auto simp: collect_chain_signals_def split: sum.splits)
  let ?c0 = "\<lparr>sc_sigs = [], sc_pages = 0, sc_reached = False\<rparr>"
  let ?c = "fst (sig_pages E pk (max_sig_pages (e_getenv E)) None ?c0
      (snd (retrying E (rpc_get_token_accounts E pk) (snd (retrying E (rpc_get_balance E pk) s)))))"
  have "sig_pages_fetched sg = sc_pages ?c" "tx_count_total sg = length (sc_sigs ?c)"
    using assms by (auto simp: collect_chain_signals_def chain_report_def pk Let_def case_prod_unfold)
  moreover have "100 * (sc_pages ?c - 1) \<le> length (sc_sigs ?c)" by (rule sig_pages_full) simp
  ultimately show ?thesis by (simp only:)
qed

lemma finite_block_times: "finite (block_times sigs)"
proof -
  have "block_times sigs \<subseteq> the ` si_block_time ` set sigs" by (force simp: block_times_def)
  then show ?thesis by (rule finite_subset) simp
qed

lemma scan_latest_mem:
  "ss_latest (foldl (scan_sig t30 t48) a sigs) = ss_latest a
   \<or> ss_latest (foldl (scan_sig t30 t48) a sigs) \<in> block_times sigs"
proof (induction sigs arbitrary: a)
  case (Cons x sigs)
  have "ss_latest (scan_sig t30 t48 a x) = ss_latest a \<or> si_block_time x = Some (ss_latest (scan_sig t30 t48 a x))"
    by (auto simp: scan_sig_def split: option.splits)
  with Cons.IH [of "scan_sig t30 t48 a x"] show ?case by auto
qed simp

lemma scan_sigs_extremes:
  assumes "\<forall>bt \<in> block_times sigs. bt > 0" "block_times sigs \<noteq> {}"
  shows "ss_first (scan_sigs t30 t48 sigs) = Min (block_times sigs)"
    "ss_latest (scan_sigs t30 t48 sigs) = Max (block_times sigs)"
proof -
  let ?init = "\<lparr>ss_first = 0, ss_latest = 0, ss_count_30d = 0, ss_active_48h = False\<rparr>"
  let ?r = "foldl (scan_sig t30 t48) ?init sigs"
  have f: "\<forall>bt \<in> block_times sigs. ss_first ?r \<le> bt" "ss_first ?r \<in> block_times sigs"
    using scan_first_min [OF assms(1), of ?init t30 t48] assms(2) by (auto simp: Let_def)
  then show "ss_first (scan_sigs t30 t48 sigs) = Min (block_times sigs)"
    using finite_block_times by (simp add: scan_sigs_def) (metis Min_eqI)
  have l: "\<forall>bt \<in> block_times sigs. bt \<le> ss_latest ?r"
    using scan_latest_ge [where sigs = sigs and a = ?init and ?t30.0 = t30 and ?t48.0 = t48] by (auto simp: block_times_def)
  then have "0 < ss_latest ?r" using assms by force
  then have "ss_latest ?r \<in> block_times sigs" using scan_latest_mem [of t30 t48 ?init sigs] by simp
  with l show "ss_latest (scan_sigs t30 t48 sigs) = Max (block_times sigs)"
    using finite_block_times by (simp add: scan_sigs_def) (metis Max_eqI)
qed

end
