(* ===== verification/Token.thy ===== *)
theory Token
  imports Chain Bands
begin

text \<open>
  \<^verbatim>\<open>src/signals/token.rs\<close> and \<^verbatim>\<open>src/scoring_token.rs\<close>: the rug-pull signals of a mint and their
  score. Every RPC failure after retries leaves the defaults of its fields in place and, but
  for the signature page, marks the result \<^verbatim>\<open>low_confidence\<close>.
\<close>

definition TOKEN_SCORING_VERSION :: string where
  "TOKEN_SCORING_VERSION = ''1.0.0''"

record token_signals =
  mint_authority_revoked :: bool
  freeze_authority_set :: bool
  top10_holder_pct :: fl
  supply_ui :: fl
  decimals :: u8
  mint_age_days :: nat
  metadata_mutable :: bool
  low_confidence :: bool
  liquidity_checked :: bool

definition default_token_signals :: token_signals where
  "default_token_signals =
     \<lparr>mint_authority_revoked = False, freeze_authority_set = False, top10_holder_pct = Fin 0,
      supply_ui = Fin 0, decimals = 0, mint_age_days = 0, metadata_mutable = False,
      low_confidence = False, liquidity_checked = False\<rparr>"

section \<open>The collector\<close>

definition with_supply :: "client_error + token_amount \<Rightarrow> token_signals \<Rightarrow> token_signals" where
  "with_supply r sg =
     (case r of
        Inr a \<Rightarrow> sg\<lparr>supply_ui := unwrap_or (ta_ui_amount a) (Fin 0), decimals := ta_decimals a\<rparr>
      | Inl _ \<Rightarrow> sg\<lparr>low_confidence := True\<rparr>)"

definition with_mint_account :: "client_error + bytes \<Rightarrow> token_signals \<Rightarrow> token_signals" where
  "with_mint_account r sg =
     (case r of
        Inr d \<Rightarrow>
          if length d \<ge> 82 then
            sg\<lparr>mint_authority_revoked := (d ! 0 = 0), freeze_authority_set := (d ! 46 = 1)\<rparr>
          else sg\<lparr>low_confidence := True\<rparr>
      | Inl _ \<Rightarrow> sg\<lparr>low_confidence := True\<rparr>)"

text \<open>\<^verbatim>\<open>.take(10).filter_map(ui_amount).sum()\<close>: a left fold of rounded additions.\<close>

definition top10_total :: "fl option list \<Rightarrow> fl" where
  "top10_total accounts = foldl (fadd F64) (Fin 0) (List.map_filter id (take 10 accounts))"

definition with_largest :: "client_error + fl option list \<Rightarrow> token_signals \<Rightarrow> token_signals" where
  "with_largest r sg =
     (case r of
        Inr accounts \<Rightarrow>
          if flt (Fin 0) (supply_ui sg) then
            sg\<lparr>top10_holder_pct :=
                 fmin (fmul F64 (fdiv F64 (top10_total accounts) (supply_ui sg)) (Fin 100)) (Fin 100)\<rparr>
          else sg
      | Inl _ \<Rightarrow> sg\<lparr>low_confidence := True\<rparr>)"

definition with_mint_sigs :: "client_error + sig_info list \<Rightarrow> int \<Rightarrow> token_signals \<Rightarrow> token_signals" where
  "with_mint_sigs r now sg =
     (case r of
        Inr sigs \<Rightarrow>
          (case Option.bind (last_opt sigs) si_block_time of
             Some first \<Rightarrow> sg\<lparr>mint_age_days := nat (max (trunc_div (now - first) 86400) 0)\<rparr>
           | None \<Rightarrow> sg)
      | Inl _ \<Rightarrow> sg)"

definition collect_token_signals ::
    "'e env_scheme \<Rightarrow> string \<Rightarrow> 'a sys_scheme \<Rightarrow> (string + token_signals) \<times> 'a sys_scheme" where
  "collect_token_signals E mint_str s =
     (case pk_parse (e_lib E) mint_str of
        Inl e \<Rightarrow> (Inl (''invalid mint: '' @ e), s)
      | Inr mint \<Rightarrow>
          (let (supply, s1) = retrying E (rpc_get_token_supply E mint) s;
               g1 = with_supply supply default_token_signals;
               (info, s2) = retrying E (rpc_get_account E mint) s1;
               g2 = with_mint_account info g1;
               (largest, s3) = retrying E (rpc_get_largest E mint) s2;
               g3 = with_largest largest g2;
               (sigs, s4) = retrying E (rpc_get_signatures E mint None 1) s3;
               g4 = with_mint_sigs sigs (now_secs s4) g3
           in (Inr (g4\<lparr>liquidity_checked := False\<rparr>), s4)))"

section \<open>The scorer\<close>

record token_risk_result =
  kr_risk_score :: int
  kr_risk_band :: string
  kr_risk_domain :: string
  kr_signals :: token_signals
  kr_flags :: "string list"
  kr_confidence :: fl
  kr_signal_quality :: string
  kr_scoring_version :: string

definition token_tally :: "token_signals \<Rightarrow> tally" where
  "token_tally sg =
     (let t0 = (0, []);
          t1 = bump (\<not> mint_authority_revoked sg) 35 ''MINT_AUTHORITY_ACTIVE'' t0;
          t2 = bump (freeze_authority_set sg) 20 ''FREEZE_AUTHORITY_SET'' t1;
          t3 = bump (flt (Fin 80) (top10_holder_pct sg)) 30 ''TOP10_HOLDERS_GT_80PCT'' t2;
          t4 = bump (mint_age_days sg < 7 \<and> flt (Fin 50) (top10_holder_pct sg)) 15
                 ''YOUNG_MINT_HIGH_CONCENTRATION'' t3
      in bump (\<not> liquidity_checked sg) 0 ''LOW_LIQUIDITY_UNKNOWN'' t4)"

definition token_signal_quality :: "token_signals \<Rightarrow> string" where
  "token_signal_quality sg =
     (if low_confidence sg then ''low'' else if liquidity_checked sg then ''high'' else ''medium'')"

definition token_confidence :: "token_signals \<Rightarrow> fl" where
  "token_confidence sg =
     (let c0 = (if low_confidence sg then fround F32 (45 / 100) else fround F32 (7 / 10));
          c1 = (if flt (Fin 0) (supply_ui sg) then fadd F32 c0 (fround F32 (1 / 10)) else c0);
          c2 = (if mint_age_days sg > 30 then fadd F32 c1 (fround F32 (5 / 100)) else c1)
      in fmin c2 (fround F32 (9 / 10)))"

definition score_token :: "string \<Rightarrow> token_signals \<Rightarrow> token_risk_result" where
  "score_token mint sg =
     (let (raw, flags) = token_tally sg;
          fs = final_score raw
      in \<lparr>kr_risk_score = fs,
          kr_risk_band = risk_band fs,
          kr_risk_domain = ''token'',
          kr_signals = sg,
          kr_flags = flags,
          kr_confidence = token_confidence sg,
          kr_signal_quality = token_signal_quality sg,
          kr_scoring_version = TOKEN_SCORING_VERSION\<rparr>)"

interpretation ks: risk_scorer
  "\<lambda>sg. fst (token_tally sg)"
  "\<lambda>sg. kr_risk_score (score_token mint sg)"
  "\<lambda>sg. kr_risk_band (score_token mint sg)" for mint
  by unfold_locales (simp_all add: score_token_def case_prod_unfold Let_def)

section \<open>Facts\<close>

definition token_bumps :: "token_signals \<Rightarrow> (bool \<times> int \<times> string) list" where
  "token_bumps sg =
     [(\<not> mint_authority_revoked sg, 35, ''MINT_AUTHORITY_ACTIVE''),
      (freeze_authority_set sg, 20, ''FREEZE_AUTHORITY_SET''),
      (flt (Fin 80) (top10_holder_pct sg), 30, ''TOP10_HOLDERS_GT_80PCT''),
      (mint_age_days sg < 7 \<and> flt (Fin 50) (top10_holder_pct sg), 15, ''YOUNG_MINT_HIGH_CONCENTRATION''),
      (\<not> liquidity_checked sg, 0, ''LOW_LIQUIDITY_UNKNOWN'')]"

lemma token_tally_bumps: "token_tally sg = bumps (token_bumps sg) (0, [])"
  by (simp only: token_tally_def Let_def token_bumps_def bumps_simps)

lemma token_tally_score:
  "fst (token_tally sg) =
     of_bool_i (\<not> mint_authority_revoked sg) 35 + of_bool_i (freeze_authority_set sg) 20
     + of_bool_i (flt (Fin 80) (top10_holder_pct sg)) 30
     + of_bool_i (mint_age_days sg < 7 \<and> flt (Fin 50) (top10_holder_pct sg)) 15"
proof -
  have "fst (token_tally sg) = fst (0 :: int, [] :: string list)
      + sum_list (map (\<lambda>(c, n, f). of_bool_i c n) (token_bumps sg))"
    unfolding token_tally_bumps by (rule bumps_score) (auto simp: token_bumps_def)
  then show ?thesis by (simp add: token_bumps_def of_bool_i_def)
qed

text \<open>The penalties add up to 100 at most, so the clamp never acts.\<close>

lemma token_raw_bounds: "0 \<le> fst (token_tally sg) \<and> fst (token_tally sg) \<le> 100"
  by (simp add: token_tally_score of_bool_i_def)

lemma token_flags:
  "snd (token_tally sg) = concat (map (\<lambda>(c, n, f). flag_if c f) (token_bumps sg))"
  by (simp add: token_tally_bumps bumps_flags)

lemma score_token_simps [simp]:
  "kr_signals (score_token m sg) = sg"
  "kr_flags (score_token m sg) = snd (token_tally sg)"
  "kr_signal_quality (score_token m sg) = token_signal_quality sg"
  "kr_confidence (score_token m sg) = token_confidence sg"
  "kr_scoring_version (score_token m sg) = TOKEN_SCORING_VERSION"
  by (simp_all add: score_token_def case_prod_unfold Let_def)

lemma fmin_bound: "\<not> flt (Fin b) (fmin a (Fin b))"
  by (cases a) (simp_all add: fmin_def)

definition token_sane :: "token_signals \<Rightarrow> bool" where
  "token_sane sg \<longleftrightarrow> \<not> flt (Fin 100) (top10_holder_pct sg)"

lemma with_supply_fields [simp]:
  "top10_holder_pct (with_supply r sg) = top10_holder_pct sg"
  "mint_authority_revoked (with_supply r sg) = mint_authority_revoked sg"
  by (simp_all add: with_supply_def split: sum.split)

lemma with_mint_account_fields [simp]:
  "top10_holder_pct (with_mint_account r sg) = top10_holder_pct sg"
  "supply_ui (with_mint_account r sg) = supply_ui sg"
  by (simp_all add: with_mint_account_def split: sum.split)

lemma with_largest_fields [simp]:
  "mint_authority_revoked (with_largest r sg) = mint_authority_revoked sg"
  by (simp add: with_largest_def split: sum.split)

lemma with_mint_sigs_fields [simp]:
  "top10_holder_pct (with_mint_sigs r n sg) = top10_holder_pct sg"
  "mint_authority_revoked (with_mint_sigs r n sg) = mint_authority_revoked sg"
  "low_confidence (with_mint_sigs r n sg) = low_confidence sg"
  by (simp_all add: with_mint_sigs_def split: sum.split option.split)

lemma with_largest_sane: "token_sane sg \<Longrightarrow> token_sane (with_largest r sg)"
  using fmin_bound [of 100] by (simp add: with_largest_def token_sane_def split: sum.split)

lemma low_confidence_sticky:
  "low_confidence sg \<Longrightarrow> low_confidence (with_mint_account r sg)"
  "low_confidence sg \<Longrightarrow> low_confidence (with_largest q sg)"
  by (simp_all add: with_mint_account_def with_largest_def split: sum.split)

text \<open>The authority byte is trusted only when an account of at least 82 bytes was read.\<close>

lemma with_mint_account_revoked:
  "mint_authority_revoked (with_mint_account r sg) \<longleftrightarrow>
     (case r of Inr d \<Rightarrow> if length d \<ge> 82 then d ! 0 = 0 else mint_authority_revoked sg
              | Inl _ \<Rightarrow> mint_authority_revoked sg)"
  by (simp add: with_mint_account_def split: sum.split)

lemma collect_token_signals_grows:
  fixes s :: "'a sys_scheme"
  shows "grows is_rpc s (snd (collect_token_signals E m s))"
proof (cases "pk_parse (e_lib E) m")
  case (Inr mint)
  obtain r1 s1 where r1: "retrying E (rpc_get_token_supply E mint) s = (r1, s1)" by force
  obtain r2 s2 where r2: "retrying E (rpc_get_account E mint) s1 = (r2, s2)" by force
  obtain r3 s3 where r3: "retrying E (rpc_get_largest E mint) s2 = (r3, s3)" by force
  obtain r4 s4 where r4: "retrying E (rpc_get_signatures E mint None 1) s3 = (r4, s4)" by force
  have "grows is_rpc s s1" "grows is_rpc s1 s2" "grows is_rpc s2 s3" "grows is_rpc s3 s4"
    using retrying_grows(5) [of s E E mint] retrying_grows(6) [of s1 E E mint]
      retrying_grows(7) [of s2 E E mint] retrying_grows(3) [of s3 E E mint None 1]
    by (simp_all add: r1 r2 r3 r4 del: One_nat_def)
  then have "grows is_rpc s s4" by (metis grows_trans)
  with Inr show ?thesis by (simp add: collect_token_signals_def Let_def r1 r2 r3 r4 del: One_nat_def)
qed (simp add: collect_token_signals_def)

lemma collect_token_signals_result:
  fixes s :: "'a sys_scheme"
  assumes "fst (collect_token_signals E m s) = Inr sg"
  shows "\<not> liquidity_checked sg \<and> token_sane sg"
proof (cases "pk_parse (e_lib E) m")
  case Inl
  then show ?thesis using assms by (simp add: collect_token_signals_def)
next
  case (Inr mint)
  have d: "token_sane default_token_signals"
    by (simp add: token_sane_def default_token_signals_def)
  have "\<exists>r1 r2 r3 r4 n. sg = (with_mint_sigs r4 n (with_largest r3
      (with_mint_account r2 (with_supply r1 default_token_signals))))\<lparr>liquidity_checked := False\<rparr>"
    using assms Inr
    by (simp add: collect_token_signals_def Let_def case_prod_unfold del: One_nat_def) metis
  then obtain r1 r2 r3 r4 n where sg: "sg = (with_mint_sigs r4 n (with_largest r3
      (with_mint_account r2 (with_supply r1 default_token_signals))))\<lparr>liquidity_checked := False\<rparr>"
    by blast
  have "token_sane (with_largest r3 (with_mint_account r2 (with_supply r1 default_token_signals)))"
    by (rule with_largest_sane) (use d in \<open>simp add: token_sane_def\<close>)
  then show ?thesis by (simp add: sg token_sane_def)
qed

lemma collect_token_fails_iff:
  "(\<exists>e. fst (collect_token_signals E m s) = Inl e) \<longleftrightarrow> (\<exists>e. pk_parse (e_lib E) m = Inl e)"
  by (simp add: collect_token_signals_def Let_def case_prod_unfold split: sum.split)

end
