(* ===== verification/Scoring.thy ===== *)
theory Scoring
  imports Chain Bands
begin

text \<open>
  \<^verbatim>\<open>src/scoring.rs\<close>: the wallet score, its flags and labels, signal quality, confidence and
  the machine recommendation. The natural logarithm of the age bonus is the platform's
  \<^verbatim>\<open>f64::ln\<close>, whose precision Rust leaves unspecified: it is the parameter \<open>ln64\<close>, and what
  is needed of it is its accuracy, the predicate \<open>ln_accurate\<close> of \<open>Age_Bonus\<close>.
\<close>

definition SCORING_VERSION :: string where
  "SCORING_VERSION = ''1.3.0''"

record label_match =
  lm_source :: string
  lm_label :: string
  lm_weight :: int

record risk_result =
  rr_risk_score :: int
  rr_risk_band :: string
  rr_signals :: chain_signals
  rr_flags :: "string list"
  rr_labels :: "label_match list"
  rr_confidence :: fl
  rr_signal_quality :: string
  rr_scoring_version :: string

definition recommendation_from :: "string \<Rightarrow> bool \<Rightarrow> string \<Rightarrow> string" where
  "recommendation_from band has_deny_label signal_quality =
     (if has_deny_label \<or> band = ''CRITICAL'' then ''BLOCK''
      else if band = ''HIGH'' \<or> band = ''MEDIUM'' \<or> signal_quality = ''low'' then ''REVIEW''
      else ''ALLOW'')"

section \<open>The parts of the score\<close>

text \<open>\<^verbatim>\<open>min_by_key\<close>: the first hop with the least hop number.\<close>

fun min_hop :: "funding_hop list \<Rightarrow> funding_hop option" where
  "min_hop [] = None"
| "min_hop (h # hs) =
     (case min_hop hs of
        None \<Rightarrow> Some h
      | Some g \<Rightarrow> if fh_hop h \<le> fh_hop g then Some h else Some g)"

definition deep_labeled_hop :: "chain_signals \<Rightarrow> funding_hop option" where
  "deep_labeled_hop sg =
     min_hop (filter (\<lambda>h. fh_hop h \<ge> 2 \<and> fh_labels h \<noteq> []) (funding_chain sg))"

definition hop_weight :: "nat \<Rightarrow> int" where
  "hop_weight hop = (if hop = 2 then 25 else 15)"

definition untraced :: "chain_signals \<Rightarrow> bool" where
  "untraced sg = (funding_source_risk sg = ''partial_history''
                  \<or> funding_source_risk sg = ''genesis_untraceable'')"

text \<open>\<^verbatim>\<open>((age_days as f64).ln() * 3.0).min(15.0) as i32\<close>.\<close>

definition age_bonus :: "(fl \<Rightarrow> fl) \<Rightarrow> nat \<Rightarrow> int" where
  "age_bonus ln64 days =
     f_as_i32 (fmin (fmul F64 (ln64 (fround F64 (of_nat days))) (Fin 3)) (Fin 15))"

definition signal_tally :: "chain_signals \<Rightarrow> tally" where
  "signal_tally sg =
     (let t0 = (0, []);
          t1 = bump (is_fresh_funded sg) 25 ''FRESH_FUNDED'' t0;
          t2 = bump (age_days sg > 30 \<and> tx_count_30d sg < 3) 10 ''DORMANT'' t1;
          t3 = bump (tx_count_30d sg > 50 \<and> sol_balance_lamports sg < 10000000) 15 ''DUST_PATTERN'' t2;
          t4 = bump (funder_labels sg \<noteq> []) 40 ''FUNDED_BY_LABELED'' t3;
          t5 = (case deep_labeled_hop sg of
                  Some h \<Rightarrow> bump True (hop_weight (fh_hop h))
                    (''FUNDING_CHAIN_LABELED:hop'' @ show_nat (fh_hop h)) t4
                | None \<Rightarrow> t4);
          t6 = bump (untraced sg) 5 ''FUNDING_UNTRACED'' t5
      in bump (counterparty_labels sg \<noteq> []) 30
           (''COUNTERPARTY_LABELED:'' @ show_nat (length (counterparty_labels sg))) t6)"

definition deny_step :: "tally \<Rightarrow> label_entry \<Rightarrow> tally" where
  "deny_step t e = bump True (le_weight e) (''LABEL:'' @ to_upper (le_label e)) t"

definition to_match :: "label_entry \<Rightarrow> label_match" where
  "to_match e = \<lparr>lm_source = le_source e, lm_label = le_label e, lm_weight = le_weight e\<rparr>"

definition active_counterparties :: "chain_signals \<Rightarrow> bool" where
  "active_counterparties sg =
     (\<not> counterparty_metrics_estimated sg \<and> tx_count_30d sg \<ge> 10
      \<and> unwrap_or (unique_counterparties_30d sg) 0 \<ge> 5)"

definition wallet_tally ::
    "(fl \<Rightarrow> fl) \<Rightarrow> label_entry list \<Rightarrow> label_entry list \<Rightarrow> chain_signals \<Rightarrow> tally" where
  "wallet_tally ln64 deny_hits allow_hits sg =
     (let (s1, flags) = foldl deny_step (signal_tally sg) deny_hits;
          s2 = (if age_days sg > 0 then wrap_i32 (s1 - age_bonus ln64 (age_days sg)) else s1);
          s3 = (if active_counterparties sg then wrap_i32 (s2 - 10) else s2);
          s4 = foldl (\<lambda>s e. add_i32 s (le_weight e)) s3 allow_hits
      in (s4, flags))"

section \<open>Quality and confidence\<close>

definition compute_signal_quality :: "chain_signals \<Rightarrow> string" where
  "compute_signal_quality sg =
     (if tx_count_total sg < 5 \<or> sig_pages_fetched sg < 2 then ''low''
      else if counterparty_metrics_estimated sg then ''medium''
      else ''high'')"

definition f32_add :: "fl \<Rightarrow> rat \<Rightarrow> fl" where
  "f32_add a c = fadd F32 a (fround F32 c)"

definition compute_confidence :: "chain_signals \<Rightarrow> string \<Rightarrow> fl" where
  "compute_confidence sg signal_quality =
     (let c0 = (if signal_quality = ''high'' then fround F32 (65 / 100)
                else if signal_quality = ''medium'' then fround F32 (55 / 100)
                else fround F32 (45 / 100));
          c1 = (if tx_count_total sg \<ge> 50 then f32_add c0 (2 / 10)
                else if tx_count_total sg \<ge> 10 then f32_add c0 (1 / 10) else c0);
          c2 = (if age_days sg \<ge> 90 then f32_add c1 (15 / 100)
                else if age_days sg \<ge> 7 then f32_add c1 (5 / 100) else c1);
          c3 = (if has_activity_48h sg then f32_add c2 (5 / 100) else c2);
          c4 = (if spl_account_count sg \<ge> 3 then f32_add c3 (5 / 100) else c3)
      in fmin c4 (fround F32 (95 / 100)))"

section \<open>The scorer\<close>

definition score_wallet ::
    "(fl \<Rightarrow> fl) \<Rightarrow> label_idx \<Rightarrow> label_idx \<Rightarrow> string \<Rightarrow> chain_signals \<Rightarrow> risk_result" where
  "score_wallet ln64 deny_idx allow_idx wallet sg =
     (let deny_hits = li_lookup deny_idx wallet;
          allow_hits = li_lookup allow_idx wallet;
          (raw, flags) = wallet_tally ln64 deny_hits allow_hits sg;
          fs = final_score raw;
          quality = compute_signal_quality sg
      in \<lparr>rr_risk_score = fs,
          rr_risk_band = risk_band fs,
          rr_signals = sg,
          rr_flags = flags,
          rr_labels = map to_match deny_hits @ map to_match allow_hits,
          rr_confidence = compute_confidence sg quality,
          rr_signal_quality = quality,
          rr_scoring_version = SCORING_VERSION\<rparr>)"

interpretation ws: risk_scorer
  "\<lambda>sg. fst (wallet_tally ln64 (li_lookup d w) (li_lookup a w) sg)"
  "\<lambda>sg. rr_risk_score (score_wallet ln64 d a w sg)"
  "\<lambda>sg. rr_risk_band (score_wallet ln64 d a w sg)" for ln64 d a w
  by unfold_locales (simp_all add: score_wallet_def case_prod_unfold Let_def)

text \<open>\<^verbatim>\<open>has_deny\<close> as the wallet handler computes it.\<close>

definition has_deny :: "risk_result \<Rightarrow> bool" where
  "has_deny r = (rr_labels r \<noteq> [] \<and> (\<exists>l \<in> set (rr_labels r). lm_weight l > 0))"

definition wallet_recommendation :: "risk_result \<Rightarrow> string" where
  "wallet_recommendation r = recommendation_from (rr_risk_band r) (has_deny r) (rr_signal_quality r)"

section \<open>Facts\<close>

lemma score_wallet_simps [simp]:
  "rr_signals (score_wallet l d a w sg) = sg"
  "rr_labels (score_wallet l d a w sg) = map to_match (li_lookup d w) @ map to_match (li_lookup a w)"
  "rr_signal_quality (score_wallet l d a w sg) = compute_signal_quality sg"
  "rr_confidence (score_wallet l d a w sg) = compute_confidence sg (compute_signal_quality sg)"
  "rr_flags (score_wallet l d a w sg) = snd (wallet_tally l (li_lookup d w) (li_lookup a w) sg)"
  by (simp_all add: score_wallet_def case_prod_unfold Let_def)

lemma recommendation_iffs:
  "recommendation_from b h q = ''BLOCK'' \<longleftrightarrow> h \<or> b = ''CRITICAL''"
  "recommendation_from b h q = ''REVIEW'' \<longleftrightarrow>
     \<not> h \<and> b \<noteq> ''CRITICAL'' \<and> (b = ''HIGH'' \<or> b = ''MEDIUM'' \<or> q = ''low'')"
  "recommendation_from b h q = ''ALLOW'' \<longleftrightarrow>
     \<not> h \<and> b \<noteq> ''CRITICAL'' \<and> b \<noteq> ''HIGH'' \<and> b \<noteq> ''MEDIUM'' \<and> q \<noteq> ''low''"
  by (auto simp: recommendation_from_def)

lemma lm_weight_to_match [simp]: "lm_weight (to_match e) = le_weight e"
  by (simp add: to_match_def)

lemma has_deny_iff:
  "has_deny (score_wallet l d a w sg) \<longleftrightarrow>
     (\<exists>e \<in> set (li_lookup d w) \<union> set (li_lookup a w). le_weight e > 0)"
  by (simp add: has_deny_def bex_Un) auto

lemma min_hop_None_iff: "min_hop hs = None \<longleftrightarrow> hs = []"
  by (cases hs) (auto split: option.splits)

lemma min_hop_min:
  "min_hop hs = Some h \<Longrightarrow> h \<in> set hs \<and> (\<forall>g \<in> set hs. fh_hop h \<le> fh_hop g)"
proof (induction hs arbitrary: h)
  case Nil
  then show ?case by simp
next
  case (Cons x xs)
  then show ?case
    by (cases "min_hop xs") (fastforce simp: min_hop_None_iff split: if_splits)+
qed

lemma deep_labeled_hop_iff:
  "deep_labeled_hop sg = None \<longleftrightarrow> (\<forall>h \<in> set (funding_chain sg). fh_hop h \<ge> 2 \<longrightarrow> fh_labels h = [])"
  by (auto simp: deep_labeled_hop_def min_hop_None_iff filter_empty_conv)

text \<open>The exact sum behind the 32-bit score, for label weights whose total is below a billion.\<close>

definition signal_sum :: "chain_signals \<Rightarrow> int" where
  "signal_sum sg =
     of_bool_i (is_fresh_funded sg) 25 + of_bool_i (age_days sg > 30 \<and> tx_count_30d sg < 3) 10
     + of_bool_i (tx_count_30d sg > 50 \<and> sol_balance_lamports sg < 10000000) 15
     + of_bool_i (funder_labels sg \<noteq> []) 40
     + (case deep_labeled_hop sg of Some h \<Rightarrow> hop_weight (fh_hop h) | None \<Rightarrow> 0)
     + of_bool_i (untraced sg) 5 + of_bool_i (counterparty_labels sg \<noteq> []) 30"

definition signal_bumps :: "chain_signals \<Rightarrow> (bool \<times> int \<times> string) list" where
  "signal_bumps sg =
     [(is_fresh_funded sg, 25, ''FRESH_FUNDED''),
      (age_days sg > 30 \<and> tx_count_30d sg < 3, 10, ''DORMANT''),
      (tx_count_30d sg > 50 \<and> sol_balance_lamports sg < 10000000, 15, ''DUST_PATTERN''),
      (funder_labels sg \<noteq> [], 40, ''FUNDED_BY_LABELED'')]
     @ (case deep_labeled_hop sg of
          Some h \<Rightarrow> [(True, hop_weight (fh_hop h), ''FUNDING_CHAIN_LABELED:hop'' @ show_nat (fh_hop h))]
        | None \<Rightarrow> [])
     @ [(untraced sg, 5, ''FUNDING_UNTRACED''),
        (counterparty_labels sg \<noteq> [], 30,
         ''COUNTERPARTY_LABELED:'' @ show_nat (length (counterparty_labels sg)))]"

lemma bumps_append [simp]: "bumps (xs @ ys) t = bumps ys (bumps xs t)"
  by (simp add: bumps_def)

lemma signal_tally_bumps: "signal_tally sg = bumps (signal_bumps sg) (0, [])"
  by (simp only: signal_tally_def Let_def signal_bumps_def bumps_append bumps_simps
      split: option.split) simp

lemma signal_tally_score: "fst (signal_tally sg) = signal_sum sg"
proof -
  have "fst (signal_tally sg) = fst (0 :: int, [] :: string list)
      + sum_list (map (\<lambda>(c, n, f). of_bool_i c n) (signal_bumps sg))"
    unfolding signal_tally_bumps
    by (rule bumps_score) (auto simp: signal_bumps_def hop_weight_def split: option.splits)
  then show ?thesis
    by (simp add: signal_bumps_def signal_sum_def of_bool_i_def split: option.split)
qed

lemma signal_sum_bounds: "0 \<le> signal_sum sg \<and> signal_sum sg \<le> 150"
  by (simp add: signal_sum_def of_bool_i_def hop_weight_def split: option.split)

text \<open>The confidence stays between 0.45 and 0.95, up to the rounding of single precision.\<close>

lemma fl_in_add:
  assumes "fl_in lo hi x" "0 \<le> lo" "hi \<le> 2" "0 \<le> c" "c \<le> 1"
  shows "fl_in (lo + c - 1 / 2 ^ 22) (hi + c + 1 / 2 ^ 22) (f32_add x c)"
proof -
  obtain v where v: "x = Fin v" "lo \<le> v" "v \<le> hi" using assms(1) by (auto simp: fl_in_def split: fl.splits)
  obtain d where d: "fround F32 c = Fin d" "c - 1 / 2 ^ 23 \<le> d" "d \<le> c + 1 / 2 ^ 23"
    using fround_F32_fl_in [of c] assms(4,5) by (auto simp: fl_in_def split: fl.splits)
  have s: "(1 :: rat) / 2 ^ 23 + 1 / 2 ^ 23 = 1 / 2 ^ 22" "(1 :: rat) / 2 ^ 23 < 1 / 2" by simp_all
  then have "\<bar>v + d\<bar> < 4" using v d assms(2-5) unfolding abs_less_iff by linarith
  then have "fl_in (v + d - 1 / 2 ^ 23) (v + d + 1 / 2 ^ 23) (f32_add x c)"
    using fround_F32_fl_in [of "v + d"] by (simp add: f32_add_def v d)
  then show ?thesis using v d s by (elim fl_in_mono) linarith+
qed

lemma fl_in_add_if:
  assumes "fl_in lo hi x" "1 / 2 ^ 22 \<le> lo" "hi \<le> 2" "0 \<le> c" "c \<le> d" "d \<le> 1"
  shows "fl_in (lo - 1 / 2 ^ 22) (hi + d + 1 / 2 ^ 22) (if b then f32_add x c else x)"
  using fl_in_add [OF assms(1) _ assms(3,4)] assms fl_in_mono [OF assms(1), of "lo - 1 / 2 ^ 22" "hi + d + 1 / 2 ^ 22"]
  by (auto elim!: fl_in_mono)

lemma confidence_fl_in:
  "fl_in (44999 / 100000) (95001 / 100000) (compute_confidence sg (compute_signal_quality sg))"
proof -
  let ?e = "1 / 2 ^ 22 :: rat"
  note start = fround_F32_fl_in [of "45 / 100"] fround_F32_fl_in [of "55 / 100"] fround_F32_fl_in [of "65 / 100"]
  have e: "?e = 1 / 4194304" by simp
  have c0: "fl_in (45 / 100 - ?e) (65 / 100 + ?e) (if q then fround F32 (65 / 100)
      else if q' then fround F32 (55 / 100) else fround F32 (45 / 100))" for q q'
    using start by (auto elim!: fl_in_mono)
  have step: "fl_in (lo - ?e) (hi + d + ?e) (if b then f32_add x d else if b' then f32_add x c else x)"
    if "fl_in lo hi x" "?e \<le> lo" "hi \<le> 2" "0 \<le> c" "c \<le> d" "d \<le> 1" for lo hi x b b' c d
    using fl_in_add_if [OF that(1,2,3), of d d True] fl_in_add_if [OF that, of b'] that by simp
  define c1 where "c1 = (if tx_count_total sg \<ge> 50 then f32_add (if compute_signal_quality sg = ''high'' then fround F32 (65 / 100)
      else if compute_signal_quality sg = ''medium'' then fround F32 (55 / 100) else fround F32 (45 / 100)) (2 / 10)
    else if tx_count_total sg \<ge> 10 then f32_add (if compute_signal_quality sg = ''high'' then fround F32 (65 / 100)
      else if compute_signal_quality sg = ''medium'' then fround F32 (55 / 100) else fround F32 (45 / 100)) (1 / 10)
    else (if compute_signal_quality sg = ''high'' then fround F32 (65 / 100)
      else if compute_signal_quality sg = ''medium'' then fround F32 (55 / 100) else fround F32 (45 / 100)))"
  have w1: "fl_in (45 / 100 - ?e - ?e) (65 / 100 + ?e + 2 / 10 + ?e) c1"
    unfolding c1_def by (rule step [OF c0]) (simp_all add: e)
  define c2 where "c2 = (if age_days sg \<ge> 90 then f32_add c1 (15 / 100)
      else if age_days sg \<ge> 7 then f32_add c1 (5 / 100) else c1)"
  have w2: "fl_in (45 / 100 - ?e - ?e - ?e) (65 / 100 + ?e + 2 / 10 + ?e + 15 / 100 + ?e) c2"
    unfolding c2_def by (rule step [OF w1]) (simp_all add: e)
  define c3 where "c3 = (if has_activity_48h sg then f32_add c2 (5 / 100) else c2)"
  have w3: "fl_in (45 / 100 - ?e - ?e - ?e - ?e) (65 / 100 + ?e + 2 / 10 + ?e + 15 / 100 + ?e + 5 / 100 + ?e) c3"
    unfolding c3_def by (rule fl_in_add_if [OF w2]) (simp_all add: e)
  define c4 where "c4 = (if spl_account_count sg \<ge> 3 then f32_add c3 (5 / 100) else c3)"
  have w4: "fl_in (45 / 100 - ?e - ?e - ?e - ?e - ?e)
      (65 / 100 + ?e + 2 / 10 + ?e + 15 / 100 + ?e + 5 / 100 + ?e + 5 / 100 + ?e) c4"
    unfolding c4_def by (rule fl_in_add_if [OF w3]) (simp_all add: e)
  have "fl_in (44999 / 100000) (95 / 100 + 1 / 2 ^ 23) (fmin c4 (fround F32 (95 / 100)))"
    by (rule fl_in_fmin [OF fl_in_mono [OF w4 _ order_refl] fround_F32_fl_in]) simp_all
  then show ?thesis
    unfolding compute_confidence_def Let_def c4_def [symmetric] c3_def [symmetric] c2_def [symmetric] c1_def [symmetric]
    by (elim fl_in_mono) simp_all
qed

end
