(* ===== verification/Age_Bonus.thy ===== *)
theory Age_Bonus
  imports Scoring
begin

text \<open>
  The age credit of \<^verbatim>\<open>score_wallet\<close> (\<^verbatim>\<open>src/scoring.rs\<close>, lines 115 to 118),
  \<^verbatim>\<open>((age_days as f64).ln() * 3.0).min(15.0) as i32\<close>, and with it the whole wallet score in
  exact arithmetic. The logarithm is the platform's: all that is asked of it is
  \<open>ln_accurate\<close>, an absolute error of at most \<open>2 ^ -40\<close> on whole numbers (a correctly rounded
  or 1-ulp \<^verbatim>\<open>ln\<close> is within \<open>2 ^ -46\<close> there). Because \<open>3 * ln n\<close> is never within a thousandth of
  an integer from below or above except at \<open>n = 1\<close>, every such logarithm gives the same bonus.
\<close>

section \<open>Rounding and the exponential\<close>

lemma e_bounds: "2718281 / 1000000 \<le> exp (1::real)" "exp (1::real) \<le> 2718283 / 1000000"
proof -
  obtain t :: real where t: "\<bar>t\<bar> \<le> \<bar>1\<bar>"
    "exp 1 = (\<Sum>m<10. (1 ^ m) / (fact m)) + (exp t / (fact 10)) * 1 ^ 10"
    using Maclaurin_exp_le [of "1::real" 10] by blast
  have "exp t \<le> exp 1" using t(1) by simp
  then have b: "0 < exp t" "exp t \<le> 3" using exp_le by (simp, linarith)
  have s: "(\<Sum>m<10. 1 ^ m / fact m) = (98641 / 36288 :: real)"
    by (simp add: eval_nat_numeral lessThan_Suc fact_Suc)
  have f: "(fact 10 :: real) = 3628800" by (simp add: eval_nat_numeral fact_Suc)
  have num: "2718281 / 1000000 \<le> 98641 / 36288 + u / 3628800 * 1 ^ 10"
      "98641 / 36288 + u / 3628800 * 1 ^ 10 \<le> 2718283 / 1000000" if "0 < u" "u \<le> 3" for u :: real
    using that by simp_all
  show "2718281 / 1000000 \<le> exp (1::real)" "exp (1::real) \<le> 2718283 / 1000000"
    unfolding t(2) s f using num [OF b] by blast+
qed

lemma ln_above:
  assumes "(2718283 / 1000000) ^ k * (1001001 / 1000000) \<le> real m ^ 3" "0 < m" "m \<le> n"
  shows "real k + 1 / 1000 \<le> 3 * ln (real n)"
proof -
  have "exp (real k + 1 / 1000) = exp 1 ^ k * exp (1 / 1000 :: real)"
    by (simp add: exp_add exp_of_nat_mult [symmetric])
  also have "\<dots> \<le> (2718283 / 1000000) ^ k * (1001001 / 1000000)"
    using e_bounds(2) exp_bound [of "1 / 1000"]
    by (intro mult_mono power_mono) (simp_all add: power2_eq_square)
  also have "\<dots> \<le> real n ^ 3" using assms(1,3) power_mono [of "real m" "real n" 3] by linarith
  finally have "real k + 1 / 1000 \<le> ln (real n ^ 3)"
    using assms(2,3) by (subst ln_ge_iff) simp_all
  then show ?thesis using assms(2,3) by (simp add: ln_realpow)
qed

lemma ln_below:
  assumes "real m ^ 3 \<le> (2718281 / 1000000) ^ k * (999 / 1000)" "0 < n" "n \<le> m"
  shows "3 * ln (real n) \<le> real k - 1 / 1000"
proof -
  have "real n ^ 3 \<le> (2718281 / 1000000) ^ k * (999 / 1000)"
    using assms(1,3) power_mono [of "real n" "real m" 3] by linarith
  also have "\<dots> \<le> exp 1 ^ k * exp (- 1 / 1000 :: real)"
    using e_bounds(1) exp_ge_add_one_self [of "- 1 / 1000"]
    by (intro mult_mono power_mono) simp_all
  also have "\<dots> = exp (real k - 1 / 1000)"
    by (simp add: exp_add [symmetric] exp_of_nat_mult [symmetric])
  finally have "ln (real n ^ 3) \<le> real k - 1 / 1000"
    using assms(2) ln_le_cancel_iff [of "real n ^ 3" "exp (real k - 1 / 1000)"] by simp
  then show ?thesis using assms(2) by (simp add: ln_realpow)
qed

text \<open>For a whole number of days \<open>n\<close>, \<open>3 * ln n\<close> keeps a distance of a thousandth from every integer
  it could be truncated to, apart from the exact zero at \<open>n = 1\<close>.\<close>

lemma three_ln_gap:
  assumes "2 \<le> n"
  shows "3 * ln (real n) \<ge> 15 + 1 / 1000 \<or>
    (\<exists>k. 2 \<le> k \<and> k < 15 \<and> real k + 1 / 1000 \<le> 3 * ln (real n) \<and> 3 * ln (real n) \<le> real (k + 1) - 1 / 1000)"
proof -
  have between: "?thesis" if "2 \<le> k" "k < 15" "lo \<le> n" "n \<le> hi" "0 < lo"
    "(2718283 / 1000000) ^ k * (1001001 / 1000000) \<le> real lo ^ 3"
    "real hi ^ 3 \<le> (2718281 / 1000000) ^ (k + 1) * (999 / 1000)" for k lo hi
  proof -
    have "real k + 1 / 1000 \<le> 3 * ln (real n)" using that(6,5,3) by (rule ln_above)
    moreover have "0 < n" using that(3,5) by linarith
    then have "3 * ln (real n) \<le> real (k + 1) - 1 / 1000" using ln_below [OF that(7)] that(4) by blast
    ultimately show ?thesis using that(1,2) by blast
  qed
  consider "2 \<le> n" "n \<le> 2" | "3 \<le> n" "n \<le> 3" | "4 \<le> n" "n \<le> 5" | "6 \<le> n" "n \<le> 7"
    | "8 \<le> n" "n \<le> 10" | "11 \<le> n" "n \<le> 14" | "15 \<le> n" "n \<le> 20" | "21 \<le> n" "n \<le> 28"
    | "29 \<le> n" "n \<le> 39" | "40 \<le> n" "n \<le> 54" | "55 \<le> n" "n \<le> 76" | "77 \<le> n" "n \<le> 106"
    | "107 \<le> n" "n \<le> 148" | "149 \<le> n"
    using assms by atomize_elim presburger
  then show ?thesis
  proof cases
    case 1 then show ?thesis by (intro between [of 2 2 2]) (simp_all add: eval_nat_numeral)
  next case 2 then show ?thesis by (intro between [of 3 3 3]) (simp_all add: eval_nat_numeral)
  next case 3 then show ?thesis by (intro between [of 4 4 5]) (simp_all add: eval_nat_numeral)
  next case 4 then show ?thesis by (intro between [of 5 6 7]) (simp_all add: eval_nat_numeral)
  next case 5 then show ?thesis by (intro between [of 6 8 10]) (simp_all add: eval_nat_numeral)
  next case 6 then show ?thesis by (intro between [of 7 11 14]) (simp_all add: eval_nat_numeral)
  next case 7 then show ?thesis by (intro between [of 8 15 20]) (simp_all add: eval_nat_numeral)
  next case 8 then show ?thesis by (intro between [of 9 21 28]) (simp_all add: eval_nat_numeral)
  next case 9 then show ?thesis by (intro between [of 10 29 39]) (simp_all add: eval_nat_numeral)
  next case 10 then show ?thesis by (intro between [of 11 40 54]) (simp_all add: eval_nat_numeral)
  next case 11 then show ?thesis by (intro between [of 12 55 76]) (simp_all add: eval_nat_numeral)
  next case 12 then show ?thesis by (intro between [of 13 77 106]) (simp_all add: eval_nat_numeral)
  next case 13 then show ?thesis by (intro between [of 14 107 148]) (simp_all add: eval_nat_numeral)
  next case 14 then show ?thesis using ln_above [of 15 149 n] by (simp add: eval_nat_numeral)
  qed
qed

section \<open>The bonus\<close>

definition ln_accurate :: "(fl \<Rightarrow> fl) \<Rightarrow> bool" where
  "ln_accurate ln64 \<longleftrightarrow>
     (\<forall>n. 0 < n \<and> n < 2 ^ 53 \<longrightarrow>
        (\<exists>q. ln64 (Fin (of_nat n)) = Fin q \<and> \<bar>real_of_rat q - ln (real n)\<bar> \<le> 1 / 2 ^ 40))"

lemma floor_gap:
  assumes "\<bar>real_of_rat r - y\<bar> \<le> 1 / 2 ^ 38" "real k + 1 / 1000 \<le> y" "y \<le> real (k + 1) - 1 / 1000"
  shows "\<lfloor>r\<rfloor> = int k" "\<lfloor>y\<rfloor> = int k"
proof -
  have "real k \<le> real_of_rat r" "real_of_rat r < real (k + 1)"
  proof -
    have "1 / 2 ^ 38 < (1 / 1000 :: real)" by simp
    then show "real k \<le> real_of_rat r" "real_of_rat r < real (k + 1)"
      using assms unfolding abs_le_iff by linarith+
  qed
  then have "of_nat k \<le> r" "r < of_nat (k + 1)"
    by (metis of_rat_of_nat_eq of_rat_less_eq, metis of_rat_of_nat_eq of_rat_less)
  then show "\<lfloor>r\<rfloor> = int k" by (simp add: floor_eq_iff)
  show "\<lfloor>y\<rfloor> = int k" using assms(2,3) by (simp add: floor_eq_iff)
qed

lemma age_bonus_floor:
  assumes ln: "ln_accurate ln64" and n: "0 < n" "n < 2 ^ 53"
  shows "age_bonus ln64 n = min 15 \<lfloor>3 * ln (real n)\<rfloor>"
proof -
  obtain q where q: "ln64 (Fin (of_nat n)) = Fin q" "\<bar>real_of_rat q - ln (real n)\<bar> \<le> 1 / 2 ^ 40"
    using ln n by (auto simp: ln_accurate_def)
  have "ln (real n) \<le> 53"
  proof -
    have "ln (real n) \<le> ln (2 ^ 53)" using n by (subst ln_le_cancel_iff) (simp_all add: less_imp_le)
    also have "\<dots> = 53 * ln 2" by (subst ln_realpow) simp_all
    also have "\<dots> \<le> 53" using ln_2_less_1 by simp
    finally show ?thesis .
  qed
  moreover have "0 \<le> ln (real n)" using n by simp
  moreover have "1 / 2 ^ 40 \<le> (1::real)" by simp
  ultimately have "\<bar>real_of_rat q\<bar> \<le> 54" using q(2) unfolding abs_le_iff by linarith
  then have "\<bar>q\<bar> \<le> 54"
    by (metis abs_of_rat of_rat_less_eq of_rat_numeral_eq)
  then have "\<bar>q * 3\<bar> < 1024" by (simp add: abs_mult)
  then obtain r where r: "fround F64 (q * 3) = Fin r" "\<bar>r - q * 3\<bar> \<le> 1 / 2 ^ 43"
    using fround_F64_close by blast
  have "real_of_rat \<bar>r - q * 3\<bar> \<le> real_of_rat (1 / 2 ^ 43)" using r(2) by (simp only: of_rat_less_eq)
  then have "\<bar>real_of_rat r - real_of_rat q * 3\<bar> \<le> 1 / 2 ^ 43"
    by (simp add: of_rat_diff of_rat_mult of_rat_divide flip: abs_of_rat)
  moreover have "3 * (1 / 2 ^ 40) + 1 / 2 ^ 43 \<le> (1 / 2 ^ 38 :: real)" by simp
  ultimately have d: "\<bar>real_of_rat r - 3 * ln (real n)\<bar> \<le> 1 / 2 ^ 38"
    using q(2) unfolding abs_le_iff by linarith
  have e: "1 / 2 ^ 38 < (1 / 1000 :: real)" by simp
  have b: "age_bonus ln64 n = clamp (- (2 ^ 31)) (2 ^ 31 - 1) (rat_trunc (min r 15))"
    using fround_F64_nat [OF n(2)] q(1) r(1)
    by (simp add: age_bonus_def f_as_i32_def fmin_def min_def)
  show ?thesis
  proof (cases "n = 1")
    case True
    then have "\<bar>real_of_rat r\<bar> \<le> 1 / 2 ^ 38" using d by (simp only: of_nat_1 ln_one mult_zero_right diff_zero)
    with e have "\<bar>real_of_rat r\<bar> < 1" by linarith
    then have "\<bar>r\<bar> < 1" by (metis of_rat_1 abs_of_rat of_rat_less)
    then have "rat_trunc (min r 15) = 0" by (auto simp: rat_trunc_def floor_eq_iff)
    then show ?thesis using True b by (simp add: clamp_def)
  next
    case False
    with n have "2 \<le> n" by simp
    then consider "15 + 1 / 1000 \<le> 3 * ln (real n)"
      | k where "2 \<le> k" "k < 15" "real k + 1 / 1000 \<le> 3 * ln (real n)" "3 * ln (real n) \<le> real (k + 1) - 1 / 1000"
      using three_ln_gap by blast
    then show ?thesis
    proof cases
      case 1
      then have "15 < real_of_rat r" using d e unfolding abs_le_iff by linarith
      then have "15 < r" by (metis of_rat_less of_rat_numeral_eq)
      moreover have "15 \<le> \<lfloor>3 * ln (real n)\<rfloor>" using 1 by (simp add: le_floor_iff)
      ultimately show ?thesis using b by (simp add: rat_trunc_def clamp_def)
    next
      case 2
      note fl = floor_gap [OF d 2(3,4)]
      have "r < 15" using fl(1) 2(2) by (simp add: floor_eq_iff)
      moreover have "0 \<le> r" using fl(1) 2(1) by (simp add: floor_eq_iff)
      ultimately have "rat_trunc (min r 15) = int k" using fl(1) by (simp add: rat_trunc_def)
      then show ?thesis using b fl(2) 2(2) by (simp add: clamp_def)
    qed
  qed
qed

section \<open>The wallet score in exact arithmetic\<close>

definition age_credit :: "nat \<Rightarrow> int" where
  "age_credit days = (if 0 < days then min 15 \<lfloor>3 * ln (real days)\<rfloor> else 0)"

lemma age_credit_bounds: "0 \<le> age_credit n \<and> age_credit n \<le> 15"
  by (auto simp: age_credit_def le_floor_iff)

abbreviation weight_sum :: "label_entry list \<Rightarrow> int" where
  "weight_sum es \<equiv> sum_list (map le_weight es)"

abbreviation weight_mass :: "label_entry list \<Rightarrow> int" where
  "weight_mass es \<equiv> sum_list (map (\<lambda>e. \<bar>le_weight e\<bar>) es)"

lemma weight_mass_nonneg: "0 \<le> weight_mass es"
  by (induction es) auto

lemma weight_sum_mass: "\<bar>weight_sum es\<bar> \<le> weight_mass es"
  by (induction es) auto

lemma fold_add_exact:
  "\<bar>s\<bar> + weight_mass es < 2 ^ 31 \<Longrightarrow> foldl (\<lambda>s e. add_i32 s (le_weight e)) s es = s + weight_sum es"
proof (induction es arbitrary: s)
  case (Cons e es)
  have m: "0 \<le> weight_mass es" by (rule weight_mass_nonneg)
  then have "add_i32 s (le_weight e) = s + le_weight e"
    using Cons.prems by (intro add_i32_id) auto
  then show ?case using Cons by simp
qed simp

lemma deny_fold_score:
  "fst (foldl deny_step t es) = foldl (\<lambda>s e. add_i32 s (le_weight e)) (fst t) es"
  by (induction es arbitrary: t) (simp_all add: deny_step_def bump_def)

definition wallet_raw_sum :: "label_entry list \<Rightarrow> label_entry list \<Rightarrow> chain_signals \<Rightarrow> int" where
  "wallet_raw_sum deny_hits allow_hits sg =
     signal_sum sg + weight_sum deny_hits - age_credit (age_days sg)
     - of_bool_i (active_counterparties sg) 10 + weight_sum allow_hits"

lemma wallet_tally_exact:
  assumes "ln_accurate ln64" "age_days sg < 2 ^ 53"
    and small: "weight_mass deny_hits + weight_mass allow_hits < 2000000000"
  shows "fst (wallet_tally ln64 deny_hits allow_hits sg) = wallet_raw_sum deny_hits allow_hits sg"
proof -
  let ?s1 = "signal_sum sg + weight_sum deny_hits"
  let ?s3 = "?s1 - age_credit (age_days sg) - of_bool_i (active_counterparties sg) 10"
  note b = signal_sum_bounds [of sg] weight_mass_nonneg [of deny_hits] weight_mass_nonneg [of allow_hits]
    weight_sum_mass [of deny_hits] age_credit_bounds [of "age_days sg"]
  have s1: "fst (foldl deny_step (signal_tally sg) deny_hits) = ?s1"
    unfolding deny_fold_score signal_tally_score using b small by (intro fold_add_exact) auto
  have credit: "0 < age_days sg \<Longrightarrow> age_bonus ln64 (age_days sg) = age_credit (age_days sg)"
    using assms(1,2) by (simp add: age_credit_def age_bonus_floor)
  have s2: "(if 0 < age_days sg then wrap_i32 (?s1 - age_bonus ln64 (age_days sg)) else ?s1)
      = ?s1 - age_credit (age_days sg)"
  proof (cases "0 < age_days sg")
    case True
    then show ?thesis unfolding credit [OF True] using b small by (simp, intro wrap_i32_id) auto
  next
    case False
    then show ?thesis by (simp add: age_credit_def)
  qed
  have s3: "(if active_counterparties sg then wrap_i32 (?s1 - age_credit (age_days sg) - 10)
      else ?s1 - age_credit (age_days sg)) = ?s3"
    using b small by (simp add: of_bool_i_def, intro impI wrap_i32_id) auto
  have "foldl (\<lambda>s e. add_i32 s (le_weight e)) ?s3 allow_hits = ?s3 + weight_sum allow_hits"
    using b small by (intro fold_add_exact) (auto simp: of_bool_i_def)
  then show ?thesis
    by (simp only: wallet_tally_def case_prod_unfold Let_def fst_conv s1 s2 s3 wallet_raw_sum_def)
qed

end
