(* ===== verification/Models.thy ===== *)
theory Models
  imports Scoring Scoring_Tx Token
begin

text \<open>
  The data the HTTP side passes around: \<^verbatim>\<open>src/error.rs\<close>, \<^verbatim>\<open>src/x402/models.rs\<close>, the accept
  specs of \<^verbatim>\<open>src/x402/pricing.rs\<close>, the JWT claims, the auth outcomes of \<^verbatim>\<open>src/auth/dual.rs\<close>, and
  the JSON that serde derives for the results of the scorers. A derived serializer writes
  one member per field, in the order of the struct; \<^verbatim>\<open>None\<close> is null unless it is skipped.
\<close>

section \<open>Errors\<close>

datatype err =
    BadRequest string
  | Unauthorized string
  | NotFound string
  | PaymentRequiredErr string
  | Internal string

fun err_display :: "err \<Rightarrow> string" where
  "err_display (BadRequest m) = ''Bad Request: '' @ m"
| "err_display (Unauthorized m) = ''Unauthorized: '' @ m"
| "err_display (NotFound m) = ''Not Found: '' @ m"
| "err_display (PaymentRequiredErr m) = ''Payment Required: '' @ m"
| "err_display (Internal m) = ''Internal Error: '' @ m"

fun err_message :: "err \<Rightarrow> string" where
  "err_message (BadRequest m) = m"
| "err_message (Unauthorized m) = m"
| "err_message (NotFound m) = m"
| "err_message (PaymentRequiredErr m) = m"
| "err_message (Internal m) = m"

fun err_status :: "err \<Rightarrow> nat" where
  "err_status (BadRequest m) = 400"
| "err_status (Unauthorized m) = 401"
| "err_status (NotFound m) = 404"
| "err_status (PaymentRequiredErr m) = 402"
| "err_status (Internal m) = 500"

section \<open>x402\<close>

record resource_info =
  ri_url :: string
  ri_description :: string
  ri_mime_type :: string

record requirements_line =
  rl_scheme :: string
  rl_network :: string
  rl_asset :: string
  rl_amount :: string
  rl_pay_to :: string
  rl_max_timeout :: nat
  rl_extra :: "json option"

record payment_required =
  pr_version :: nat
  pr_error :: "string option"
  pr_resource :: resource_info
  pr_accepts :: "json list"
  pr_extensions :: json

definition with_error :: "string \<Rightarrow> payment_required \<Rightarrow> payment_required" where
  "with_error m pr = pr\<lparr>pr_error := Some m\<rparr>"

record supported_kind =
  sk_version :: nat
  sk_scheme :: string
  sk_network :: string
  sk_extra :: "json option"

record supported_response =
  sup_kinds :: "supported_kind list"
  sup_extensions :: "string list"
  sup_signers :: "(string \<times> string list) list"

record accept_spec =
  as_kind :: string
  as_mint :: "string option"
  as_amount_ui :: string
  as_decimals :: "nat option"

text \<open>A settlement proof is the facilitator's settle response.\<close>

record settlement_proof =
  sp_response :: json

section \<open>Authentication outcomes\<close>

record claims =
  cl_payer :: string
  cl_tier :: string
  cl_sub :: string
  cl_iat :: int
  cl_exp :: int

datatype data_auth =
    Subscription string string claims
  | PerCall "settlement_proof option"

datatype payment_gate_error =
    Required payment_required
  | RequirementsUnavailable string

datatype data_auth_error =
    UnauthorizedErr string string
  | RateLimited string string
  | PaymentErr payment_gate_error

section \<open>Derived JSON\<close>

definition opt_json :: "('a \<Rightarrow> json) \<Rightarrow> 'a option \<Rightarrow> json" where
  "opt_json f o' = (case o' of None \<Rightarrow> JNull | Some x \<Rightarrow> f x)"

definition int_json :: "int \<Rightarrow> json" where
  "int_json i = (if i < 0 then JNeg i else JPos (nat i))"

definition float_json :: "fl \<Rightarrow> json" where
  "float_json x = (case x of Fin r \<Rightarrow> JFloat (Fin r) | _ \<Rightarrow> JNull)"

definition strs_json :: "string list \<Rightarrow> json" where
  "strs_json xs = JArr (map JStr xs)"

definition hit_json :: "tx_label_hit \<Rightarrow> json" where
  "hit_json h = JObj [(''program'', JStr (lh_program h)), (''source'', JStr (lh_source h)),
                      (''label'', JStr (lh_label h))]"

definition hop_json :: "funding_hop \<Rightarrow> json" where
  "hop_json h = JObj [(''address'', JStr (fh_address h)), (''hop'', JPos (fh_hop h)),
                      (''labels'', JArr (map hit_json (fh_labels h)))]"

definition chain_signals_json :: "chain_signals \<Rightarrow> json" where
  "chain_signals_json g = JObj
     [(''age_days'', JPos (age_days g)),
      (''tx_count_total'', JPos (tx_count_total g)),
      (''tx_count_30d'', JPos (tx_count_30d g)),
      (''unique_counterparties_30d'', opt_json JPos (unique_counterparties_30d g)),
      (''sol_balance_lamports'', JPos (unat (sol_balance_lamports g))),
      (''spl_account_count'', JPos (spl_account_count g)),
      (''has_activity_48h'', JBool (has_activity_48h g)),
      (''program_diversity_30d'', opt_json JPos (program_diversity_30d g)),
      (''is_fresh_funded'', JBool (is_fresh_funded g)),
      (''funding_source_risk'', JStr (funding_source_risk g)),
      (''funder'', opt_json JStr (funder g)),
      (''funder_labels'', JArr (map hit_json (funder_labels g))),
      (''funding_chain'', JArr (map hop_json (funding_chain g))),
      (''counterparty_labels'', JArr (map hit_json (counterparty_labels g))),
      (''first_seen_ts'', int_json (first_seen_ts g)),
      (''latest_tx_ts'', int_json (latest_tx_ts g)),
      (''counterparty_metrics_estimated'', JBool (counterparty_metrics_estimated g)),
      (''sig_pages_fetched'', JPos (sig_pages_fetched g))]"

definition label_match_json :: "label_match \<Rightarrow> json" where
  "label_match_json m = JObj [(''source'', JStr (lm_source m)), (''label'', JStr (lm_label m)),
                              (''weight'', int_json (lm_weight m))]"

definition token_signals_json :: "token_signals \<Rightarrow> json" where
  "token_signals_json g = JObj
     [(''mint_authority_revoked'', JBool (mint_authority_revoked g)),
      (''freeze_authority_set'', JBool (freeze_authority_set g)),
      (''top10_holder_pct'', float_json (top10_holder_pct g)),
      (''supply_ui'', float_json (supply_ui g)),
      (''decimals'', JPos (unat (decimals g))),
      (''mint_age_days'', JPos (mint_age_days g)),
      (''metadata_mutable'', JBool (metadata_mutable g)),
      (''low_confidence'', JBool (low_confidence g)),
      (''liquidity_checked'', JBool (liquidity_checked g))]"

definition token_change_json :: "token_change \<Rightarrow> json" where
  "token_change_json c = JObj [(''mint'', JStr (tc_mint c)), (''delta_raw'', int_json (tc_delta_raw c))]"

definition tx_signals_json :: "tx_signals \<Rightarrow> json" where
  "tx_signals_json g = JObj
     [(''fee_payer'', opt_json JStr (fee_payer g)),
      (''subject'', opt_json JStr (subject g)),
      (''instruction_count'', JPos (instruction_count g)),
      (''programs'', strs_json (programs g)),
      (''uses_lookup_tables'', JBool (uses_lookup_tables g)),
      (''simulated'', JBool (simulated g)),
      (''simulation_error'', opt_json JStr (simulation_error g)),
      (''net_sol_change_lamports'', opt_json int_json (net_sol_change_lamports g)),
      (''net_token_changes'', JArr (map token_change_json (net_token_changes g))),
      (''deny_program_hits'', JArr (map hit_json (deny_program_hits g))),
      (''authority_handoffs'', strs_json (authority_handoffs g)),
      (''delegations'', JPos (delegations g)),
      (''close_accounts'', JPos (close_accounts g)),
      (''unknown_programs'', strs_json (unknown_programs g))]"

definition resource_json :: "resource_info \<Rightarrow> json" where
  "resource_json r = JObj [(''url'', JStr (ri_url r)), (''description'', JStr (ri_description r)),
                           (''mimeType'', JStr (ri_mime_type r))]"

definition line_json :: "requirements_line \<Rightarrow> json" where
  "line_json l = JObj
     ([(''scheme'', JStr (rl_scheme l)), (''network'', JStr (rl_network l)),
       (''asset'', JStr (rl_asset l)), (''amount'', JStr (rl_amount l)),
       (''payTo'', JStr (rl_pay_to l)), (''maxTimeoutSeconds'', JPos (rl_max_timeout l))]
      @ (case rl_extra l of None \<Rightarrow> [] | Some x \<Rightarrow> [(''extra'', x)]))"

definition payment_required_json :: "payment_required \<Rightarrow> json" where
  "payment_required_json p = JObj
     ([(''x402Version'', JPos (pr_version p))]
      @ (case pr_error p of None \<Rightarrow> [] | Some m \<Rightarrow> [(''error'', JStr m)])
      @ [(''resource'', resource_json (pr_resource p)),
         (''accepts'', JArr (pr_accepts p)),
         (''extensions'', pr_extensions p)])"

definition label_coverage_json :: "label_coverage \<Rightarrow> json" where
  "label_coverage_json c = JObj
     [(''deny_count'', JPos (deny_count c)), (''allow_count'', JPos (allow_count c)),
      (''sources'', strs_json (cov_sources c)),
      (''last_refresh_hint'',
        JStr ''JSONL compile-time fallback; DB overrides when DATABASE_URL set (TTL 300s)'')]"

lemma is_obj_line_json [simp]: "is_obj (line_json l)"
  by (simp add: line_json_def)

end
