(* ===== verification/World.thy ===== *)
theory World
  imports Models
begin

text \<open>
  The process and its surroundings for the HTTP side: the third-party text formats and
  tokens (\<open>web\<close>), the configuration (\<^verbatim>\<open>src/config.rs\<close>), the service environment, the tables of
  the Postgres database and the process-wide caches. \<open>world\<close> extends \<open>sys\<close> (clock and effect
  log), so every signal collector runs on it unchanged.

  Requests are handled one after the other: a handler is a function on the world. Times of
  the process are nanoseconds; Postgres times are microseconds on the server's own clock.
\<close>

section \<open>Requests and responses\<close>

type_synonym headers = "(string \<times> string) list"

text \<open>\<^verbatim>\<open>HeaderMap\<close>: names are stored in lower case and looked up case-insensitively; a lookup
  gives the first value.\<close>

definition header_get :: "headers \<Rightarrow> string \<Rightarrow> string option" where
  "header_get h name = map_of h (to_lower name)"

text \<open>\<^verbatim>\<open>HeaderValue::to_str\<close>: only visible ASCII and tabs.\<close>

definition visible_char :: "char \<Rightarrow> bool" where
  "visible_char c = (let n = of_char c :: nat in (32 \<le> n \<and> n < 127) \<or> n = 9)"

definition to_str :: "string \<Rightarrow> string option" where
  "to_str v = (if list_all visible_char v then Some v else None)"

datatype body = BText string | BEmpty

record response =
  rs_status :: nat
  rs_headers :: headers
  rs_body :: body

definition response_header :: "response \<Rightarrow> string \<Rightarrow> string option" where
  "response_header r name = map_of (rs_headers r) name"

record http_request =
  hq_post :: bool
  hq_url :: string
  hq_query :: "(string \<times> string) list"
  hq_body :: "json option"

text \<open>A reply of the facilitator: no response, or a status and the body text, if it could be read.\<close>

datatype http_reply = HttpErr string | HttpResp nat "string + string"

section \<open>Third-party functions of the HTTP side\<close>

record web =
  j_parse :: "string \<Rightarrow> string + json"
  j_show :: "json \<Rightarrow> string"
  b64_encode :: "string \<Rightarrow> string"
  b64_text :: "string \<Rightarrow> string option"
  utf8_ok :: "string \<Rightarrow> bool"
  rfc3339 :: "int \<Rightarrow> string"
  accepts_of_json :: "string \<Rightarrow> string + accept_spec list"
  supported_of_json :: "string \<Rightarrow> string + supported_response"
  jwt_encode :: "string \<Rightarrow> claims \<Rightarrow> string + string"
  jwt_decode :: "string \<Rightarrow> int \<Rightarrow> string \<Rightarrow> string + claims"
  chrono_ts_ok :: "int \<Rightarrow> bool"
  label_of_json :: "string \<Rightarrow> label_entry option"
  status_display :: "nat \<Rightarrow> string"

section \<open>Configuration\<close>

record config =
  solana_rpc_url :: string
  x402_facilitator_url :: string
  x402_network :: string
  x402_pay_to :: string
  x402_merchant_wallet :: "string option"
  x402_scheme :: string
  x402_timeout_sec :: nat
  x402_legacy_usdc_amount :: "fl option"

definition SOLANA_MAINNET :: string where
  "SOLANA_MAINNET = ''solana:5eykt4UsFv8P8NJdTREpY1vzqKqZKvdp''"

definition config_from_env :: "(string \<Rightarrow> string option) \<Rightarrow> err + config" where
  "config_from_env getenv =
     (case getenv ''X402_FACILITATOR_URL'' of
        None \<Rightarrow> Inl (Internal ''X402_FACILITATOR_URL required (e.g. https://<host>/api/v1/facilitator for pr402)'')
      | Some furl \<Rightarrow>
          (case or_else (getenv ''X402_PAY_TO'') (getenv ''X402_PAY_TO_WALLET'') of
             None \<Rightarrow> Inl (Internal ''X402_PAY_TO not set (must be a SplitVault or Escrow PDA)'')
           | Some pay_to \<Rightarrow>
               Inr \<lparr>solana_rpc_url = unwrap_or (getenv ''RPC_URL'') ''https://api.mainnet-beta.solana.com'',
                    x402_facilitator_url = furl,
                    x402_network = unwrap_or (getenv ''X402_NETWORK'') SOLANA_MAINNET,
                    x402_pay_to = pay_to,
                    x402_merchant_wallet =
                      or_else (getenv ''X402_MERCHANT_WALLET'')
                        (or_else (getenv ''MERCHANT_WALLET'') (getenv ''SELLER_WALLET'')),
                    x402_scheme = unwrap_or (getenv ''X402_SCHEME'') ''exact'',
                    x402_timeout_sec =
                      unwrap_or (Option.bind (getenv ''X402_PAYMENT_TIMEOUT_SECONDS'') (parse_unsigned (2 ^ 64))) 300,
                    x402_legacy_usdc_amount =
                      Option.bind (getenv ''X402_PAYMENT_AMOUNT_USDC'') parse_f64\<rparr>))"

definition x402_resource_url :: "(string \<Rightarrow> string option) \<Rightarrow> string" where
  "x402_resource_url getenv =
     unwrap_or (getenv ''X402_RESOURCE_URL'') ''https://solrisk.signer-payer.me/api/v1/wallet-risk''"

definition cluster_label :: "config \<Rightarrow> string" where
  "cluster_label cfg =
     (let n = to_lower (x402_network cfg)
      in if contains n ''devnet'' \<or> contains n ''etwtrab'' then ''devnet'' else ''mainnet'')"

definition resource_url_for_request ::
    "(string \<Rightarrow> string option) \<Rightarrow> headers \<Rightarrow> string \<Rightarrow> string \<Rightarrow> string" where
  "resource_url_for_request getenv h path query =
     (let host = opt_filter (\<lambda>x. x \<noteq> [])
                   (Option.bind (or_else (header_get h ''x-forwarded-host'') (header_get h ''host'')) to_str);
          proto = unwrap_or (Option.bind (header_get h ''x-forwarded-proto'') to_str) ''https''
      in case host of
           Some hst \<Rightarrow>
             proto @ ''://'' @ hst @ (if query = [] then path else path @ ''?'' @ query)
         | None \<Rightarrow> x402_resource_url getenv)"

section \<open>The database tables\<close>

record param_row =
  pm_service :: string
  pm_endpoint :: string
  pm_name :: string
  pm_value :: string
  pm_inactive :: bool
  pm_from :: "int option"
  pm_expires :: "int option"

record sub_row =
  sb_payer :: string
  sb_tier :: string
  sb_issued_at :: int
  sb_expires_at :: int
  sb_tx_sig :: "string option"
  sb_revoked :: bool

record cache_row =
  ca_endpoint :: string
  ca_subject :: string
  ca_score :: int
  ca_band :: string
  ca_response :: json
  ca_version :: string
  ca_cached_at :: int
  ca_expires_at :: int

record log_row =
  lg_endpoint :: string
  lg_subject :: string
  lg_score :: int
  lg_band :: string
  lg_version :: string
  lg_signals :: "json option"
  lg_payer :: "string option"
  lg_correlation_id :: "string option"
  lg_settlement_sig :: "string option"

record tables =
  t_params :: "param_row list"
  t_subs :: "sub_row list"
  t_rate :: "((string \<times> int) \<times> int) list"
  t_labels :: "label_entry list"
  t_cache :: "cache_row list"
  t_log :: "log_row list"

section \<open>Process state and environment\<close>

record param_cache =
  pc_map :: "(string \<times> string) list"
  pc_last_fetch :: "nat option"

text \<open>A pooled connection, and whether a transaction may be open on it.\<close>

record pg_client =
  cl_in_tx :: bool

record world = sys +
  w_tables :: tables
  w_pool :: "pg_client list"
  w_labels :: label_cache
  w_params :: param_cache
  w_health :: "(bool \<times> nat) option"

text \<open>The outcome of one wire step to Postgres under its client-side timeout.\<close>

datatype wire = WOk | WErr string | WTimeout

record svc_env = env +
  e_web :: web
  e_cfg :: config
  e_has_db :: bool
  e_http :: "nat \<Rightarrow> http_request \<Rightarrow> http_reply"
  e_wire :: "nat \<Rightarrow> wire"
  e_applied :: "nat \<Rightarrow> bool"
  e_pgnow :: "nat \<Rightarrow> int"
  e_order_params :: "param_row list \<Rightarrow> param_row list"
  e_order_labels :: "label_entry list \<Rightarrow> label_entry list"
  e_ln :: "fl \<Rightarrow> fl"
  e_denylist :: string
  e_allowlist :: string

definition empty_tables :: tables where
  "empty_tables = \<lparr>t_params = [], t_subs = [], t_rate = [], t_labels = [], t_cache = [], t_log = []\<rparr>"

text \<open>A cold start: empty caches, the compile-time label files, no pooled connection.\<close>

definition cold_start :: "'e svc_env_scheme \<Rightarrow> tables \<Rightarrow> nat \<Rightarrow> world" where
  "cold_start E t now =
     \<lparr>s_now = now, s_log = [], w_tables = t, w_pool = [],
      w_labels = static_label_cache (label_of_json (e_web E)) (e_denylist E) (e_allowlist E),
      w_params = \<lparr>pc_map = [], pc_last_fetch = None\<rparr>, w_health = None\<rparr>"

text \<open>What a step that only performs effects leaves unchanged.\<close>

lemma grows_world:
  assumes "grows P s (t :: 'a world_scheme)"
  shows "w_tables t = w_tables s" "w_pool t = w_pool s" "w_labels t = w_labels s"
    "w_params t = w_params s" "w_health t = w_health s"
proof -
  have "sys.more t = sys.more s" using assms by (rule grows_more)
  then show "w_tables t = w_tables s" "w_pool t = w_pool s" "w_labels t = w_labels s"
    "w_params t = w_params s" "w_health t = w_health s"
    by (cases s; cases t; simp)+
qed

end
