(* ===== verification/Db.thy ===== *)
theory Db
  imports World
begin

text \<open>
  \<^verbatim>\<open>src/db.rs\<close>: every SQL statement runs in its own transaction on a pooled connection, with a
  client-side timeout on each wire step. A step that fails or times out makes the code
  discard the connection, so the server rolls the transaction back; the tables change at
  COMMIT only. A COMMIT whose reply is lost may have been applied or not: that is the
  environment's choice (\<open>e_applied\<close>).

  The SQL statements themselves are translated to functions on the tables. \<^verbatim>\<open>NOW()\<close> is the
  server's time at BEGIN. The locale \<open>db_op\<close> states what the callers rely on: the operation
  applies its statement once, or reports an error and applies it at most once.
\<close>

section \<open>Connections and wire steps\<close>

definition wire_step :: "'e svc_env_scheme \<Rightarrow> string \<Rightarrow> 'a world_scheme \<Rightarrow> wire \<times> 'a world_scheme" where
  "wire_step E label s = perform (e_dur E) (EDb label) (e_wire E) s"

text \<open>\<^verbatim>\<open>timeout(d, step).await\<close> mapped to an error: the text for a timeout and for a failure.\<close>

definition step_result :: "wire \<Rightarrow> string \<Rightarrow> string \<Rightarrow> err + unit" where
  "step_result w timed_out failed =
     (case w of
        WOk \<Rightarrow> Inr ()
      | WErr e \<Rightarrow> Inl (Internal (failed @ e))
      | WTimeout \<Rightarrow> Inl (Internal timed_out))"

text \<open>A connection comes from the pool (recycled clean of session state, not of an open
  transaction) or is created.\<close>

definition conn :: "'e svc_env_scheme \<Rightarrow> 'a world_scheme \<Rightarrow> (err + pg_client) \<times> 'a world_scheme" where
  "conn E s =
     (let (w, s1) = wire_step E ''pool get'' s
      in case step_result w ''db pool get timed out after 20s'' ''db pool: '' of
           Inl e \<Rightarrow> (Inl e, s1)
         | Inr _ \<Rightarrow>
             (case w_pool s1 of
                [] \<Rightarrow> (Inr \<lparr>cl_in_tx = False\<rparr>, s1)
              | c # cs \<Rightarrow> (Inr c, s1\<lparr>w_pool := cs\<rparr>)))"

text \<open>Dropping a \<^verbatim>\<open>Client\<close> returns it to the pool; \<^verbatim>\<open>discard_client\<close> takes it out for good.\<close>

definition return_client :: "pg_client \<Rightarrow> 'a world_scheme \<Rightarrow> 'a world_scheme" where
  "return_client c s = s\<lparr>w_pool := c # w_pool s\<rparr>"

definition discard_client :: "pg_client \<Rightarrow> 'a world_scheme \<Rightarrow> 'a world_scheme" where
  "discard_client c s = s"

definition ping :: "'e svc_env_scheme \<Rightarrow> 'a world_scheme \<Rightarrow> (err + unit) \<times> 'a world_scheme" where
  "ping E s =
     (let (c, s1) = conn E s
      in case c of
           Inl e \<Rightarrow> (Inl e, s1)
         | Inr client \<Rightarrow>
             (let (w, s2) = wire_step E ''health ping'' s1
              in case step_result w ''health ping timed out after 8s'' ''health ping failed: '' of
                   Inl e \<Rightarrow> (Inl e, discard_client client s2)
                 | Inr _ \<Rightarrow> (Inr (), return_client client s2)))"

section \<open>Transactions\<close>

text \<open>BEGIN leaves a transaction open unless it is known not to have reached the server; the code
  treats every failing outcome alike, and so does the model.\<close>

definition begin_transaction ::
    "'e svc_env_scheme \<Rightarrow> string \<Rightarrow> pg_client \<Rightarrow> 'a world_scheme
     \<Rightarrow> (err + unit) \<times> pg_client \<times> 'a world_scheme" where
  "begin_transaction E label c s =
     (let (w, s1) = wire_step E ''BEGIN'' s
      in (step_result w
            (label @ '' transaction start timed out after 20s (pool connection may be stale)'')
            (label @ '' transaction start failed: ''),
          c\<lparr>cl_in_tx := True\<rparr>, s1))"

definition set_statement_timeout_local ::
    "'e svc_env_scheme \<Rightarrow> 'a world_scheme \<Rightarrow> (err + unit) \<times> 'a world_scheme" where
  "set_statement_timeout_local E s =
     (let (w, s1) = wire_step E ''SET LOCAL'' s
      in (step_result w ''SET LOCAL statement_timeout timed out after 5s''
            ''SET LOCAL statement_timeout failed: '', s1))"

definition deallocate_prepared ::
    "'e svc_env_scheme \<Rightarrow> 'a world_scheme \<Rightarrow> (err + unit) \<times> 'a world_scheme" where
  "deallocate_prepared E s =
     (let (w, s1) = wire_step E ''DEALLOCATE ALL'' s
      in (step_result w ''DEALLOCATE ALL timed out after 5s'' ''DEALLOCATE ALL failed: '', s1))"

text \<open>The result carries the server time of the transaction.\<close>

definition open_transaction ::
    "'e svc_env_scheme \<Rightarrow> string \<Rightarrow> pg_client \<Rightarrow> 'a world_scheme
     \<Rightarrow> (err + int) \<times> pg_client \<times> 'a world_scheme" where
  "open_transaction E label c s =
     (let now = e_pgnow E (length (s_log s)); (r, c1, s1) = begin_transaction E label c s
      in case r of
           Inl e \<Rightarrow> (Inl e, c1, s1)
         | Inr _ \<Rightarrow>
             (let (r2, s2) = set_statement_timeout_local E s1
              in case r2 of
                   Inl e \<Rightarrow> (Inl e, c1, s2)
                 | Inr _ \<Rightarrow>
                     (let (r3, s3) = deallocate_prepared E s2
                      in case r3 of
                           Inl e \<Rightarrow> (Inl e, c1, s3)
                         | Inr _ \<Rightarrow> (Inr now, c1, s3))))"

text \<open>COMMIT of the working copy \<open>t\<close>. When it fails, the copy may have been installed all the same.\<close>

definition commit_transaction ::
    "'e svc_env_scheme \<Rightarrow> string \<Rightarrow> tables \<Rightarrow> pg_client \<Rightarrow> 'a world_scheme
     \<Rightarrow> (err + unit) \<times> pg_client \<times> 'a world_scheme" where
  "commit_transaction E label t c s =
     (let k = length (s_log s); (w, s1) = wire_step E ''COMMIT'' s
      in (step_result w (label @ '' commit timed out after 60s'') (label @ '' commit failed: ''),
          (if w = WOk then c\<lparr>cl_in_tx := False\<rparr> else c),
          (if w = WOk \<or> e_applied E k then s1\<lparr>w_tables := t\<rparr> else s1)))"

text \<open>\<^verbatim>\<open>exec_in_tx\<close>, \<^verbatim>\<open>query_opt_in_tx\<close> and \<^verbatim>\<open>query_in_tx\<close>: one statement, given as its result and
  its effect on the tables at server time \<open>now\<close>.\<close>

definition in_tx ::
    "'e svc_env_scheme \<Rightarrow> pg_client \<Rightarrow> (int \<Rightarrow> tables \<Rightarrow> 'r \<times> tables) \<Rightarrow> string
     \<Rightarrow> 'a world_scheme \<Rightarrow> (err + 'r) \<times> 'a world_scheme" where
  "in_tx E client stmt label s =
     (let (o1, c1, s1) = open_transaction E label client s
      in case o1 of
           Inl e \<Rightarrow> (Inl e, discard_client c1 s1)
         | Inr now \<Rightarrow>
             (let (w, s2) = wire_step E label s1
              in case step_result w (label @ '' timed out after 60s'') (label @ '' query failed: '') of
                   Inl e \<Rightarrow> (Inl e, discard_client c1 s2)
                 | Inr _ \<Rightarrow>
                     (let (r, t) = stmt now (w_tables s2);
                          (o2, c2, s3) = commit_transaction E label t c1 s2
                      in case o2 of
                           Inl e \<Rightarrow> (Inl e, discard_client c2 s3)
                         | Inr _ \<Rightarrow> (Inr r, return_client c2 s3))))"

definition exec_in_tx where "exec_in_tx = in_tx"
definition query_opt_in_tx where "query_opt_in_tx = in_tx"
definition query_in_tx where "query_in_tx = in_tx"

text \<open>Get a connection, then run the statement on it.\<close>

definition run_tx ::
    "'e svc_env_scheme \<Rightarrow> (int \<Rightarrow> tables \<Rightarrow> 'r \<times> tables) \<Rightarrow> string
     \<Rightarrow> 'a world_scheme \<Rightarrow> (err + 'r) \<times> 'a world_scheme" where
  "run_tx E stmt label s =
     (let (c, s1) = conn E s
      in case c of Inl e \<Rightarrow> (Inl e, s1) | Inr client \<Rightarrow> in_tx E client stmt label s1)"

section \<open>Statements\<close>

definition live_param :: "int \<Rightarrow> param_row \<Rightarrow> bool" where
  "live_param now r =
     (\<not> pm_inactive r
      \<and> (case pm_from r of None \<Rightarrow> True | Some f \<Rightarrow> f \<le> now)
      \<and> (case pm_expires r of None \<Rightarrow> True | Some x \<Rightarrow> x > now))"

definition select_params_v2 where
  "select_params_v2 (E :: 'e svc_env_scheme) service now (t :: tables) =
     (map (\<lambda>r. (pm_endpoint r, pm_name r, pm_value r))
        (e_order_params E (filter (\<lambda>r. pm_service r = service \<and> live_param now r) (t_params t))), t)"

definition select_params_legacy where
  "select_params_legacy (E :: 'e svc_env_scheme) now (t :: tables) =
     (map (\<lambda>r. (''*'', pm_name r, pm_value r))
        (e_order_params E (filter (live_param now) (t_params t))), t)"

definition insert_sub :: "sub_row \<Rightarrow> int \<Rightarrow> tables \<Rightarrow> unit \<times> tables" where
  "insert_sub row now t = ((), t\<lparr>t_subs := t_subs t @ [row]\<rparr>)"

definition select_revoked :: "string \<Rightarrow> int \<Rightarrow> int \<Rightarrow> tables \<Rightarrow> bool option \<times> tables" where
  "select_revoked payer issued now t =
     (map_option sb_revoked (find (\<lambda>r. sb_payer r = payer \<and> sb_issued_at r = issued) (t_subs t)), t)"

definition minute_of :: "int \<Rightarrow> int" where
  "minute_of us = us div 60000000"

text \<open>The upsert: insert 1, or add 1 to the bucket of this key and minute.\<close>

definition bump_bucket :: "string \<Rightarrow> int \<Rightarrow> tables \<Rightarrow> int \<times> tables" where
  "bump_bucket key now t =
     (let n = unwrap_or (map_of (t_rate t) (key, minute_of now)) 0 + 1
      in (n, t\<lparr>t_rate := AList.update (key, minute_of now) n (t_rate t)\<rparr>))"

definition select_labels where
  "select_labels (E :: 'e svc_env_scheme) (now :: int) (t :: tables) =
     (map (\<lambda>r. r\<lparr>le_note := []\<rparr>) (e_order_labels E (t_labels t)), t)"

definition cache_key :: "string \<Rightarrow> string \<Rightarrow> cache_row \<Rightarrow> bool" where
  "cache_key endpoint subj r = (ca_endpoint r = endpoint \<and> ca_subject r = subj)"

definition select_cached :: "string \<Rightarrow> string \<Rightarrow> int \<Rightarrow> tables \<Rightarrow> (json \<times> int) option \<times> tables" where
  "select_cached endpoint subj now t =
     (map_option (\<lambda>r. (ca_response r, ca_cached_at r))
        (find (\<lambda>r. cache_key endpoint subj r \<and> ca_expires_at r > now) (t_cache t)), t)"

definition delete_cached :: "string \<Rightarrow> string \<Rightarrow> tables \<Rightarrow> tables" where
  "delete_cached endpoint subj t = t\<lparr>t_cache := filter (\<lambda>r. \<not> cache_key endpoint subj r) (t_cache t)\<rparr>"

definition insert_cached :: "cache_row \<Rightarrow> tables \<Rightarrow> tables" where
  "insert_cached r t = t\<lparr>t_cache := t_cache t @ [r]\<rparr>"

definition insert_log :: "log_row \<Rightarrow> int \<Rightarrow> tables \<Rightarrow> unit \<times> tables" where
  "insert_log row now t = ((), t\<lparr>t_log := t_log t @ [row]\<rparr>)"

section \<open>The operations\<close>

definition fetch_service_parameters ::
    "'e svc_env_scheme \<Rightarrow> string \<Rightarrow> 'a world_scheme
     \<Rightarrow> (err + (string \<times> string \<times> string) list) \<times> 'a world_scheme" where
  "fetch_service_parameters E service s =
     (let (c, s0) = conn E s
      in case c of
           Inl e \<Rightarrow> (Inl e, s0)
         | Inr client \<Rightarrow>
             (let (v2, s1) = query_in_tx E client (select_params_v2 E service) ''fetch service parameters'' s0;
                  legacy = run_tx E (select_params_legacy E) ''fetch service parameters legacy'' s1
              in case v2 of
                   Inr rows \<Rightarrow> if rows \<noteq> [] then (Inr rows, s1) else legacy
                 | Inl _ \<Rightarrow> legacy))"

text \<open>\<^verbatim>\<open>TIMESTAMPTZ\<close> keeps microseconds of the nanosecond times of the process.\<close>

definition record_subscription ::
    "'e svc_env_scheme \<Rightarrow> string \<Rightarrow> string \<Rightarrow> int \<Rightarrow> int \<Rightarrow> string option
     \<Rightarrow> 'a world_scheme \<Rightarrow> (err + unit) \<times> 'a world_scheme" where
  "record_subscription E payer tier issued_ns expires_ns tx_sig s =
     run_tx E (insert_sub \<lparr>sb_payer = payer, sb_tier = tier, sb_issued_at = issued_ns div 1000,
       sb_expires_at = expires_ns div 1000, sb_tx_sig = tx_sig, sb_revoked = False\<rparr>)
       ''record subscription'' s"

definition is_revoked ::
    "'e svc_env_scheme \<Rightarrow> string \<Rightarrow> int \<Rightarrow> 'a world_scheme \<Rightarrow> (err + bool) \<times> 'a world_scheme" where
  "is_revoked E payer issued_at s =
     (if \<not> chrono_ts_ok (e_web E) issued_at then (Inl (Internal ''invalid iat''), s)
      else let (r, s1) = run_tx E (select_revoked payer (issued_at * 1000000)) ''is revoked'' s
           in (map_sum id (\<lambda>row. unwrap_or row False) r, s1))"

definition check_and_increment_rate ::
    "'e svc_env_scheme \<Rightarrow> string \<Rightarrow> nat \<Rightarrow> 'a world_scheme \<Rightarrow> (err + bool) \<times> 'a world_scheme" where
  "check_and_increment_rate E bucket_key limit s =
     (let (r, s1) = run_tx E (bump_bucket bucket_key) ''rate limit'' s
      in (map_sum id (\<lambda>n. n \<le> int limit) r, s1))"

definition fetch_wallet_labels ::
    "'e svc_env_scheme \<Rightarrow> 'a world_scheme \<Rightarrow> (err + label_entry list) \<times> 'a world_scheme" where
  "fetch_wallet_labels E s = run_tx E (select_labels E) ''fetch wallet labels'' s"

definition get_cached_score ::
    "'e svc_env_scheme \<Rightarrow> string \<Rightarrow> string \<Rightarrow> 'a world_scheme
     \<Rightarrow> (err + (json \<times> int) option) \<times> 'a world_scheme" where
  "get_cached_score E endpoint subj s = run_tx E (select_cached endpoint subj) ''cache read'' s"

text \<open>\<^verbatim>\<open>set_cached_score\<close> runs its DELETE and its INSERT in one transaction of its own.\<close>

definition set_cached_score ::
    "'e svc_env_scheme \<Rightarrow> string \<Rightarrow> string \<Rightarrow> int \<Rightarrow> string \<Rightarrow> json \<Rightarrow> string \<Rightarrow> int
     \<Rightarrow> 'a world_scheme \<Rightarrow> (err + unit) \<times> 'a world_scheme" where
  "set_cached_score E endpoint subj score band v version ttl_secs s =
     (let (c, s0) = conn E s
      in case c of
           Inl e \<Rightarrow> (Inl e, s0)
         | Inr client \<Rightarrow>
     (let (o1, c1, s1) = open_transaction E ''cache write'' client s0
      in case o1 of
           Inl e \<Rightarrow> (Inl e, discard_client c1 s1)
         | Inr now \<Rightarrow>
     (let (w, s2) = wire_step E ''cache delete'' s1
      in case step_result w ''cache write delete timed out after 60s'' ''cache write delete failed: '' of
           Inl e \<Rightarrow> (Inl e, discard_client c1 s2)
         | Inr _ \<Rightarrow>
     (let t1 = delete_cached endpoint subj (w_tables s2);
          ttl = clamp 1 86400 ttl_secs;
          (w2, s3) = wire_step E ''cache insert'' s2
      in case step_result w2 ''cache write insert timed out after 60s'' ''cache write insert failed: '' of
           Inl e \<Rightarrow> (Inl e, discard_client c1 s3)
         | Inr _ \<Rightarrow>
     (let t2 = insert_cached \<lparr>ca_endpoint = endpoint, ca_subject = subj, ca_score = score,
                 ca_band = band, ca_response = v, ca_version = version, ca_cached_at = now,
                 ca_expires_at = now + ttl * 1000000\<rparr> t1;
          (o2, c2, s4) = commit_transaction E ''cache write'' t2 c1 s3
      in case o2 of
           Inl e \<Rightarrow> (Inl e, discard_client c2 s4)
         | Inr _ \<Rightarrow> (Inr (), return_client c2 s4))))))"

definition log_scoring :: "'e svc_env_scheme \<Rightarrow> log_row \<Rightarrow> 'a world_scheme \<Rightarrow> (err + unit) \<times> 'a world_scheme" where
  "log_scoring E row s = run_tx E (insert_log row) ''scoring log'' s"

section \<open>Frames\<close>

definition is_db :: "effect \<Rightarrow> bool" where
  "is_db e = (case e of EDb _ \<Rightarrow> True | _ \<Rightarrow> False)"

lemma is_db_simps [simp]: "is_db (EDb l)" "\<not> is_db (ERpc m)" "\<not> is_db (EFac m)" "\<not> is_db (ESleep n)"
  by (simp_all add: is_db_def)

text \<open>No connection in the pool may have a transaction open: the next request would run in it.\<close>

definition pool_idle :: "'a world_scheme \<Rightarrow> bool" where
  "pool_idle s = (\<forall>c \<in> set (w_pool s). \<not> cl_in_tx c)"

text \<open>A database operation lets time pass, logs database effects, touches no cache, and keeps the
  pool idle.\<close>

definition db_frame :: "'a world_scheme \<Rightarrow> 'a world_scheme \<Rightarrow> bool" where
  "db_frame s t \<longleftrightarrow>
     s_now s \<le> s_now t \<and> (\<exists>es. s_log t = s_log s @ es \<and> (\<forall>e \<in> set es. is_db e))
     \<and> w_labels t = w_labels s \<and> w_params t = w_params s \<and> w_health t = w_health s
     \<and> (pool_idle s \<longrightarrow> pool_idle t)"

definition step_frame :: "'a world_scheme \<Rightarrow> 'a world_scheme \<Rightarrow> bool" where
  "step_frame s t \<longleftrightarrow> db_frame s t \<and> w_tables t = w_tables s \<and> w_pool t = w_pool s"

lemma db_frame_refl [simp, intro]: "db_frame s s"
  by (simp add: db_frame_def)

lemma db_frame_trans [trans]: "\<lbrakk>db_frame s t; db_frame t u\<rbrakk> \<Longrightarrow> db_frame s u"
  by (force simp: db_frame_def)

lemma step_frame_refl [simp, intro]: "step_frame s s"
  by (simp add: step_frame_def)

lemma step_frame_trans [trans]: "\<lbrakk>step_frame s t; step_frame t u\<rbrakk> \<Longrightarrow> step_frame s u"
  by (auto simp: step_frame_def intro: db_frame_trans)

lemma step_frame_db: "step_frame s t \<Longrightarrow> db_frame s t"
  by (simp add: step_frame_def)

lemma step_frame_tables: "step_frame s t \<Longrightarrow> w_tables t = w_tables s"
  by (simp add: step_frame_def)

lemma step_frame_pool: "step_frame s t \<Longrightarrow> w_pool t = w_pool s"
  by (simp add: step_frame_def)

lemma db_frame_set_tables [simp]: "db_frame s (t\<lparr>w_tables := x\<rparr>) = db_frame s t"
  by (simp add: db_frame_def pool_idle_def)

lemma step_frame_reset: "step_frame s t \<Longrightarrow> step_frame s (t\<lparr>w_tables := w_tables s\<rparr>)"
  by (simp add: step_frame_def)

lemma db_frame_log: "db_frame s t \<Longrightarrow> length (s_log s) \<le> length (s_log t)"
  by (auto simp: db_frame_def)

lemma wire_step_frame: "wire_step E l s = (w, t) \<Longrightarrow> step_frame s t"
  by (auto simp: wire_step_def perform_def Let_def step_frame_def db_frame_def pool_idle_def)

lemma open_transaction_frame: "open_transaction E label c s = (r, c1, t) \<Longrightarrow> step_frame s t"
  by (auto simp: open_transaction_def begin_transaction_def set_statement_timeout_local_def
      deallocate_prepared_def Let_def split: prod.splits sum.splits
      dest!: wire_step_frame intro: step_frame_trans)

lemma open_transaction_now:
  "open_transaction E label c s = (Inr now, c1, t) \<Longrightarrow> now = e_pgnow E (length (s_log s))"
  by (auto simp: open_transaction_def Let_def split: prod.splits sum.splits)

text \<open>COMMIT installs the working copy, or fails and installs it or not.\<close>

lemma commit_transaction_cases:
  assumes "commit_transaction E label t c s = (r, c1, s1)"
  obtains "r = Inr ()" "\<not> cl_in_tx c1" "w_tables s1 = t" "step_frame s (s1\<lparr>w_tables := w_tables s\<rparr>)"
  | e where "r = Inl e" "w_tables s1 = t \<or> w_tables s1 = w_tables s"
      "step_frame s (s1\<lparr>w_tables := w_tables s\<rparr>)"
proof -
  obtain w u where w: "wire_step E ''COMMIT'' s = (w, u)" by force
  note f = wire_step_frame [OF w]
  have g: "step_frame s (u\<lparr>w_tables := w_tables s\<rparr>)" by (rule step_frame_reset [OF f])
  have s1: "s1 = (if w = WOk \<or> e_applied E (length (s_log s)) then u\<lparr>w_tables := t\<rparr> else u)"
    and r: "r = step_result w (label @ '' commit timed out after 60s'') (label @ '' commit failed: '')"
    and c1: "c1 = (if w = WOk then c\<lparr>cl_in_tx := False\<rparr> else c)"
    using assms w by (simp_all add: commit_transaction_def Let_def)
  have t: "w_tables s1 = t \<or> w_tables s1 = w_tables s"
    using f by (simp add: s1 step_frame_tables)
  have "step_frame s (s1\<lparr>w_tables := w_tables s\<rparr>)" using g by (simp add: s1)
  with t show ?thesis
    using that by (cases w) (simp_all add: s1 r c1 step_result_def del: append.simps)
qed

lemma return_client_frame: "\<not> cl_in_tx c \<Longrightarrow> db_frame s (return_client c s)"
  by (auto simp: db_frame_def return_client_def pool_idle_def)

lemma return_client_simps [simp]:
  "w_tables (return_client c s) = w_tables s" "s_log (return_client c s) = s_log s"
  "discard_client c s = s"
  by (simp_all add: return_client_def discard_client_def)

text \<open>The outcomes of a transaction of one statement.\<close>

lemma in_tx_cases:
  assumes "in_tx E client stmt label s = (r, s')"
  obtains (ok) x where "r = Inr x" "stmt (e_pgnow E (length (s_log s))) (w_tables s) = (x, w_tables s')"
      "db_frame s s'"
  | (failed) e where "r = Inl e" "db_frame s s'"
      "w_tables s' = w_tables s \<or> w_tables s' = snd (stmt (e_pgnow E (length (s_log s))) (w_tables s))"
proof -
  obtain o1 c1 s1 where o1: "open_transaction E label client s = (o1, c1, s1)" by (metis prod_cases3)
  note f1 = open_transaction_frame [OF o1]
  show ?thesis
  proof (cases o1)
    case (Inl e)
    with assms o1 failed f1 show ?thesis
      by (auto simp: in_tx_def step_frame_db step_frame_tables)
  next
    case (Inr now)
    then have now: "now = e_pgnow E (length (s_log s))" using o1 open_transaction_now by blast
    obtain w s2 where w: "wire_step E label s1 = (w, s2)" by force
    note f2 = step_frame_trans [OF f1 wire_step_frame [OF w]]
    show ?thesis
    proof (cases "w = WOk")
      case False
      then obtain e where "step_result w (label @ '' timed out after 60s'') (label @ '' query failed: '') = Inl e"
        by (cases w) (auto simp: step_result_def)
      with assms o1 Inr w failed f2 show ?thesis
        by (auto simp: in_tx_def step_frame_db step_frame_tables)
    next
      case True
      obtain x t where x: "stmt now (w_tables s2) = (x, t)" by force
      obtain o2 c2 s3 where o2: "commit_transaction E label t c1 s2 = (o2, c2, s3)" by (metis prod_cases3)
      have st: "stmt (e_pgnow E (length (s_log s))) (w_tables s) = (x, t)"
        using x f2 now by (simp add: step_frame_tables)
      have tab: "w_tables s2 = w_tables s" by (rule step_frame_tables [OF f2])
      from o2 show ?thesis
      proof (cases rule: commit_transaction_cases)
        case 1
        from 1(4) have "db_frame s2 s3" using step_frame_db by fastforce
        then have "db_frame s s3" using step_frame_db [OF f2] db_frame_trans by blast
        moreover have "r = Inr x" "s' = return_client c2 s3"
          using assms o1 Inr w True x o2 1 by (auto simp: in_tx_def step_result_def)
        ultimately show ?thesis
          using ok [of x] 1 st return_client_frame [of c2 s3] by (auto intro: db_frame_trans)
      next
        case (2 e)
        from 2(3) have "db_frame s2 s3" using step_frame_db by fastforce
        then have "db_frame s s3" using step_frame_db [OF f2] db_frame_trans by blast
        moreover have "r = Inl e" "s' = s3"
          using assms o1 Inr w True x o2 2 by (auto simp: in_tx_def step_result_def)
        ultimately show ?thesis using failed [of e] 2 st tab by auto
      qed
    qed
  qed
qed

lemma conn_cases:
  assumes "conn E s = (r, s1)"
  obtains e where "r = Inl e" "step_frame s s1"
  | c where "r = Inr c" "db_frame s s1" "w_tables s1 = w_tables s" "pool_idle s \<Longrightarrow> \<not> cl_in_tx c"
      "length (s_log s1) = length (s_log s) + 1"
proof -
  obtain w u where w: "wire_step E ''pool get'' s = (w, u)" by force
  note f = wire_step_frame [OF w]
  have l: "length (s_log u) = length (s_log s) + 1"
    using w by (auto simp: wire_step_def perform_def Let_def)
  show ?thesis
  proof (cases "w = WOk")
    case False
    then obtain e where "step_result w ''db pool get timed out after 20s'' ''db pool: '' = Inl e"
      by (cases w) (auto simp: step_result_def)
    with assms w that(1) f show ?thesis by (auto simp: conn_def)
  next
    case True
    show ?thesis
    proof (cases "w_pool u")
      case Nil
      with assms w True that(2) f l show ?thesis
        by (auto simp: conn_def step_result_def step_frame_db step_frame_tables)
    next
      case (Cons c cs)
      then have "s1 = u\<lparr>w_pool := cs\<rparr>" "r = Inr c"
        using assms w True by (auto simp: conn_def step_result_def)
      moreover have "db_frame s (u\<lparr>w_pool := cs\<rparr>)" "pool_idle s \<Longrightarrow> \<not> cl_in_tx c"
        using f Cons by (auto simp: step_frame_def db_frame_def pool_idle_def)
      ultimately show ?thesis using that(2) f l by (simp add: step_frame_tables)
    qed
  qed
qed

section \<open>The interface the callers rely on\<close>

locale db_op =
  fixes op :: "'a world_scheme \<Rightarrow> (err + 'r) \<times> 'a world_scheme"
    and stmt :: "int \<Rightarrow> tables \<Rightarrow> 'r \<times> tables"
    and clock :: "nat \<Rightarrow> int"
  assumes op_ok: "op s = (Inr r, s') \<Longrightarrow>
      \<exists>k \<ge> length (s_log s). stmt (clock k) (w_tables s) = (r, w_tables s')"
    and op_err: "op s = (Inl e, s') \<Longrightarrow>
      w_tables s' = w_tables s \<or> (\<exists>k \<ge> length (s_log s). w_tables s' = snd (stmt (clock k) (w_tables s)))"
    and op_frame: "db_frame s (snd (op s))"
begin

lemma tables_cases:
  "w_tables (snd (op s)) = w_tables s
   \<or> (\<exists>k \<ge> length (s_log s). w_tables (snd (op s)) = snd (stmt (clock k) (w_tables s)))"
proof -
  obtain r s' where "op s = (r, s')" by force
  then show ?thesis
    using op_ok [of s _ s'] op_err [of s _ s'] by (cases r) (force dest: arg_cong [where f = snd])+
qed

lemma preserves:
  assumes "\<And>now t. I t \<Longrightarrow> I (snd (stmt now t))" "I (w_tables s)"
  shows "I (w_tables (snd (op s)))"
  using tables_cases [of s] assms by force

lemma keeps_idle: "pool_idle s \<Longrightarrow> pool_idle (snd (op s))"
  using op_frame [of s] by (simp add: db_frame_def)

lemma keeps_caches:
  "w_labels (snd (op s)) = w_labels s" "w_params (snd (op s)) = w_params s"
  "w_health (snd (op s)) = w_health s"
  using op_frame [of s] by (simp_all add: db_frame_def)

end

text \<open>A query does not change the tables, whatever happens on the wire.\<close>

locale db_query = db_op +
  assumes read_only: "snd (stmt now t) = t"
begin

lemma tables_unchanged: "w_tables (snd (op s)) = w_tables s"
  using tables_cases [of s] by (auto simp: read_only)

lemma answer: "op s = (Inr r, s') \<Longrightarrow> \<exists>k \<ge> length (s_log s). r = fst (stmt (clock k) (w_tables s))"
  using op_ok [of s r s'] by force

end

section \<open>Every operation satisfies it\<close>

lemma run_tx_db_op: "db_op (run_tx E stmt label) stmt (e_pgnow E)"
proof
  fix s s' and r
  assume "run_tx E stmt label s = (Inr r, s')"
  then obtain c s1 where c: "conn E s = (Inr c, s1)" and t: "in_tx E c stmt label s1 = (Inr r, s')"
    by (auto simp: run_tx_def split: prod.splits sum.splits)
  from c have "w_tables s1 = w_tables s" "length (s_log s) \<le> length (s_log s1)"
    by (auto elim!: conn_cases dest: db_frame_log)
  with t show "\<exists>k \<ge> length (s_log s). stmt (e_pgnow E k) (w_tables s) = (r, w_tables s')"
    by (auto elim!: in_tx_cases)
next
  fix s s' and e
  assume *: "run_tx E stmt label s = (Inl e, s')"
  obtain c s1 where c: "conn E s = (c, s1)" by force
  then have "w_tables s1 = w_tables s" "length (s_log s) \<le> length (s_log s1)"
    by (auto elim!: conn_cases dest: db_frame_log step_frame_tables step_frame_db)
  moreover from * c have "(c = Inl e \<and> s' = s1) \<or> (\<exists>cl. c = Inr cl \<and> in_tx E cl stmt label s1 = (Inl e, s'))"
    by (auto simp: run_tx_def split: sum.splits)
  ultimately show "w_tables s' = w_tables s
      \<or> (\<exists>k \<ge> length (s_log s). w_tables s' = snd (stmt (e_pgnow E k) (w_tables s)))"
    by (auto elim!: in_tx_cases)
next
  fix s
  obtain c s1 where c: "conn E s = (c, s1)" by force
  then have f: "db_frame s s1" by (auto elim!: conn_cases intro: step_frame_db)
  have "db_frame s1 (snd (in_tx E cl stmt label s1))" for cl
  proof -
    obtain r s2 where r: "in_tx E cl stmt label s1 = (r, s2)" by force
    then show ?thesis by (auto elim!: in_tx_cases)
  qed
  with c f show "db_frame s (snd (run_tx E stmt label s))"
    by (auto simp: run_tx_def split: sum.splits intro: db_frame_trans)
qed

text \<open>The server reads its clock at BEGIN, the step behind the pool's.\<close>

lemma run_tx_clock:
  assumes "run_tx E stmt label s = (Inr r, t)"
  shows "stmt (e_pgnow E (Suc (length (s_log s)))) (w_tables s) = (r, w_tables t)"
proof -
  obtain c s1 where c: "conn E s = (Inr c, s1)" and t: "in_tx E c stmt label s1 = (Inr r, t)"
    using assms by (auto simp: run_tx_def split: prod.splits sum.splits)
  from c have "w_tables s1 = w_tables s" "length (s_log s1) = Suc (length (s_log s))"
    by (auto elim!: conn_cases)
  with t show ?thesis by (auto elim!: in_tx_cases)
qed

lemmas run_tx_facts =
  db_op.op_ok [OF run_tx_db_op] db_op.op_err [OF run_tx_db_op] db_op.op_frame [OF run_tx_db_op]

text \<open>An operation that maps the result of a transaction maps its statement.\<close>

lemma run_tx_map_db_op:
  "db_op (\<lambda>s. let (r, s1) = run_tx E stmt label s in (map_sum id f r, s1))
     (\<lambda>now t. map_prod f id (stmt now t)) (e_pgnow E)"
proof
  fix s s' and r
  assume "(let (r, s1) = run_tx E stmt label s in (map_sum id f r, s1)) = (Inr r, s')"
  then obtain x where "run_tx E stmt label s = (Inr x, s')" "r = f x"
    by (auto split: prod.splits sum.splits) (metis map_sum.simps old.sum.exhaust sum.distinct(1) sum.inject(2))
  then show "\<exists>k \<ge> length (s_log s). map_prod f id (stmt (e_pgnow E k) (w_tables s)) = (r, w_tables s')"
    using run_tx_facts(1) by fastforce
next
  fix s s' and e
  assume "(let (r, s1) = run_tx E stmt label s in (map_sum id f r, s1)) = (Inl e, s')"
  then have "run_tx E stmt label s = (Inl e, s')"
    by (auto split: prod.splits sum.splits) (metis id_apply map_sum.simps old.sum.exhaust sum.distinct(1) sum.inject(1))
  then show "w_tables s' = w_tables s
      \<or> (\<exists>k \<ge> length (s_log s). w_tables s' = snd (map_prod f id (stmt (e_pgnow E k) (w_tables s))))"
    using run_tx_facts(2) by fastforce
next
  fix s
  show "db_frame s (snd (let (r, s1) = run_tx E stmt label s in (map_sum id f r, s1)))"
    using run_tx_facts(3) [of s E stmt label] by (simp add: case_prod_unfold Let_def)
qed

interpretation sub_op: db_op "record_subscription E payer tier i x sig"
  "insert_sub \<lparr>sb_payer = payer, sb_tier = tier, sb_issued_at = i div 1000,
     sb_expires_at = x div 1000, sb_tx_sig = sig, sb_revoked = False\<rparr>" "e_pgnow E"
  for E :: "'e svc_env_scheme" and payer tier i x sig
  unfolding record_subscription_def by (rule run_tx_db_op)

interpretation rate_op: db_op "check_and_increment_rate E key limit"
  "\<lambda>now t. map_prod (\<lambda>n. n \<le> int limit) id (bump_bucket key now t)" "e_pgnow E"
  for E :: "'e svc_env_scheme" and key limit
  unfolding check_and_increment_rate_def by (rule run_tx_map_db_op)

interpretation log_op: db_op "log_scoring E row" "insert_log row" "e_pgnow E"
  for E :: "'e svc_env_scheme" and row
  unfolding log_scoring_def by (rule run_tx_db_op)

interpretation labels_op: db_query "fetch_wallet_labels E" "select_labels E" "e_pgnow E"
  for E :: "'e svc_env_scheme"
  unfolding db_query_def db_query_axioms_def fetch_wallet_labels_def
  using run_tx_db_op by (auto simp: select_labels_def)

interpretation cached_op: db_query "get_cached_score E endpoint subj" "select_cached endpoint subj" "e_pgnow E"
  for E :: "'e svc_env_scheme" and endpoint subj
  unfolding db_query_def db_query_axioms_def get_cached_score_def
  using run_tx_db_op by (auto simp: select_cached_def)

interpretation revoked_op: db_query "is_revoked E payer iat"
  "\<lambda>now t. map_prod (\<lambda>row. unwrap_or row False) id (select_revoked payer (iat * 1000000) now t)"
  "e_pgnow E" for E :: "'e svc_env_scheme" and payer iat
proof (cases "chrono_ts_ok (e_web E) iat")
  case True
  have eq: "is_revoked E payer iat = (\<lambda>s :: 'b world_scheme.
      let (r, s1) = run_tx E (select_revoked payer (iat * 1000000)) ''is revoked'' s
      in (map_sum id (\<lambda>row. unwrap_or row False) r, s1))"
    using True by (simp add: is_revoked_def fun_eq_iff)
  show "db_query (is_revoked E payer iat :: 'b world_scheme \<Rightarrow> _)
      (\<lambda>now t. map_prod (\<lambda>row. unwrap_or row False) id (select_revoked payer (iat * 1000000) now t)) (e_pgnow E)"
    unfolding db_query_def db_query_axioms_def eq
    by (intro conjI run_tx_map_db_op) (simp add: select_revoked_def)
next
  case False
  then show "db_query (is_revoked E payer iat :: 'b world_scheme \<Rightarrow> _)
      (\<lambda>now t. map_prod (\<lambda>row. unwrap_or row False) id (select_revoked payer (iat * 1000000) now t)) (e_pgnow E)"
    by unfold_locales (simp_all add: is_revoked_def select_revoked_def)
qed

text \<open>The cache write: one transaction of two statements.\<close>

definition set_stmt ::
    "string \<Rightarrow> string \<Rightarrow> int \<Rightarrow> string \<Rightarrow> json \<Rightarrow> string \<Rightarrow> int \<Rightarrow> int \<Rightarrow> tables \<Rightarrow> unit \<times> tables" where
  "set_stmt endpoint subj score band v version ttl_secs now t =
     ((), insert_cached \<lparr>ca_endpoint = endpoint, ca_subject = subj, ca_score = score,
                 ca_band = band, ca_response = v, ca_version = version, ca_cached_at = now,
                 ca_expires_at = now + clamp 1 86400 ttl_secs * 1000000\<rparr> (delete_cached endpoint subj t))"

lemma finish_tx:
  assumes f: "step_frame s0 s3" and o2: "commit_transaction E l t c s3 = (o2, c2, s4)"
    and res: "(case o2 of Inl e \<Rightarrow> (Inl e, discard_client c2 s4) | Inr _ \<Rightarrow> (Inr x, return_client c2 s4)) = (r, s')"
  shows "db_frame s0 s' \<and> ((r = Inr x \<and> w_tables s' = t)
    \<or> (\<exists>e. r = Inl e \<and> (w_tables s' = w_tables s0 \<or> w_tables s' = t)))"
  using o2
proof (cases rule: commit_transaction_cases)
  case 1
  then have "db_frame s0 s4"
    using step_frame_db [OF f] step_frame_db db_frame_set_tables db_frame_trans by metis
  then show ?thesis
    using res 1 return_client_frame [of c2 s4] by (auto intro: db_frame_trans)
next
  case (2 e)
  then have "db_frame s0 s4"
    using step_frame_db [OF f] step_frame_db db_frame_set_tables db_frame_trans by metis
  then show ?thesis using res 2 step_frame_tables [OF f] by auto
qed

lemma set_cached_score_cases:
  assumes "set_cached_score E endpoint subj score band v version ttl s = (r, s')"
  defines "st \<equiv> snd (set_stmt endpoint subj score band v version ttl
      (e_pgnow E (Suc (length (s_log s)))) (w_tables s))"
  shows "db_frame s s' \<and> ((r = Inr () \<and> w_tables s' = st)
     \<or> (\<exists>e. r = Inl e \<and> (w_tables s' = w_tables s \<or> w_tables s' = st)))"
proof -
  obtain c s0 where c: "conn E s = (c, s0)" by force
  have c0: "db_frame s s0" "w_tables s0 = w_tables s"
    using c by (auto elim!: conn_cases intro: step_frame_db simp: step_frame_tables)
  have early: ?thesis if "\<exists>e. r = Inl e" "step_frame s0 s'"
    using that c0 step_frame_tables [OF that(2)] step_frame_db [OF that(2)] db_frame_trans by auto
  show ?thesis
  proof (cases c)
    case (Inl e)
    with assms(1) c show ?thesis by (intro early) (auto simp: set_cached_score_def)
  next
    case (Inr client)
    have l0: "length (s_log s0) = Suc (length (s_log s))" using c Inr by (auto elim!: conn_cases)
    note d = assms(1) [unfolded set_cached_score_def c Inr Let_def prod.case sum.case]
    obtain o1 c1 s1 where o1: "open_transaction E ''cache write'' client s0 = (o1, c1, s1)"
      by (metis prod_cases3)
    note f1 = open_transaction_frame [OF o1]
    show ?thesis
    proof (cases o1)
      case (Inl e)
      with d o1 f1 show ?thesis by (intro early) auto
    next
      case (Inr now)
      then have now: "now = e_pgnow E (Suc (length (s_log s)))" using o1 open_transaction_now l0 by metis
      note d1 = d [unfolded o1 Inr prod.case sum.case]
      obtain w s2 where w: "wire_step E ''cache delete'' s1 = (w, s2)" by force
      note f2 = step_frame_trans [OF f1 wire_step_frame [OF w]]
      note d2 = d1 [unfolded w prod.case]
      show ?thesis
      proof (cases "w = WOk")
        case False
        with d2 f2 show ?thesis by (intro early) (cases w; auto simp: step_result_def)+
      next
        case True
        obtain w2 s3 where w2: "wire_step E ''cache insert'' s2 = (w2, s3)" by force
        note f3 = step_frame_trans [OF f2 wire_step_frame [OF w2]]
        note d3 = d2 [unfolded True step_result_def wire.case sum.case w2 prod.case]
        show ?thesis
        proof (cases "w2 = WOk")
          case False
          with d3 f3 show ?thesis by (intro early) (cases w2; auto)+
        next
          case True
          let ?t = "snd (set_stmt endpoint subj score band v version ttl now (w_tables s2))"
          obtain o2 c2 s4 where o2: "commit_transaction E ''cache write'' ?t c1 s3 = (o2, c2, s4)"
            by (metis prod_cases3)
          have "(case o2 of Inl e \<Rightarrow> (Inl e, discard_client c2 s4) | Inr _ \<Rightarrow> (Inr (), return_client c2 s4)) = (r, s')"
            using d3 True o2 by (simp add: set_stmt_def split: sum.splits)
          from finish_tx [OF f3 o2 this] have
            "db_frame s0 s' \<and> ((r = Inr () \<and> w_tables s' = ?t)
              \<or> (\<exists>e. r = Inl e \<and> (w_tables s' = w_tables s0 \<or> w_tables s' = ?t)))" .
          moreover have "w_tables s2 = w_tables s" using step_frame_tables [OF f2] c0 by simp
          ultimately show ?thesis
            using c0 db_frame_trans unfolding st_def now by metis
        qed
      qed
    qed
  qed
qed

interpretation set_op: db_op "set_cached_score E endpoint subj score band v version ttl"
  "set_stmt endpoint subj score band v version ttl" "e_pgnow E"
  for E :: "'e svc_env_scheme" and endpoint subj score band v version ttl
proof
  let ?op = "set_cached_score E endpoint subj score band v version ttl"
  let ?st = "set_stmt endpoint subj score band v version ttl"
  fix s s' and r assume "?op s = (Inr r, s')"
  from set_cached_score_cases [OF this] show
    "\<exists>k \<ge> length (s_log s). ?st (e_pgnow E k) (w_tables s) = (r, w_tables s')"
    by (intro exI [of _ "Suc (length (s_log s))"]) (auto simp: set_stmt_def)
next
  let ?op = "set_cached_score E endpoint subj score band v version ttl"
  let ?st = "set_stmt endpoint subj score band v version ttl"
  fix s s' and e assume "?op s = (Inl e, s')"
  from set_cached_score_cases [OF this] show
    "w_tables s' = w_tables s \<or> (\<exists>k \<ge> length (s_log s). w_tables s' = snd (?st (e_pgnow E k) (w_tables s)))"
    by (metis Inl_Inr_False le_SucI order_refl)
next
  fix s
  show "db_frame s (snd (set_cached_score E endpoint subj score band v version ttl s))"
    using set_cached_score_cases [of E endpoint subj score band v version ttl s] by (metis prod.collapse)
qed

lemma ping_frame:
  shows "db_frame s (snd (ping E s))" "w_tables (snd (ping E s)) = w_tables s"
proof -
  obtain c s1 where c: "conn E s = (c, s1)" by force
  obtain w s2 where w: "wire_step E ''health ping'' s1 = (w, s2)" by force
  note f = wire_step_frame [OF w]
  have ret: "db_frame s (return_client cl s2)" if "db_frame s s1" "pool_idle s \<Longrightarrow> \<not> cl_in_tx cl" for cl
    using db_frame_trans [OF that(1) step_frame_db [OF f]] that(2)
    by (auto simp: db_frame_def return_client_def pool_idle_def)
  from c show "db_frame s (snd (ping E s))"
    by (cases rule: conn_cases)
      (auto simp: ping_def c w Let_def step_frame_db ret intro: db_frame_trans [OF _ step_frame_db [OF f]]
        split: sum.splits)
  from c show "w_tables (snd (ping E s)) = w_tables s"
    by (cases rule: conn_cases)
      (auto simp: ping_def c w Let_def step_frame_tables [OF f] step_frame_tables split: sum.splits)
qed

lemma select_params_ro [simp]:
  "snd (select_params_v2 E service now t) = t" "snd (select_params_legacy E now t) = t"
  by (simp_all add: select_params_v2_def select_params_legacy_def)

lemma in_tx_frame:
  "db_frame s (snd (in_tx E c stmt label s))"
  "(\<And>now t. snd (stmt now t) = t) \<Longrightarrow> w_tables (snd (in_tx E c stmt label s)) = w_tables s"
proof -
  obtain r s' where r: "in_tx E c stmt label s = (r, s')" by force
  then show "db_frame s (snd (in_tx E c stmt label s))" by (auto elim!: in_tx_cases)
  assume "\<And>now t. snd (stmt now t) = t"
  with r show "w_tables (snd (in_tx E c stmt label s)) = w_tables s"
    by (auto elim!: in_tx_cases) (metis snd_conv)
qed

lemma run_tx_frame:
  "db_frame s (snd (run_tx E stmt label s))"
  "(\<And>now t. snd (stmt now t) = t) \<Longrightarrow> w_tables (snd (run_tx E stmt label s)) = w_tables s"
  using run_tx_facts(3) db_op.tables_cases [OF run_tx_db_op, of E stmt label s] by auto

lemma fetch_service_parameters_frame:
  shows "db_frame s (snd (fetch_service_parameters E service s))"
    "w_tables (snd (fetch_service_parameters E service s)) = w_tables s"
proof -
  obtain c s0 where c: "conn E s = (c, s0)" by force
  have c0: "db_frame s s0" "w_tables s0 = w_tables s"
    using c by (auto elim!: conn_cases intro: step_frame_db simp: step_frame_tables)
  have "db_frame s0 (snd (in_tx E cl (select_params_v2 E service) l s0))" for cl l by (rule in_tx_frame)
  then have "db_frame s (snd (in_tx E cl (select_params_v2 E service) l s0))" for cl l
    using c0 db_frame_trans by blast
  then have d: "db_frame s (snd (run_tx E (select_params_legacy E) l'
      (snd (in_tx E cl (select_params_v2 E service) l s0))))"
    "db_frame s (snd (in_tx E cl (select_params_v2 E service) l s0))" for cl l l'
    using run_tx_frame(1) db_frame_trans by blast+
  then show "db_frame s (snd (fetch_service_parameters E service s))"
    using c0 by (auto simp: fetch_service_parameters_def c Let_def query_in_tx_def case_prod_unfold split: sum.split)
  show "w_tables (snd (fetch_service_parameters E service s)) = w_tables s"
    using c0 by (auto simp: fetch_service_parameters_def c Let_def query_in_tx_def case_prod_unfold
        run_tx_frame(2) in_tx_frame(2) split: sum.split)
qed

section \<open>The score cache\<close>

text \<open>At most one row per key: the precondition of \<^verbatim>\<open>query_opt\<close>, kept by the delete-then-insert.\<close>

definition cache_unique :: "tables \<Rightarrow> bool" where
  "cache_unique t = distinct (map (\<lambda>r. (ca_endpoint r, ca_subject r)) (t_cache t))"

lemma set_stmt_unique: "cache_unique t \<Longrightarrow> cache_unique (snd (set_stmt ep sj sc b v ver ttl now t))"
  by (auto simp: cache_unique_def set_stmt_def insert_cached_def delete_cached_def cache_key_def
      distinct_map inj_on_def)

lemma find_filter_other: "(\<And>x. P x \<Longrightarrow> Q x) \<Longrightarrow> find P (filter Q xs) = find P xs"
  by (induction xs) auto

lemma find_append: "find P (xs @ ys) = (case find P xs of None \<Rightarrow> find P ys | Some x \<Rightarrow> Some x)"
  by (induction xs) auto

lemma find_filter_none: "(\<And>x. P x \<Longrightarrow> \<not> Q x) \<Longrightarrow> find P (filter Q xs) = None"
  by (induction xs) auto

text \<open>A read after a write gives the written value until it expires, and nothing afterwards.\<close>

lemma cached_after_set:
  "fst (select_cached ep sj now' (snd (set_stmt ep sj sc b v ver ttl now t))) =
     (if now' < now + clamp 1 86400 ttl * 1000000 then Some (v, now) else None)"
proof -
  have "find (\<lambda>r. cache_key ep sj r \<and> now' < ca_expires_at r) (filter (\<lambda>r. \<not> cache_key ep sj r) (t_cache t)) = None"
    by (rule find_filter_none) simp
  then show ?thesis
    by (simp add: select_cached_def set_stmt_def insert_cached_def delete_cached_def find_append)
      (simp add: cache_key_def)
qed

lemma cached_other_key:
  assumes "(ep', sj') \<noteq> (ep, sj)"
  shows "fst (select_cached ep' sj' now' (snd (set_stmt ep sj sc b v ver ttl now t))) =
    fst (select_cached ep' sj' now' t)"
proof -
  have "find (\<lambda>r. cache_key ep' sj' r \<and> now' < ca_expires_at r) (filter (\<lambda>r. \<not> cache_key ep sj r) (t_cache t))
      = find (\<lambda>r. cache_key ep' sj' r \<and> now' < ca_expires_at r) (t_cache t)"
    using assms by (intro find_filter_other) (auto simp: cache_key_def)
  then show ?thesis
    using assms by (auto simp: select_cached_def set_stmt_def insert_cached_def delete_cached_def
        find_append cache_key_def split: option.splits)
qed

text \<open>The same through the operations, when both succeed: whatever the wire does in between, a
  successful read returns the last successful write of its key while it is fresh.\<close>

lemma get_after_set:
  assumes "set_cached_score E ep sj sc b v ver ttl s = (Inr (), s1)"
    and "w_tables s2 = w_tables s1"
    and "get_cached_score E ep sj s2 = (Inr r, s3)"
  shows "\<exists>k k'. length (s_log s) \<le> k \<and> length (s_log s2) \<le> k' \<and>
    r = (if e_pgnow E k' < e_pgnow E k + clamp 1 86400 ttl * 1000000 then Some (v, e_pgnow E k) else None)"
proof -
  obtain k where k: "length (s_log s) \<le> k"
    "set_stmt ep sj sc b v ver ttl (e_pgnow E k) (w_tables s) = ((), w_tables s1)"
    using set_op.op_ok [OF assms(1)] by blast
  obtain k' where k': "length (s_log s2) \<le> k'"
    "r = fst (select_cached ep sj (e_pgnow E k') (w_tables s2))"
    using cached_op.answer [OF assms(3)] by blast
  have "w_tables s2 = snd (set_stmt ep sj sc b v ver ttl (e_pgnow E k) (w_tables s))"
    using k(2) assms(2) by simp
  then have "r = (if e_pgnow E k' < e_pgnow E k + clamp 1 86400 ttl * 1000000
      then Some (v, e_pgnow E k) else None)"
    using k'(2) cached_after_set by simp
  with k k' show ?thesis by blast
qed

section \<open>Rate limiting\<close>

definition bucket_count :: "string \<Rightarrow> int \<Rightarrow> tables \<Rightarrow> int" where
  "bucket_count key minute t = unwrap_or (map_of (t_rate t) (key, minute)) 0"

lemma bump_bucket_count:
  "fst (bump_bucket key now t) = bucket_count key (minute_of now) t + 1"
  "bucket_count key' m (snd (bump_bucket key now t)) =
     bucket_count key' m t + (if key' = key \<and> m = minute_of now then 1 else 0)"
  by (auto simp: bump_bucket_def Let_def bucket_count_def update_conv')

text \<open>\<open>n\<close> checks in a row on one key.\<close>

fun rate_run ::
    "'e svc_env_scheme \<Rightarrow> string \<Rightarrow> nat \<Rightarrow> nat \<Rightarrow> 'a world_scheme \<Rightarrow> (err + bool) list \<times> 'a world_scheme" where
  "rate_run E key limit 0 s = ([], s)"
| "rate_run E key limit (Suc n) s =
     (let (r, s1) = check_and_increment_rate E key limit s; (rs, s2) = rate_run E key limit n s1
      in (r # rs, s2))"

lemma rate_run_within_minute:
  assumes "\<And>k. minute_of (e_pgnow E k) = m"
    and "rate_run E key limit n s = (rs, s')" and "\<forall>r \<in> set rs. \<exists>b. r = Inr b"
  shows "rs = map (\<lambda>i. Inr (bucket_count key m (w_tables s) + int i + 1 \<le> int limit)) [0..<n]
    \<and> bucket_count key m (w_tables s') = bucket_count key m (w_tables s) + int n"
  using assms(2,3)
proof (induction n arbitrary: s rs)
  case (Suc n)
  obtain r s1 where r: "check_and_increment_rate E key limit s = (r, s1)" by force
  obtain rs' where rs': "rate_run E key limit n s1 = (rs', s')" "rs = r # rs'"
    using Suc.prems r by (auto split: prod.splits)
  obtain b where b: "r = Inr b" using Suc.prems(2) rs' by auto
  obtain k where k: "map_prod (\<lambda>n. n \<le> int limit) id (bump_bucket key (e_pgnow E k) (w_tables s)) = (b, w_tables s1)"
    using rate_op.op_ok r b by blast
  have bm: "b = (bucket_count key m (w_tables s) + 1 \<le> int limit)"
    "bucket_count key m (w_tables s1) = bucket_count key m (w_tables s) + 1"
    using k assms(1) [of k] bump_bucket_count(1) [of key "e_pgnow E k" "w_tables s"]
      bump_bucket_count(2) [of key m key "e_pgnow E k" "w_tables s"]
    by (auto simp: map_prod_def split: prod.splits)
  have IH: "rs' = map (\<lambda>i. Inr (bucket_count key m (w_tables s1) + int i + 1 \<le> int limit)) [0..<n]
      \<and> bucket_count key m (w_tables s') = bucket_count key m (w_tables s1) + int n"
    using Suc.IH [OF rs'(1)] Suc.prems(2) rs'(2) by simp
  have "map (\<lambda>i. Inr (bucket_count key m (w_tables s) + int i + 1 \<le> int limit) :: err + bool) [0..<Suc n]
      = Inr (bucket_count key m (w_tables s) + 1 \<le> int limit)
        # map (\<lambda>i. Inr (bucket_count key m (w_tables s) + int (Suc i) + 1 \<le> int limit)) [0..<n]"
    by (simp only: map_upt_Suc) simp
  moreover have "rs' = map (\<lambda>i. Inr (bucket_count key m (w_tables s) + int (Suc i) + 1 \<le> int limit)) [0..<n]"
    using IH bm(2) by (simp add: algebra_simps)
  ultimately show ?case using IH bm b rs'(2) by simp
qed simp

end
