(* ===== verification/Db_Live.thy ===== *)
theory Db_Live
  imports Db
begin

text \<open>
  The wire behind the transactions of \<^verbatim>\<open>src/db.rs\<close>: which steps a call makes, how far it gets, what
  becomes of its connection, and that on a healthy wire every call succeeds. The locale \<open>db_live\<close>
  extends the contract of the callers by this last point.
\<close>

section \<open>The steps of a transaction\<close>

text \<open>The first \<open>n\<close> wire outcomes from step \<open>k\<close> on, up to the first failure.\<close>

definition good_steps :: "'e svc_env_scheme \<Rightarrow> nat \<Rightarrow> nat \<Rightarrow> nat" where
  "good_steps E k n = length (takeWhile (\<lambda>i. e_wire E (k + i) = WOk) [0..<n])"

lemma good_steps_le: "good_steps E k n \<le> n"
  unfolding good_steps_def using length_takeWhile_le [of _ "[0..<n]"] by simp

lemma good_steps_all: "good_steps E k n = n \<longleftrightarrow> (\<forall>i < n. e_wire E (k + i) = WOk)"
proof -
  have "good_steps E k n = n \<longleftrightarrow> takeWhile (\<lambda>i. e_wire E (k + i) = WOk) [0..<n] = [0..<n]"
    unfolding good_steps_def using takeWhile_eq_take
    by (metis diff_zero length_upt take_all_iff order_refl)
  also have "\<dots> \<longleftrightarrow> (\<forall>i \<in> set [0..<n]. e_wire E (k + i) = WOk)"
    by (rule takeWhile_eq_all_conv)
  finally show ?thesis by auto
qed

lemma good_steps_0 [simp]: "good_steps E k 0 = 0"
  by (simp add: good_steps_def)

lemma good_steps_1: "good_steps E k (Suc 0) = (if e_wire E k = WOk then 1 else 0)"
  by (simp add: good_steps_def)

lemma good_steps_Suc:
  "good_steps E k (Suc n) =
     (if good_steps E k n = n \<and> e_wire E (k + n) = WOk then Suc n else good_steps E k n)"
proof (cases "good_steps E k n = n")
  case True
  then show ?thesis
    unfolding good_steps_all
    by (simp add: good_steps_def takeWhile_append takeWhile_eq_all_conv [THEN iffD2])
next
  case False
  then obtain i where "i < n" "e_wire E (k + i) \<noteq> WOk" unfolding good_steps_all by blast
  then have "takeWhile (\<lambda>i. e_wire E (k + i) = WOk) ([0..<n] @ [n]) = takeWhile (\<lambda>i. e_wire E (k + i) = WOk) [0..<n]"
    by (intro takeWhile_append1 [of i]) auto
  with False show ?thesis by (simp add: good_steps_def)
qed

lemma good_steps_add:
  "good_steps E k (m + n) = (if good_steps E k m < m then good_steps E k m else m + good_steps E (k + m) n)"
proof (induction n)
  case 0
  then show ?case using good_steps_le [of E k m] by auto
next
  case (Suc n)
  then show ?case
    using good_steps_le [of E k m] good_steps_le [of E "k + m" n]
    by (auto simp: good_steps_Suc add.assoc)
qed

text \<open>The time of the \<open>n\<close> steps from step \<open>k\<close> on.\<close>

definition elapsed :: "'e svc_env_scheme \<Rightarrow> nat \<Rightarrow> nat \<Rightarrow> nat" where
  "elapsed E k n = sum_list (map (e_dur E) [k..<k + n])"

lemma elapsed_add: "elapsed E k (m + n) = elapsed E k m + elapsed E (k + m) n"
  using upt_add_eq_append [of k "k + m" n] by (simp add: elapsed_def add.assoc)

text \<open>\<open>ran E ls failed s t\<close>: from \<open>s\<close> to \<open>t\<close> the wire steps \<open>ls\<close> were made in order, up to and with the
  first that failed.\<close>

definition ran :: "'e svc_env_scheme \<Rightarrow> string list \<Rightarrow> bool \<Rightarrow> 'a world_scheme \<Rightarrow> 'a world_scheme \<Rightarrow> bool" where
  "ran E ls failed s t \<longleftrightarrow>
     s_log t = s_log s @ map EDb (take (Suc (good_steps E (length (s_log s)) (length ls))) ls)
     \<and> s_now t = s_now s + elapsed E (length (s_log s))
         (min (Suc (good_steps E (length (s_log s)) (length ls))) (length ls))
     \<and> (failed \<longleftrightarrow> good_steps E (length (s_log s)) (length ls) < length ls)"

lemma ran_wire_step: "wire_step E l s = (w, t) \<Longrightarrow> ran E [l] (w \<noteq> WOk) s t \<and> w_pool t = w_pool s"
  by (auto simp: ran_def wire_step_def perform_def Let_def good_steps_1 elapsed_def)

lemma ran_stop:
  assumes "ran E ls True s t"
  shows "ran E (ls @ ks) True s t"
  using assms by (simp add: ran_def good_steps_add min_def)

lemma ran_go:
  assumes "ran E ls False s t" "ran E ks failed t u"
  shows "ran E (ls @ ks) failed s u"
proof -
  have g: "good_steps E (length (s_log s)) (length ls) = length ls"
    using assms(1) good_steps_le [of E "length (s_log s)" "length ls"] by (simp add: ran_def)
  have "length (s_log t) = length (s_log s) + length ls" using assms(1) by (simp add: ran_def g)
  moreover have "min (Suc (length ls + x)) (length ls + length ks) = length ls + min (Suc x) (length ks)" for x
    by simp
  ultimately show ?thesis
    using assms by (simp add: ran_def good_steps_add g elapsed_add del: min_Suc_Suc min_add_distrib_right)
qed

lemma ran_set [simp]:
  "ran E ls failed s (t\<lparr>w_tables := x\<rparr>) = ran E ls failed s t"
  "ran E ls failed s (t\<lparr>w_pool := p\<rparr>) = ran E ls failed s t"
  by (simp_all add: ran_def)

lemma isl_step_result [simp]: "isl (step_result w a b) \<longleftrightarrow> w \<noteq> WOk"
  by (cases w) (simp_all add: step_result_def)

lemma step_result_WOk [simp]: "step_result WOk a b = Inr ()"
  by (simp add: step_result_def)

lemma step_result_bad: "w \<noteq> WOk \<Longrightarrow> \<exists>e. step_result w a b = Inl e"
  by (cases w) (simp_all add: step_result_def)

lemma conn_ran:
  assumes "conn E s = (r, t)"
  shows "ran E [''pool get''] (isl r) s t \<and> w_pool t = (if isl r then w_pool s else tl (w_pool s))"
proof -
  obtain w u where w: "wire_step E ''pool get'' s = (w, u)" by force
  note f = ran_wire_step [OF w]
  show ?thesis
  proof (cases "w = WOk")
    case True
    then show ?thesis using assms f by (auto simp: conn_def w split: list.splits)
  next
    case False
    then obtain e where "step_result w ''db pool get timed out after 20s'' ''db pool: '' = Inl e"
      using step_result_bad by blast
    then show ?thesis using assms f False by (auto simp: conn_def w)
  qed
qed

lemma open_transaction_ran:
  assumes "open_transaction E label c s = (r, c1, t)"
  shows "ran E [''BEGIN'', ''SET LOCAL'', ''DEALLOCATE ALL''] (isl r) s t \<and> w_pool t = w_pool s"
proof -
  obtain w1 s1 where 1: "wire_step E ''BEGIN'' s = (w1, s1)" by force
  obtain w2 s2 where 2: "wire_step E ''SET LOCAL'' s1 = (w2, s2)" by force
  obtain w3 s3 where 3: "wire_step E ''DEALLOCATE ALL'' s2 = (w3, s3)" by force
  note r1 = ran_wire_step [OF 1] and r2 = ran_wire_step [OF 2] and r3 = ran_wire_step [OF 3]
  note D = assms [unfolded open_transaction_def begin_transaction_def set_statement_timeout_local_def
      deallocate_prepared_def 1 Let_def prod.case 2 3]
  show ?thesis
  proof (cases "w1 = WOk \<and> w2 = WOk")
    case True
    have "ran E ([''BEGIN''] @ [''SET LOCAL''] @ [''DEALLOCATE ALL'']) (w3 \<noteq> WOk) s s3"
      using True r1 r2 r3 by (intro ran_go) auto
    then show ?thesis using D True r1 r2 r3 by (auto simp: step_result_def split: wire.splits)
  next
    case False
    show ?thesis
    proof (cases "w1 = WOk")
      case True
      then have "ran E (([''BEGIN''] @ [''SET LOCAL'']) @ [''DEALLOCATE ALL'']) True s s2"
        using False r1 r2 by (intro ran_stop ran_go) auto
      then show ?thesis using D True False r1 r2 by (auto simp: step_result_def split: wire.splits)
    next
      case bad: False
      then have "ran E ([''BEGIN''] @ [''SET LOCAL'', ''DEALLOCATE ALL'']) True s s1"
        using r1 by (intro ran_stop) auto
      then show ?thesis using D bad r1 by (auto simp: step_result_def split: wire.splits)
    qed
  qed
qed

lemma commit_transaction_ran:
  assumes "commit_transaction E label tab c s = (r, c1, t)"
  shows "ran E [''COMMIT''] (isl r) s t \<and> w_pool t = w_pool s \<and> (\<not> isl r \<longrightarrow> \<not> cl_in_tx c1)"
proof -
  obtain w u where w: "wire_step E ''COMMIT'' s = (w, u)" by force
  show ?thesis using assms ran_wire_step [OF w] by (auto simp: commit_transaction_def w Let_def)
qed

text \<open>A transaction of one statement: its connection comes back, clean, only from a success.\<close>

lemma in_tx_ran:
  assumes "in_tx E c stmt label s = (r, t)"
  shows "ran E [''BEGIN'', ''SET LOCAL'', ''DEALLOCATE ALL'', label, ''COMMIT''] (isl r) s t
    \<and> (if isl r then w_pool t = w_pool s else \<exists>c'. \<not> cl_in_tx c' \<and> w_pool t = c' # w_pool s)"
proof -
  obtain o1 c1 s1 where 1: "open_transaction E label c s = (o1, c1, s1)" by (metis prod_cases3)
  note r1 = open_transaction_ran [OF 1]
  show ?thesis
  proof (cases o1)
    case (Inl e)
    then have "r = Inl e" "t = s1" using assms 1 by (simp_all add: in_tx_def discard_client_def)
    then show ?thesis using r1 Inl ran_stop [of E _ s s1 "[label, ''COMMIT'']"] by fastforce
  next
    case (Inr now)
    obtain w s2 where 2: "wire_step E label s1 = (w, s2)" by force
    note r2 = ran_wire_step [OF 2]
    have g: "ran E ([''BEGIN'', ''SET LOCAL'', ''DEALLOCATE ALL''] @ [label]) (w \<noteq> WOk) s s2"
      using r1 r2 Inr by (intro ran_go) auto
    show ?thesis
    proof (cases "w = WOk")
      case False
      then obtain e where "step_result w (label @ '' timed out after 60s'') (label @ '' query failed: '') = Inl e"
        using step_result_bad by blast
      then have "r = Inl e" "t = s2" using assms 1 2 Inr by (simp_all add: in_tx_def discard_client_def)
      then show ?thesis using g False r1 r2 ran_stop [of E _ s s2 "[''COMMIT'']"] by fastforce
    next
      case True
      obtain x tab where x: "stmt now (w_tables s2) = (x, tab)" by force
      obtain o2 c2 s3 where 3: "commit_transaction E label tab c1 s2 = (o2, c2, s3)" by (metis prod_cases3)
      note r3 = commit_transaction_ran [OF 3]
      have "ran E (([''BEGIN'', ''SET LOCAL'', ''DEALLOCATE ALL''] @ [label]) @ [''COMMIT'']) (isl o2) s s3"
        by (rule ran_go [of _ _ s s2]) (use g r3 True in auto)
      moreover have "if isl o2 then isl r \<and> t = s3 else \<not> isl r \<and> t = return_client c2 s3"
        using assms 1 2 3 Inr True x by (auto simp: in_tx_def discard_client_def split: sum.splits)
      ultimately show ?thesis
        using r1 r2 r3 by (auto simp: return_client_def split: if_splits)
    qed
  qed
qed

definition tx_steps :: "string list \<Rightarrow> string list" where
  "tx_steps stmts = [''pool get'', ''BEGIN'', ''SET LOCAL'', ''DEALLOCATE ALL''] @ stmts @ [''COMMIT'']"

text \<open>A call makes its steps in order, stops behind the first that fails, and is successful exactly when
  none does. It never keeps more of the pool than it found, and a success leaves a clean connection.\<close>

definition pool_after :: "bool \<Rightarrow> pg_client list \<Rightarrow> pg_client list \<Rightarrow> bool" where
  "pool_after failed p q \<longleftrightarrow>
     (if failed then q = p \<or> q = tl p else \<exists>c. \<not> cl_in_tx c \<and> q = c # tl p)"

lemma run_tx_ran:
  assumes "run_tx E stmt label s = (r, t)"
  shows "ran E (tx_steps [label]) (isl r) s t \<and> pool_after (isl r) (w_pool s) (w_pool t)"
proof -
  obtain c s1 where c: "conn E s = (c, s1)" by force
  note r1 = conn_ran [OF c]
  show ?thesis
  proof (cases c)
    case (Inl e)
    then have "r = Inl e" "t = s1" using assms c by (simp_all add: run_tx_def)
    moreover have "ran E ([''pool get''] @ [''BEGIN'', ''SET LOCAL'', ''DEALLOCATE ALL'', label, ''COMMIT'']) True s s1"
      using r1 Inl by (intro ran_stop) auto
    ultimately show ?thesis using r1 Inl by (simp add: tx_steps_def pool_after_def)
  next
    case (Inr cl)
    then have "in_tx E cl stmt label s1 = (r, t)" using assms c by (simp add: run_tx_def)
    from in_tx_ran [OF this] have r2: "ran E [''BEGIN'', ''SET LOCAL'', ''DEALLOCATE ALL'', label, ''COMMIT''] (isl r) s1 t"
      "if isl r then w_pool t = w_pool s1 else \<exists>c'. \<not> cl_in_tx c' \<and> w_pool t = c' # w_pool s1" by auto
    have "ran E ([''pool get''] @ [''BEGIN'', ''SET LOCAL'', ''DEALLOCATE ALL'', label, ''COMMIT'']) (isl r) s t"
      using r1 r2 Inr by (intro ran_go) auto
    then show ?thesis using r1 r2 Inr by (auto simp: tx_steps_def pool_after_def split: if_splits)
  qed
qed

lemma set_cached_score_ran:
  assumes "set_cached_score E ep sj sc b v ver ttl s = (r, t)"
  shows "ran E (tx_steps [''cache delete'', ''cache insert'']) (isl r) s t
    \<and> pool_after (isl r) (w_pool s) (w_pool t)"
proof -
  obtain c s0 where c: "conn E s = (c, s0)" by force
  note r0 = conn_ran [OF c]
  have stop: ?thesis if "isl r" "ran E (ls @ ks) True s t" "ls @ ks = tx_steps [''cache delete'', ''cache insert'']"
    "w_pool t = w_pool s \<or> w_pool t = tl (w_pool s)" for ls ks
    using that by (simp add: pool_after_def)
  show ?thesis
  proof (cases c)
    case (Inl e)
    then have "r = Inl e" "t = s0" using assms c by (simp_all add: set_cached_score_def)
    then show ?thesis using r0 Inl
      by (intro stop [of "[''pool get'']" "[''BEGIN'', ''SET LOCAL'', ''DEALLOCATE ALL'', ''cache delete'', ''cache insert'', ''COMMIT'']"])
        (auto simp: tx_steps_def dest: ran_stop)
  next
    case (Inr client)
    note d = assms [unfolded set_cached_score_def c Inr Let_def prod.case sum.case]
    obtain o1 c1 s1 where o1: "open_transaction E ''cache write'' client s0 = (o1, c1, s1)"
      by (metis prod_cases3)
    note r1 = open_transaction_ran [OF o1]
    have g1: "ran E ([''pool get''] @ [''BEGIN'', ''SET LOCAL'', ''DEALLOCATE ALL'']) (isl o1) s s1"
      using r0 r1 Inr by (intro ran_go) auto
    have p1: "w_pool s1 = tl (w_pool s)" using r0 r1 Inr by simp
    show ?thesis
    proof (cases o1)
      case (Inl e)
      then have "r = Inl e" "t = s1" using d o1 by (simp_all add: discard_client_def)
      then show ?thesis using g1 p1 Inl ran_stop [of E "[''pool get''] @ [''BEGIN'', ''SET LOCAL'', ''DEALLOCATE ALL'']" s s1
            "[''cache delete'', ''cache insert'', ''COMMIT'']"]
        by (simp add: tx_steps_def pool_after_def)
    next
      case (Inr now)
      note d1 = d [unfolded o1 Inr prod.case sum.case]
      obtain w s2 where w: "wire_step E ''cache delete'' s1 = (w, s2)" by force
      note r2 = ran_wire_step [OF w]
      note d2 = d1 [unfolded w prod.case]
      have g2: "ran E (([''pool get''] @ [''BEGIN'', ''SET LOCAL'', ''DEALLOCATE ALL'']) @ [''cache delete'']) (w \<noteq> WOk) s s2"
        by (rule ran_go [of _ _ s s1]) (use g1 r2 Inr in auto)
      show ?thesis
      proof (cases "w = WOk")
        case False
        then have "isl r" "t = s2" using d2 by (cases w; auto simp: step_result_def discard_client_def)+
        then show ?thesis using g2 p1 r2 False ran_stop [of E _ s s2 "[''cache insert'', ''COMMIT'']"]
          by (fastforce simp: tx_steps_def pool_after_def)
      next
        case True
        obtain w2 s3 where w2: "wire_step E ''cache insert'' s2 = (w2, s3)" by force
        note r3 = ran_wire_step [OF w2]
        note d3 = d2 [unfolded True step_result_WOk sum.case w2 prod.case]
        have g3: "ran E ((([''pool get''] @ [''BEGIN'', ''SET LOCAL'', ''DEALLOCATE ALL'']) @ [''cache delete'']) @ [''cache insert'']) (w2 \<noteq> WOk) s s3"
          by (rule ran_go [of _ _ s s2]) (use g2 r3 True in auto)
        show ?thesis
        proof (cases "w2 = WOk")
          case False
          then have "isl r" "t = s3" using d3 by (cases w2; auto simp: step_result_def discard_client_def)+
          then show ?thesis using g3 p1 r2 r3 False ran_stop [of E _ s s3 "[''COMMIT'']"]
            by (fastforce simp: tx_steps_def pool_after_def)
        next
          case True
          note d4 = d3 [unfolded True step_result_WOk sum.case]
          let ?tab = "insert_cached \<lparr>ca_endpoint = ep, ca_subject = sj, ca_score = sc, ca_band = b, ca_response = v,
            ca_version = ver, ca_cached_at = now, ca_expires_at = now + clamp 1 86400 ttl * 1000000\<rparr>
            (delete_cached ep sj (w_tables s2))"
          obtain o2 c2 s4 where o2: "commit_transaction E ''cache write'' ?tab c1 s3 = (o2, c2, s4)"
            by (metis prod_cases3)
          note r4 = commit_transaction_ran [OF o2]
          have "ran E (((([''pool get''] @ [''BEGIN'', ''SET LOCAL'', ''DEALLOCATE ALL'']) @ [''cache delete'']) @ [''cache insert'']) @ [''COMMIT'']) (isl o2) s s4"
            by (rule ran_go [of _ _ s s3]) (use g3 r4 True in auto)
          moreover have "if isl o2 then isl r \<and> t = s4 else \<not> isl r \<and> t = return_client c2 s4"
            using d4 o2 by (auto simp: discard_client_def split: sum.splits)
          ultimately show ?thesis
            using r2 r3 r4 p1 by (auto simp: tx_steps_def return_client_def pool_after_def split: if_splits)
        qed
      qed
    qed
  qed
qed

section \<open>How long a call can take\<close>

definition POOL_GET_TIMEOUT :: nat where "POOL_GET_TIMEOUT = 20"
definition TX_BEGIN_TIMEOUT :: nat where "TX_BEGIN_TIMEOUT = 20"
definition SET_LOCAL_CMD_TIMEOUT :: nat where "SET_LOCAL_CMD_TIMEOUT = 5"
definition QUERY_TIMEOUT :: nat where "QUERY_TIMEOUT = 60"
definition DEALLOCATE_TIMEOUT :: nat where "DEALLOCATE_TIMEOUT = 5"

lemmas timeout_defs = POOL_GET_TIMEOUT_def TX_BEGIN_TIMEOUT_def SET_LOCAL_CMD_TIMEOUT_def
  QUERY_TIMEOUT_def DEALLOCATE_TIMEOUT_def

text \<open>The client-side timeouts of the steps of a transaction with \<open>n\<close> statements, in seconds.\<close>

definition tx_timeouts :: "nat \<Rightarrow> nat list" where
  "tx_timeouts n = [POOL_GET_TIMEOUT, TX_BEGIN_TIMEOUT, SET_LOCAL_CMD_TIMEOUT, DEALLOCATE_TIMEOUT]
     @ replicate n QUERY_TIMEOUT @ [QUERY_TIMEOUT]"

text \<open>From step \<open>k\<close> on, \<^verbatim>\<open>timeout(d, step)\<close> gives up in time.\<close>

definition timely :: "'e svc_env_scheme \<Rightarrow> nat \<Rightarrow> nat list \<Rightarrow> bool" where
  "timely E k ds \<longleftrightarrow> list_all2 (\<lambda>i d. e_dur E i \<le> d * 1000000000) [k..<k + length ds] ds"

lemma elapsed_timely:
  assumes "timely E k ds" "n \<le> length ds"
  shows "elapsed E k n \<le> sum_list ds * 1000000000"
  using assms
proof (induction ds arbitrary: k n)
  case (Cons d ds)
  have h: "e_dur E k \<le> d * 1000000000" "timely E (Suc k) ds"
    using Cons.prems(1) by (simp_all add: timely_def upt_rec del: upt_Suc)
  show ?case
  proof (cases n)
    case 0
    then show ?thesis by (simp add: elapsed_def)
  next
    case (Suc m)
    then have "elapsed E (Suc k) m \<le> sum_list ds * 1000000000" using Cons.IH [OF h(2)] Cons.prems(2) by simp
    moreover have "elapsed E k n = e_dur E k + elapsed E (Suc k) m"
      using Suc elapsed_add [of E k "Suc 0" m] by (simp add: elapsed_def)
    ultimately show ?thesis using h(1) by (simp add: algebra_simps)
  qed
qed (simp add: elapsed_def)

lemma ran_time:
  assumes "ran E ls failed s t" "timely E (length (s_log s)) ds" "length ds = length ls"
  shows "s_now t \<le> s_now s + sum_list ds * 1000000000"
  using assms(1) elapsed_timely [OF assms(2), of "min (Suc (good_steps E (length (s_log s)) (length ls))) (length ls)"]
    assms(3) by (simp add: ran_def)

text \<open>A call with one statement takes at most 170 seconds.\<close>

lemma run_tx_time:
  assumes "run_tx E stmt label s = (r, t)" "timely E (length (s_log s)) (tx_timeouts 1)"
  shows "s_now t \<le> s_now s + 170 * 1000000000"
proof -
  have "ran E (tx_steps [label]) (isl r) s t" using run_tx_ran [OF assms(1)] by simp
  from ran_time [OF this assms(2)] show ?thesis
    by (simp add: tx_steps_def tx_timeouts_def timeout_defs)
qed

text \<open>The write of a score has two statements and takes at most 230.\<close>

lemma set_cached_score_time:
  assumes "set_cached_score E ep sj sc b v ver ttl s = (r, t)" "timely E (length (s_log s)) (tx_timeouts 2)"
  shows "s_now t \<le> s_now s + 230 * 1000000000"
proof -
  have "ran E (tx_steps [''cache delete'', ''cache insert'']) (isl r) s t"
    using set_cached_score_ran [OF assms(1)] by simp
  from ran_time [OF this assms(2)] show ?thesis
    by (simp add: tx_steps_def tx_timeouts_def timeout_defs numeral_2_eq_2)
qed

section \<open>A healthy wire\<close>

definition healthy :: "'e svc_env_scheme \<Rightarrow> 'e svc_env_scheme" where
  "healthy E = E\<lparr>e_wire := (\<lambda>k. WOk)\<rparr>"

lemma healthy_simps [simp]:
  "e_wire (healthy E) k = WOk" "e_pgnow (healthy E) = e_pgnow E" "e_has_db (healthy E) = e_has_db E"
  "e_web (healthy E) = e_web E" "e_getenv (healthy E) = e_getenv E"
  by (simp_all add: healthy_def)

lemma healthy_id: "(\<And>k. e_wire E k = WOk) \<Longrightarrow> healthy E = E"
  by (cases E) (simp add: healthy_def fun_eq_iff)

lemma healthy_ran: "ran (healthy E) ls failed s t \<Longrightarrow> \<not> failed \<and> s_log t = s_log s @ map EDb ls"
  using good_steps_all [of "healthy E" "length (s_log s)" "length ls"] by (simp add: ran_def)

text \<open>A call that always succeeds applies its statement and reports its result.\<close>

locale db_live = db_op +
  assumes live: "\<not> isl (fst (op s))"
begin

lemma applied:
  obtains k where "length (s_log s) \<le> k" "fst (op s) = Inr (fst (stmt (clock k) (w_tables s)))"
    "w_tables (snd (op s)) = snd (stmt (clock k) (w_tables s))"
proof -
  obtain x s' where x: "op s = (x, s')" by force
  then obtain r where "x = Inr r" using live [of s] by (cases x) simp_all
  with x have r: "op s = (Inr r, s')" by simp
  then obtain k where "length (s_log s) \<le> k" "stmt (clock k) (w_tables s) = (r, w_tables s')"
    using op_ok by blast
  with r that show ?thesis by simp
qed

end

lemma run_tx_live: "\<not> isl (fst (run_tx (healthy E) stmt label s))"
proof -
  obtain r t where r: "run_tx (healthy E) stmt label s = (r, t)" by force
  from run_tx_ran [OF this] healthy_ran have "\<not> isl r" by blast
  with r show ?thesis by simp
qed

interpretation sub_live: db_live "record_subscription (healthy E) payer tier i x sig"
  "insert_sub \<lparr>sb_payer = payer, sb_tier = tier, sb_issued_at = i div 1000,
     sb_expires_at = x div 1000, sb_tx_sig = sig, sb_revoked = False\<rparr>" "e_pgnow (healthy E)"
  for E :: "'e svc_env_scheme" and payer tier i x sig
  unfolding db_live_def db_live_axioms_def
  by (intro conjI allI sub_op.db_op_axioms) (simp add: record_subscription_def run_tx_live)

interpretation rate_live: db_live "check_and_increment_rate (healthy E) key limit"
  "\<lambda>now t. map_prod (\<lambda>n. n \<le> int limit) id (bump_bucket key now t)" "e_pgnow (healthy E)"
  for E :: "'e svc_env_scheme" and key limit
  unfolding db_live_def db_live_axioms_def
  by (intro conjI allI rate_op.db_op_axioms)
    (simp add: check_and_increment_rate_def Let_def case_prod_unfold run_tx_live isl_map_sum)

interpretation log_live: db_live "log_scoring (healthy E) row" "insert_log row" "e_pgnow (healthy E)"
  for E :: "'e svc_env_scheme" and row
  unfolding db_live_def db_live_axioms_def
  by (intro conjI allI log_op.db_op_axioms) (simp add: log_scoring_def run_tx_live)

interpretation labels_live: db_live "fetch_wallet_labels (healthy E)" "select_labels (healthy E)" "e_pgnow (healthy E)"
  for E :: "'e svc_env_scheme"
  unfolding db_live_def db_live_axioms_def
  by (intro conjI allI labels_op.db_op_axioms) (simp add: fetch_wallet_labels_def run_tx_live)

interpretation cached_live: db_live "get_cached_score (healthy E) endpoint subj" "select_cached endpoint subj"
  "e_pgnow (healthy E)" for E :: "'e svc_env_scheme" and endpoint subj
  unfolding db_live_def db_live_axioms_def
  by (intro conjI allI cached_op.db_op_axioms) (simp add: get_cached_score_def run_tx_live)

interpretation set_live: db_live "set_cached_score (healthy E) endpoint subj score band v version ttl"
  "set_stmt endpoint subj score band v version ttl" "e_pgnow (healthy E)"
  for E :: "'e svc_env_scheme" and endpoint subj score band v version ttl
proof -
  have "\<not> isl (fst (set_cached_score (healthy E) endpoint subj score band v version ttl s))"
    for s :: "'b world_scheme"
  proof -
    obtain r t where r: "set_cached_score (healthy E) endpoint subj score band v version ttl s = (r, t)" by force
    from set_cached_score_ran [OF this] healthy_ran have "\<not> isl r" by blast
    with r show ?thesis by simp
  qed
  then show "db_live (set_cached_score (healthy E) endpoint subj score band v version ttl ::
      'b world_scheme \<Rightarrow> _) (set_stmt endpoint subj score band v version ttl) (e_pgnow (healthy E))"
    unfolding db_live_def db_live_axioms_def by (intro conjI allI set_op.db_op_axioms)
qed

end
