(* ===== verification/Retry_Spec.thy ===== *)
theory Retry_Spec
  imports Rpc
begin

text \<open>
  What \<^verbatim>\<open>src/rpc_retry.rs\<close> promises in its module documentation, stated apart from the code: which
  errors are terminal, and a machine that may make an attempt, pause and stop only under the
  documented conditions. The loop of \<^verbatim>\<open>Retry\<close> refines the machine. Its consequences are then read
  off for the seven RPC methods that are retried.
\<close>

section \<open>The specification\<close>

text \<open>The table of the module documentation, by error variant. (Its note that a JSON error is retried
  once is not what the code does: such an error is transient like any other.)\<close>

definition TRANSIENT_WORDS :: "string list" where
  "TRANSIENT_WORDS = [''rate limit'', ''too many requests'', ''server error'', ''temporarily unavailable'',
     ''gateway'', ''timeout'']"

fun terminal_error :: "client_error \<Rightarrow> bool" where
  "terminal_error (SigningError _) = True"
| "terminal_error (TransactionError _) = True"
| "terminal_error (Custom _) = True"
| "terminal_error (Reqwest timeout connect body decode) = (\<not> timeout \<and> \<not> connect \<and> \<not> body \<and> \<not> decode)"
| "terminal_error (RpcErr (RpcResponseError code message data)) =
     (code = - 32602 \<or> data = SendTransactionPreflightFailure
      \<or> list_all (\<lambda>w. \<not> contains (to_lower message) w) TRANSIENT_WORDS)"
| "terminal_error _ = False"

text \<open>The loop is about to make an attempt, with the number of attempts made before, or has stopped.\<close>

datatype ('s, 't) retry_config = Attempt nat 's | Stopped "client_error + 't" 's

text \<open>The longest pause after \<open>n + 1\<close> attempts: the initial backoff, doubled each time.\<close>

definition longest_pause :: "retry_policy \<Rightarrow> nat \<Rightarrow> nat" where
  "longest_pause policy n = initial_backoff policy * 2 ^ n"

text \<open>Success ends the loop. After a failure it gives up only for a terminal error, with the attempts used
  up, or with so little of the time budget left that a permitted pause overruns it; it pauses and
  tries again only after a transient error, with attempts left, for no longer than the backoff, and
  only if the pause ends within the budget.\<close>

inductive retry_spec ::
    "retry_policy \<Rightarrow> (nat \<Rightarrow> nat) \<Rightarrow> ('a sys_scheme \<Rightarrow> (client_error + 't) \<times> 'a sys_scheme) \<Rightarrow> nat
     \<Rightarrow> ('a sys_scheme, 't) retry_config \<Rightarrow> ('a sys_scheme, 't) retry_config \<Rightarrow> bool"
  for policy dur op started where
  answered: "op s = (Inr v, t) \<Longrightarrow> retry_spec policy dur op started (Attempt n s) (Stopped (Inr v) t)"
| terminal: "\<lbrakk>op s = (Inl err, t); terminal_error err\<rbrakk>
    \<Longrightarrow> retry_spec policy dur op started (Attempt n s) (Stopped (Inl err) t)"
| exhausted: "\<lbrakk>op s = (Inl err, t); max_attempts policy \<le> Suc n\<rbrakk>
    \<Longrightarrow> retry_spec policy dur op started (Attempt n s) (Stopped (Inl err) t)"
| out_of_time: "\<lbrakk>op s = (Inl err, t);
      total_budget policy \<le> (s_now t - started) + max ms (longest_pause policy n)\<rbrakk>
    \<Longrightarrow> retry_spec policy dur op started (Attempt n s) (Stopped (Inl err) t)"
| paused: "\<lbrakk>op s = (Inl err, t); \<not> terminal_error err; Suc n < max_attempts policy;
      d * ms \<le> longest_pause policy n; (s_now t - started) + d * ms < total_budget policy\<rbrakk>
    \<Longrightarrow> retry_spec policy dur op started (Attempt n s) (Attempt (Suc n) (do_sleep dur d t))"

inductive_cases retry_spec_attemptE: "retry_spec policy dur op started (Attempt n s) c"
inductive_simps retry_spec_stopped [simp]: "retry_spec policy dur op started (Stopped r s) c"

text \<open>The machine has no endless run.\<close>

lemma retry_spec_wf: "wfP (\<lambda>c' c. retry_spec policy dur op started c c')"
proof -
  let ?m = "\<lambda>c. case c of Attempt n _ \<Rightarrow> Suc (max_attempts policy - n) | Stopped _ _ \<Rightarrow> 0"
  have "?m c' < ?m c" if "retry_spec policy dur op started c c'" for c c'
    using that by cases auto
  then show ?thesis by (intro wfp_if_convertible_to_nat [of _ ?m])
qed

section \<open>The loop refines it\<close>

lemma terminal_error_iff: "terminal_error err \<longleftrightarrow> retryable_reason err = None"
proof (cases err)
  case (RpcErr e)
  then show ?thesis by (cases e) (auto simp: TRANSIENT_WORDS_def Let_def)
qed auto

lemma shl_or_max_le: "shl_or_max n \<le> 2 ^ n"
proof (cases "n < 32")
  case False
  then have "(2 :: nat) ^ 32 \<le> 2 ^ n" by (intro power_increasing) simp_all
  then show ?thesis using False by (simp add: shl_or_max_def)
qed (simp add: shl_or_max_def)

lemma drawn_pause_le:
  "jitter_ms rng k (backoff_base_ms policy (Suc n) left) * ms \<le> longest_pause policy n"
proof -
  let ?b = "backoff_base_ms policy (Suc n) left"
  have "jitter_ms rng k ?b \<le> ?b" by (simp add: jitter_ms_def less_Suc_eq_le [symmetric])
  also have "?b \<le> (initial_backoff policy * shl_or_max n) div ms"
    unfolding backoff_base_ms_def Let_def
    by (rule order_trans [OF mod_less_eq_dividend]) (simp add: div_le_mono min.coboundedI1)
  finally have "jitter_ms rng k ?b * ms \<le> initial_backoff policy * shl_or_max n"
    by (simp add: ms_def less_eq_div_iff_mult_less_eq)
  also have "\<dots> \<le> longest_pause policy n"
    unfolding longest_pause_def by (rule mult_le_mono2 [OF shl_or_max_le])
  finally show ?thesis .
qed

text \<open>Each decision of the code is a move of the machine.\<close>

lemma decision_gives_up:
  assumes "op s = (Inl err, t)" "retry_decision policy rng k (Suc n) (s_now t - started) err = None"
  shows "retry_spec policy dur op started (Attempt n s) (Stopped (Inl err) t)"
proof -
  let ?left = "total_budget policy - (s_now t - started)"
  let ?d = "jitter_ms rng k (backoff_base_ms policy (Suc n) ?left)"
  have "retryable_reason err = None \<or> max_attempts policy \<le> Suc n \<or> ?left \<le> ms \<or> ?left \<le> ?d * ms"
    using assms(2) by (auto simp: retry_decision_def Let_def not_less split: if_splits)
  then consider "terminal_error err" | "max_attempts policy \<le> Suc n"
    | "total_budget policy \<le> (s_now t - started) + max ms (longest_pause policy n)"
    using drawn_pause_le [of rng k policy n ?left] unfolding terminal_error_iff by fastforce
  then show ?thesis
  proof cases
    case 1
    show ?thesis by (rule terminal [where op = op and s = s, OF assms(1) 1])
  next
    case 2
    show ?thesis by (rule exhausted [where op = op and s = s, OF assms(1) 2])
  next
    case 3
    show ?thesis by (rule out_of_time [where op = op and s = s, OF assms(1) 3])
  qed
qed

lemma decision_pauses:
  assumes "op s = (Inl err, t)" "retry_decision policy rng k (Suc n) (s_now t - started) err = Some d"
  shows "retry_spec policy dur op started (Attempt n s) (Attempt (Suc n) (do_sleep dur d t))"
proof (rule paused [where op = op and s = s, OF assms(1)])
  show "\<not> terminal_error err" using retry_decision_SomeD(1) [OF assms(2)] by (simp add: terminal_error_iff)
  show "Suc n < max_attempts policy" by (rule retry_decision_SomeD(2) [OF assms(2)])
  have "d * ms \<le> initial_backoff policy * shl_or_max n" using retry_decision_SomeD(4) [OF assms(2)] by simp
  also have "\<dots> \<le> longest_pause policy n"
    unfolding longest_pause_def by (rule mult_le_mono2 [OF shl_or_max_le])
  finally show "d * ms \<le> longest_pause policy n" .
  show "(s_now t - started) + d * ms < total_budget policy" by (rule retry_decision_SomeD(3) [OF assms(2)])
qed

lemma retry_loop_refines:
  "(retry_spec policy dur op started)\<^sup>*\<^sup>* (Attempt n s)
     (case_prod Stopped (retry_loop policy rng dur op started n s))"
proof (induction "max_attempts policy - n" arbitrary: n s rule: less_induct)
  case less
  obtain r t where op: "op s = (r, t)" by force
  show ?case
  proof (cases r)
    case (Inr v)
    then show ?thesis using op answered [of op s v t]
      by (simp add: retry_loop.simps [of _ _ _ _ _ n s] r_into_rtranclp)
  next
    case (Inl err)
    note op' = op [unfolded Inl]
    show ?thesis
    proof (cases "retry_decision policy rng (length (s_log t)) (Suc n) (s_now t - started) err")
      case None
      from decision_gives_up [where op = op and s = s and dur = dur, OF op' None] show ?thesis
        using op' None by (simp add: retry_loop.simps [of _ _ _ _ _ n s] r_into_rtranclp)
    next
      case (Some d)
      have "max_attempts policy - Suc n < max_attempts policy - n"
        using retry_decision_SomeD(2) [OF Some] by simp
      from less [OF this, of "do_sleep dur d t"] show ?thesis
        using converse_rtranclp_into_rtranclp [where r = "retry_spec policy dur op started", OF decision_pauses [where op = op and s = s and dur = dur, OF op' Some]] op' Some
        by (simp add: retry_loop.simps [of _ _ _ _ _ n s])
    qed
  qed
qed

lemma with_retry_refines:
  "(retry_spec policy dur op (s_now s))\<^sup>*\<^sup>* (Attempt 0 s)
     (Stopped (fst (with_retry policy rng dur op s)) (snd (with_retry policy rng dur op s)))"
  using retry_loop_refines [of policy dur op "s_now s" 0 s rng] by (simp add: with_retry_def case_prod_unfold)

section \<open>The retried methods\<close>

text \<open>What the documentation calls the budget: from \<open>s\<close> to \<open>t\<close> the log gains at least one request and at
  most the configured number, and the pauses asked for between them stay below the time budget.\<close>

definition call_bounded :: "'e env_scheme \<Rightarrow> 'a sys_scheme \<Rightarrow> 'a sys_scheme \<Rightarrow> bool" where
  "call_bounded E s t =
     (let policy = policy_from_env (e_getenv E)
      in \<exists>es. s_log t = s_log s @ es
         \<and> 1 \<le> calls es \<and> calls es \<le> max_attempts policy \<and> calls es \<le> 10
         \<and> slept es * ms < total_budget policy \<and> slept es < 30000)"

text \<open>Why a failed call stopped: its last error is terminal, the attempts are used up, the budget is
  spent to the millisecond, or the pause that was drawn would overrun it.\<close>

definition failure_has_reason ::
    "'e env_scheme \<Rightarrow> 'a sys_scheme \<Rightarrow> (client_error + 't) \<times> 'a sys_scheme \<Rightarrow> bool" where
  "failure_has_reason E s rt =
     (let policy = policy_from_env (e_getenv E)
      in case rt of
           (Inr _, _) \<Rightarrow> True
         | (Inl err, t) \<Rightarrow>
             (\<exists>es. s_log t = s_log s @ es \<and>
                (terminal_error err
                 \<or> calls es = max_attempts policy
                 \<or> total_budget policy \<le> s_now t - s_now s + ms
                 \<or> total_budget policy \<le> s_now t - s_now s
                     + jitter_ms (e_rng E) (length (s_log t))
                         (backoff_base_ms policy (calls es) (total_budget policy - (s_now t - s_now s))) * ms)))"

lemma policy_budget:
  "100 * ms \<le> total_budget (policy_from_env g)" "total_budget (policy_from_env g) \<le> 30000 * ms"
  using clamp_nat_bounds [of 100 30000] by (simp_all add: policy_from_env_def Let_def)

context rpc_operation
begin

lemma retrying_bounded: "call_bounded E s (snd (retrying E op s))"
proof -
  let ?p = "policy_from_env (e_getenv E)"
  obtain r t where rt: "retrying E op s = (r, t)" by force
  note w = rt [unfolded retrying_def]
  obtain es where es: "s_log t = s_log s @ es" "1 \<le> calls es" "calls es \<le> max 1 (max_attempts ?p)"
    using with_retry_attempts [OF w] by blast
  have "slept es = 0 \<or> slept es * ms < total_budget ?p"
    using loop_pauses [of "s_now s" s ?p "e_rng E" "e_dur E" 0] w es(1) by (auto simp: with_retry_def)
  then have "slept es * ms < total_budget ?p" using policy_budget(1) [of "e_getenv E"] by (auto simp: ms_def)
  moreover from this have "slept es < 30000"
    using policy_budget(2) [of "e_getenv E"] by (simp add: ms_def)
  ultimately show ?thesis
    using es policy_attempts [of "e_getenv E"] unfolding call_bounded_def Let_def rt snd_conv
    by (intro exI [of _ es]) simp
qed

lemma retrying_failure: "failure_has_reason E s (retrying E op s)"
proof (cases "retrying E op s")
  case (Pair r t)
  show ?thesis
  proof (cases r)
    case (Inl err)
    note w = Pair [unfolded Inl retrying_def]
    let ?p = "policy_from_env (e_getenv E)"
    obtain es where es: "s_log t = s_log s @ es" "calls es \<le> max 1 (max_attempts ?p)"
      using with_retry_attempts [OF w] by blast
    then have "calls es \<le> max_attempts ?p" using policy_attempts [of "e_getenv E"] by simp
    then show ?thesis
      using with_retry_failure [OF w] es(1) unfolding failure_has_reason_def Pair Inl terminal_error_iff Let_def
      by (auto intro!: exI [of _ es])
  qed (simp add: failure_has_reason_def Pair)
qed

end

end
