(* ===== verification/Caches.thy ===== *)
theory Caches
  imports Db
begin

text \<open>
  The process-wide caches in front of the database: parameters (\<^verbatim>\<open>src/parameters.rs\<close>), wallet
  labels (the refresh of \<^verbatim>\<open>src/signals/labels.rs\<close>) and database health
  (\<^verbatim>\<open>src/api/handlers.rs\<close>). Each is refreshed when its time to live has passed; the locale
  \<open>ttl_cache\<close> states that contract. \<open>svc_frame\<close> is what every operation of the service keeps.
\<close>

section \<open>What every operation of the service keeps\<close>

text \<open>Stored rows stay: subscriptions and the audit log only grow, no rate counter goes back, the score
  cache keeps one row per key, parameters and labels are never written.\<close>

definition rates_le :: "tables \<Rightarrow> tables \<Rightarrow> bool" where
  "rates_le t u \<longleftrightarrow> (\<forall>key m. bucket_count key m t \<le> bucket_count key m u)"

lemma rates_le_refl [simp, intro]: "rates_le t t"
  by (simp add: rates_le_def)

lemma rates_le_trans [trans]: "\<lbrakk>rates_le t u; rates_le u v\<rbrakk> \<Longrightarrow> rates_le t v"
  unfolding rates_le_def using order_trans by blast

lemma rates_le_bump [simp]: "rates_le t (snd (bump_bucket key now t))"
  by (simp add: rates_le_def bump_bucket_count(2))

lemma rates_le_upd [simp]:
  "rates_le t (t\<lparr>t_subs := a\<rparr>)" "rates_le t (t\<lparr>t_log := b\<rparr>)" "rates_le t (t\<lparr>t_cache := c\<rparr>)"
  "rates_le t (t\<lparr>t_params := p, t_labels := l\<rparr>)"
  by (simp_all add: rates_le_def bucket_count_def)

definition tables_le :: "tables \<Rightarrow> tables \<Rightarrow> bool" where
  "tables_le t u \<longleftrightarrow>
     (cache_unique t \<longrightarrow> cache_unique u) \<and> prefix (t_subs t) (t_subs u) \<and> prefix (t_log t) (t_log u)
     \<and> rates_le t u \<and> t_params u = t_params t \<and> t_labels u = t_labels t"

lemma tables_le_refl [simp, intro]: "tables_le t t"
  by (simp add: tables_le_def)

lemma tables_le_trans: "\<lbrakk>tables_le t u; tables_le u v\<rbrakk> \<Longrightarrow> tables_le t v"
  by (auto simp: tables_le_def intro: prefix_order.trans rates_le_trans)

definition svc_frame :: "(effect \<Rightarrow> bool) \<Rightarrow> 'a world_scheme \<Rightarrow> 'a world_scheme \<Rightarrow> bool" where
  "svc_frame P s t \<longleftrightarrow>
     s_now s \<le> s_now t \<and> (\<exists>es. s_log t = s_log s @ es \<and> (\<forall>e \<in> set es. P e))
     \<and> (pool_idle s \<longrightarrow> pool_idle t) \<and> tables_le (w_tables s) (w_tables t)"

lemma svc_frame_refl [simp, intro]: "svc_frame P s s"
  by (simp add: svc_frame_def)

lemma svc_frame_trans [trans]: "\<lbrakk>svc_frame P s t; svc_frame P t u\<rbrakk> \<Longrightarrow> svc_frame P s u"
  unfolding svc_frame_def by (auto intro: tables_le_trans)

lemma svc_frame_mono: "\<lbrakk>svc_frame P s t; \<And>e. P e \<Longrightarrow> Q e\<rbrakk> \<Longrightarrow> svc_frame Q s t"
  unfolding svc_frame_def by auto

lemma db_frame_svc: "\<lbrakk>db_frame s t; tables_le (w_tables s) (w_tables t)\<rbrakk> \<Longrightarrow> svc_frame is_db s t"
  by (auto simp: svc_frame_def db_frame_def)

lemma grows_svc:
  assumes "grows P s t"
  shows "svc_frame P s (t :: 'a world_scheme)"
  using growsD [OF assms] grows_world [OF assms] by (auto simp: svc_frame_def pool_idle_def)

lemma svc_frame_upd [simp]:
  "svc_frame P s (t\<lparr>w_params := p\<rparr>) = svc_frame P s t"
  "svc_frame P s (t\<lparr>w_labels := l\<rparr>) = svc_frame P s t"
  "svc_frame P s (t\<lparr>w_health := h\<rparr>) = svc_frame P s t"
  by (simp_all add: svc_frame_def pool_idle_def)

context db_op
begin

lemma svc: "(\<And>now t. tables_le t (snd (stmt now t))) \<Longrightarrow> svc_frame is_db s (snd (op s))"
  using op_frame [of s] tables_cases [of s] by (auto intro!: db_frame_svc)

end

lemma stmt_tables_le:
  "tables_le t (snd (insert_sub row now t))"
  "tables_le t (snd (map_prod f id (bump_bucket key now t)))"
  "tables_le t (snd (insert_log lrow now t))"
  "tables_le t (snd (set_stmt ep sj sc b v ver ttl now t))"
  using set_stmt_unique [of t ep sj sc b v ver ttl now] rates_le_bump [of t key now]
  by (auto simp: tables_le_def insert_sub_def bump_bucket_def insert_log_def Let_def cache_unique_def
      set_stmt_def insert_cached_def delete_cached_def)

lemma db_svc [frame_rules]:
  "svc_frame is_db s (snd (record_subscription E payer tier i x sig s))"
  "svc_frame is_db s (snd (check_and_increment_rate E key limit s))"
  "svc_frame is_db s (snd (log_scoring E lrow s))"
  "svc_frame is_db s (snd (set_cached_score E ep sj sc b v ver ttl s))"
  "svc_frame is_db s (snd (get_cached_score E ep sj s))"
  "svc_frame is_db s (snd (fetch_wallet_labels E s))"
  "svc_frame is_db s (snd (is_revoked E payer iat s))"
  "svc_frame is_db s (snd (fetch_service_parameters E service s))"
  "svc_frame is_db s (snd (ping E s))"
  by (rule sub_op.svc rate_op.svc log_op.svc set_op.svc, rule stmt_tables_le)+
    (auto intro!: db_frame_svc cached_op.op_frame labels_op.op_frame revoked_op.op_frame
      fetch_service_parameters_frame(1) ping_frame(1)
      simp: cached_op.tables_unchanged labels_op.tables_unchanged revoked_op.tables_unchanged
        fetch_service_parameters_frame(2) ping_frame(2))

text \<open>A cache with a time to live: while it is fresh, a refresh does nothing at all.\<close>

locale ttl_cache =
  fixes refresh :: "'a world_scheme \<Rightarrow> 'a world_scheme"
    and fresh :: "'a world_scheme \<Rightarrow> bool"
  assumes fresh_noop: "fresh s \<Longrightarrow> refresh s = s"
    and refresh_frame: "svc_frame is_db s (refresh s)"
    and refresh_tables: "w_tables (refresh s) = w_tables s"
begin

lemma refresh_twice: "fresh (refresh s) \<Longrightarrow> refresh (refresh s) = refresh s"
  by (rule fresh_noop)

lemma stale_if_effects: "s_log (refresh s) \<noteq> s_log s \<Longrightarrow> \<not> fresh s"
  using fresh_noop [of s] by auto

end

section \<open>Parameters\<close>

definition SERVICE :: string where
  "SERVICE = ''solrisk''"

definition env_secs :: "(string \<Rightarrow> string option) \<Rightarrow> string \<Rightarrow> nat \<Rightarrow> nat" where
  "env_secs getenv key dflt =
     unwrap_or (Option.bind (getenv key) (parse_unsigned (2 ^ 64))) dflt * 1000000000"

definition parameters_cache_ttl :: "(string \<Rightarrow> string option) \<Rightarrow> nat" where
  "parameters_cache_ttl getenv = env_secs getenv ''SOLRISK_PARAMETERS_CACHE_TTL_SEC'' 60"

definition cache_needs_refresh :: "param_cache \<Rightarrow> nat \<Rightarrow> nat \<Rightarrow> bool" where
  "cache_needs_refresh c ttl now =
     (case pc_last_fetch c of None \<Rightarrow> True | Some t \<Rightarrow> now - t > ttl)"

definition or_insert :: "string \<Rightarrow> string \<Rightarrow> (string \<times> string) list \<Rightarrow> (string \<times> string) list" where
  "or_insert k v m = (if map_of m k = None then AList.update k v m else m)"

definition param_step :: "(string \<times> string) list \<Rightarrow> string \<times> string \<times> string \<Rightarrow> (string \<times> string) list" where
  "param_step m row =
     (case row of (endpoint, name, v) \<Rightarrow>
        let m1 = AList.update (endpoint @ '':'' @ name) v m;
            m2 = (if endpoint = ''*'' then or_insert name v m1 else m1)
        in if starts_with name ''SOLRISK_'' then
             or_insert (''*:'' @ unwrap_or (strip_prefix name ''SOLRISK_'') name) v m2
           else m2)"

definition param_map :: "(string \<times> string \<times> string) list \<Rightarrow> (string \<times> string) list" where
  "param_map rows = foldl param_step [] rows"

text \<open>\<^verbatim>\<open>fetch_parameters_map\<close>, the flat map for legacy readers.\<close>

definition flat_step :: "(string \<times> string) list \<Rightarrow> string \<times> string \<times> string \<Rightarrow> (string \<times> string) list" where
  "flat_step m row =
     (case row of (endpoint, name, v) \<Rightarrow>
        let m1 = AList.update (endpoint @ '':'' @ name) v m
        in if endpoint = ''*'' then or_insert name v m1 else m1)"

definition fetch_parameters_map ::
    "'e svc_env_scheme \<Rightarrow> 'a world_scheme \<Rightarrow> (err + (string \<times> string) list) \<times> 'a world_scheme" where
  "fetch_parameters_map E s =
     (let (r, s1) = fetch_service_parameters E SERVICE s
      in (map_sum id (foldl flat_step []) r, s1))"

definition refresh_parameters_from_db :: "'e svc_env_scheme \<Rightarrow> 'a world_scheme \<Rightarrow> 'a world_scheme" where
  "refresh_parameters_from_db E s =
     (if \<not> e_has_db E then s
      else if \<not> cache_needs_refresh (w_params s) (parameters_cache_ttl (e_getenv E)) (s_now s) then s
      else let now = s_now s; (r, s1) = fetch_service_parameters E SERVICE s
           in case r of
                Inr rows \<Rightarrow> s1\<lparr>w_params := \<lparr>pc_map = param_map rows, pc_last_fetch = Some now\<rparr>\<rparr>
              | Inl _ \<Rightarrow> s1\<lparr>w_params := (w_params s1)\<lparr>pc_last_fetch := Some now\<rparr>\<rparr>)"

definition lookup_cached :: "param_cache \<Rightarrow> string \<Rightarrow> string \<Rightarrow> string option" where
  "lookup_cached c endpoint name =
     first_opt (List.map_filter (\<lambda>k. opt_filter (\<lambda>v. v \<noteq> []) (map_of (pc_map c) k))
       [endpoint @ '':'' @ name, ''*:'' @ name, ''SOLRISK_'' @ name, name])"

definition env_lookup :: "(string \<Rightarrow> string option) \<Rightarrow> string \<Rightarrow> string option" where
  "env_lookup getenv name =
     (if CHR ''|'' \<in> set name then
        first_opt (List.map_filter (\<lambda>p. opt_filter (\<lambda>v. trim v \<noteq> []) (getenv p)) (split_on (CHR ''|'') name))
      else getenv name)"

definition resolve_string_for_endpoint ::
    "'e svc_env_scheme \<Rightarrow> string \<Rightarrow> string \<Rightarrow> string option \<Rightarrow> 'a world_scheme
     \<Rightarrow> string option \<times> 'a world_scheme" where
  "resolve_string_for_endpoint E endpoint name env_var s =
     (let s1 = (if e_has_db E then refresh_parameters_from_db E s else s)
      in (case lookup_cached (w_params s1) endpoint name of
            Some v \<Rightarrow> Some v
          | None \<Rightarrow> opt_filter (\<lambda>v. v \<noteq> []) (Option.bind env_var (env_lookup (e_getenv E))), s1))"

definition resolve_string where
  "resolve_string E key env_var s = resolve_string_for_endpoint E ''*'' key env_var s"

definition resolve_network where
  "resolve_network E endpoint s =
     resolve_string_for_endpoint E endpoint ''X402_NETWORK'' (Some ''X402_NETWORK'') s"

definition resolve_pay_to where
  "resolve_pay_to E endpoint s =
     resolve_string_for_endpoint E endpoint ''X402_PAY_TO'' (Some ''X402_PAY_TO|X402_PAY_TO_WALLET'') s"

definition resolve_merchant_wallet where
  "resolve_merchant_wallet E endpoint s =
     resolve_string_for_endpoint E endpoint ''MERCHANT_WALLET''
       (Some ''X402_MERCHANT_WALLET|MERCHANT_WALLET|SELLER_WALLET'') s"

definition resolve_scheme where
  "resolve_scheme E endpoint s =
     resolve_string_for_endpoint E endpoint ''X402_SCHEME'' (Some ''X402_SCHEME'') s"

definition resolve_accepts_json ::
    "'e svc_env_scheme \<Rightarrow> string \<Rightarrow> 'a world_scheme \<Rightarrow> string option \<times> 'a world_scheme" where
  "resolve_accepts_json E endpoint s =
     (let (r, s1) = resolve_string_for_endpoint E endpoint ''X402_ACCEPTS_JSON''
                      (Some ''X402_ACCEPTS_JSON|X402_PAYMENT_ACCEPTS_JSON'') s
      in case r of
           Some v \<Rightarrow> (Some v, s1)
         | None \<Rightarrow> resolve_string E ''SOLRISK_X402_ACCEPTS_JSON'' None s1)"

definition resolve_timeout_sec ::
    "'e svc_env_scheme \<Rightarrow> string \<Rightarrow> nat \<Rightarrow> 'a world_scheme \<Rightarrow> nat \<times> 'a world_scheme" where
  "resolve_timeout_sec E endpoint dflt s =
     (let (r, s1) = resolve_string_for_endpoint E endpoint ''X402_PAYMENT_TIMEOUT_SEC''
                      (Some ''X402_PAYMENT_TIMEOUT_SECONDS'') s
      in (unwrap_or (Option.bind r (parse_unsigned (2 ^ 64))) dflt, s1))"

section \<open>Labels\<close>

definition labels_ttl :: "(string \<Rightarrow> string option) \<Rightarrow> nat" where
  "labels_ttl getenv = env_secs getenv ''SOLRISK_LABELS_CACHE_TTL_SEC'' 300"

definition refresh_labels_from_db :: "'e svc_env_scheme \<Rightarrow> 'a world_scheme \<Rightarrow> 'a world_scheme" where
  "refresh_labels_from_db E s =
     (if \<not> e_has_db E then s
      else if label_cache_fresh (labels_ttl (e_getenv E)) (s_now s) (w_labels s) then s
      else let (r, s1) = fetch_wallet_labels E s
           in case r of
                Inr rows \<Rightarrow>
                  if rows \<noteq> [] then s1\<lparr>w_labels := install_labels rows (s_now s1) (w_labels s1)\<rparr> else s1
              | Inl _ \<Rightarrow> s1)"

definition deny_index :: "'a world_scheme \<Rightarrow> label_idx" where
  "deny_index s = lc_deny (w_labels s)"

definition allow_index :: "'a world_scheme \<Rightarrow> label_idx" where
  "allow_index s = lc_allow (w_labels s)"

section \<open>Database health\<close>

definition DB_HEALTH_TTL :: nat where
  "DB_HEALTH_TTL = 30 * 1000000000"

definition health_fresh :: "'a world_scheme \<Rightarrow> bool" where
  "health_fresh s = (case w_health s of Some (_, t) \<Rightarrow> s_now s - t < DB_HEALTH_TTL | None \<Rightarrow> False)"

definition db_connected :: "'e svc_env_scheme \<Rightarrow> 'a world_scheme \<Rightarrow> bool \<times> 'a world_scheme" where
  "db_connected E s =
     (if \<not> e_has_db E then (False, s)
      else if health_fresh s then (unwrap_or (map_option fst (w_health s)) False, s)
      else let (r, s1) = ping E s; good = is_ok r
           in (good, s1\<lparr>w_health := Some (good, s_now s1)\<rparr>))"

section \<open>The caches satisfy the contract\<close>

interpretation params_cache: ttl_cache "refresh_parameters_from_db E"
  "\<lambda>s. \<not> e_has_db E \<or> \<not> cache_needs_refresh (w_params s) (parameters_cache_ttl (e_getenv E)) (s_now s)"
  for E :: "'e svc_env_scheme"
proof
  fix s
  show "svc_frame is_db s (refresh_parameters_from_db E s)"
    using db_svc(8) [of s E SERVICE]
    by (auto simp: refresh_parameters_from_db_def Let_def split: prod.split sum.split)
  show "w_tables (refresh_parameters_from_db E s) = w_tables s"
    using fetch_service_parameters_frame(2) [of E SERVICE s]
    by (auto simp: refresh_parameters_from_db_def Let_def split: prod.split sum.split)
qed (auto simp: refresh_parameters_from_db_def)

interpretation label_cache: ttl_cache "refresh_labels_from_db E"
  "\<lambda>s. \<not> e_has_db E \<or> label_cache_fresh (labels_ttl (e_getenv E)) (s_now s) (w_labels s)"
  for E :: "'e svc_env_scheme"
proof
  fix s
  show "svc_frame is_db s (refresh_labels_from_db E s)"
    using db_svc(6) [of s E]
    by (auto simp: refresh_labels_from_db_def Let_def split: prod.split sum.split)
  show "w_tables (refresh_labels_from_db E s) = w_tables s"
    using labels_op.tables_unchanged [of E s]
    by (auto simp: refresh_labels_from_db_def Let_def split: prod.split sum.split)
qed (auto simp: refresh_labels_from_db_def)

interpretation health_cache: ttl_cache "\<lambda>s. snd (db_connected E s)"
  "\<lambda>s. \<not> e_has_db E \<or> health_fresh s" for E :: "'e svc_env_scheme"
proof
  fix s
  show "svc_frame is_db s (snd (db_connected E s))"
    using db_svc(9) [of s E] by (auto simp: db_connected_def Let_def split: prod.split)
  show "w_tables (snd (db_connected E s)) = w_tables s"
    using ping_frame(2) [of E s] by (auto simp: db_connected_def Let_def split: prod.split)
qed (auto simp: db_connected_def)

section \<open>Which parameter wins\<close>

lemma or_insert_keeps: "map_of m k = Some v \<Longrightarrow> map_of (or_insert k' v' m) k = Some v"
  by (auto simp: or_insert_def update_conv')

lemma param_step_keeps:
  assumes "map_of m k = Some v" "fst row @ '':'' @ fst (snd row) \<noteq> k"
  shows "map_of (param_step m row) k = Some v"
proof -
  obtain ep n w where row: "row = (ep, n, w)" by (metis prod_cases3)
  have "map_of (AList.update (ep @ '':'' @ n) w m) k = Some v"
    using assms row by (simp add: update_conv')
  then show ?thesis
    unfolding row param_step_def prod.case Let_def by (simp only: or_insert_keeps split: if_split) simp
qed

lemma param_step_inserts: "map_of (param_step m (ep, n, v)) (ep @ '':'' @ n) = Some v"
proof -
  have "map_of (AList.update (ep @ '':'' @ n) v m) (ep @ '':'' @ n) = Some v"
    by (simp only: update_conv' fun_upd_same)
  then show ?thesis
    unfolding param_step_def prod.case Let_def by (simp only: or_insert_keeps split: if_split) simp
qed

lemma param_map_row:
  assumes "distinct (map (\<lambda>(ep, n, _). ep @ '':'' @ n) rows)" "(ep, n, v) \<in> set rows"
  shows "map_of (param_map rows) (ep @ '':'' @ n) = Some v"
  using assms
proof (induction rows rule: rev_induct)
  case (snoc row rows)
  show ?case
  proof (cases "(ep, n, v) = row")
    case True
    then show ?thesis using param_step_inserts [of "param_map rows" ep n v]
      by (auto simp: param_map_def)
  next
    case False
    with snoc.prems have "(ep, n, v) \<in> set rows" by auto
    moreover have "fst row @ '':'' @ fst (snd row) \<noteq> ep @ '':'' @ n"
      using snoc.prems(1) calculation by (cases row) force
    ultimately show ?thesis
      using snoc.IH snoc.prems(1) param_step_keeps by (simp add: param_map_def)
  qed
qed simp

text \<open>The row of the endpoint itself wins over every other source.\<close>

lemma lookup_endpoint_row:
  assumes "distinct (map (\<lambda>(ep, n, _). ep @ '':'' @ n) rows)" "(ep, n, v) \<in> set rows" "v \<noteq> []"
    "pc_map c = param_map rows"
  shows "lookup_cached c ep n = Some v"
  using param_map_row [OF assms(1,2)] assms(3,4)
  by (simp only: lookup_cached_def map_filter_simps opt_filter_def option.case if_True
      first_opt_def list.case HOL.simp_thms)

lemma resolve_frame [frame_rules]:
  "svc_frame is_db s (snd (resolve_string_for_endpoint E ep n ev s))"
  "w_tables (snd (resolve_string_for_endpoint E ep n ev s)) = w_tables s"
  using params_cache.refresh_frame [of s E] params_cache.refresh_tables [of E s]
  by (auto simp: resolve_string_for_endpoint_def Let_def)

lemma resolve_all_frame [frame_rules]:
  "svc_frame is_db s (snd (resolve_network E ep s))"
  "svc_frame is_db s (snd (resolve_pay_to E ep s))"
  "svc_frame is_db s (snd (resolve_merchant_wallet E ep s))"
  "svc_frame is_db s (snd (resolve_scheme E ep s))"
  "svc_frame is_db s (snd (resolve_accepts_json E ep s))"
  "svc_frame is_db s (snd (resolve_timeout_sec E ep d s))"
  unfolding resolve_network_def resolve_pay_to_def resolve_merchant_wallet_def resolve_scheme_def
    resolve_accepts_json_def resolve_timeout_sec_def resolve_string_def case_prod_unfold Let_def
  by (auto intro!: resolve_frame(1) intro: svc_frame_trans [OF resolve_frame(1)] split: option.split)

section \<open>Deny and allow stay apart\<close>

text \<open>Every entry of the deny index has a positive weight and no entry of the allow index has.\<close>

definition labels_split :: "label_cache \<Rightarrow> bool" where
  "labels_split c \<longleftrightarrow>
     (\<forall>w. (\<forall>e \<in> set (li_lookup (lc_deny c) w). 0 < le_weight e)
        \<and> (\<forall>e \<in> set (li_lookup (lc_allow c) w). le_weight e \<le> 0))"

lemma install_labels_split: "labels_split (install_labels rows now c)"
  by (auto simp: labels_split_def install_labels_def li.lookup_build)

lemma refresh_labels_split: "labels_split (w_labels s) \<Longrightarrow> labels_split (w_labels (refresh_labels_from_db E s))"
  using labels_op.keeps_caches(1) [of E s] install_labels_split
  by (auto simp: refresh_labels_from_db_def Let_def split: prod.split sum.split)

text \<open>After a refresh with rows, the deny index answers exactly the positive rows of the wallet.\<close>

lemma refresh_labels_installs:
  assumes "e_has_db E" "\<not> label_cache_fresh (labels_ttl (e_getenv E)) (s_now s) (w_labels s)"
    and "fetch_wallet_labels E s = (Inr rows, s1)" "rows \<noteq> []"
  shows "li_lookup (deny_index (refresh_labels_from_db E s)) w
      = filter (\<lambda>e. le_wallet e = w \<and> 0 < le_weight e) rows"
    "li_lookup (allow_index (refresh_labels_from_db E s)) w
      = filter (\<lambda>e. le_wallet e = w \<and> le_weight e \<le> 0) rows"
  using assms by (auto simp: refresh_labels_from_db_def deny_index_def allow_index_def install_labels_def
      li.lookup_build not_less conj_commute)

end
