(* ===== verification/Http.thy ===== *)
theory Http
  imports World
begin

text \<open>
  \<^verbatim>\<open>src/api/common.rs\<close>, and the conversion of errors to responses in \<^verbatim>\<open>src/error.rs\<close>: every
  response the API builds, the settlement proof attached to it, and the query string reader.
\<close>

definition API_VERSION :: nat where
  "API_VERSION = 2"

definition RISK_CORS_ALLOW_HEADERS :: string where
  "RISK_CORS_ALLOW_HEADERS =
     ''Content-Type, Authorization, PAYMENT-SIGNATURE, Payment-Required, PAYMENT-RESPONSE, X-API-Version, X-Correlation-ID''"

definition cors_headers :: headers where
  "cors_headers =
     [(''Access-Control-Allow-Origin'', ''*''),
      (''Access-Control-Allow-Methods'', ''GET, POST, OPTIONS''),
      (''Access-Control-Allow-Headers'', RISK_CORS_ALLOW_HEADERS),
      (''Access-Control-Expose-Headers'', ''Payment-Required, PAYMENT-RESPONSE, X-Correlation-ID, X-API-Version'')]"

definition api_headers :: headers where
  "api_headers = cors_headers @
     [(''Content-Type'', ''application/json''), (''X-API-Version'', show_nat API_VERSION)]"

definition json_response :: "web \<Rightarrow> nat \<Rightarrow> json \<Rightarrow> response" where
  "json_response W status v = \<lparr>rs_status = status, rs_headers = api_headers, rs_body = BText (j_show W v)\<rparr>"

definition error_body :: "string \<Rightarrow> string \<Rightarrow> json" where
  "error_body code message =
     JObj [(''error'', JStr code), (''message'', JStr message), (''code'', JStr code),
           (''api_version'', JPos API_VERSION)]"

definition error_response :: "web \<Rightarrow> nat \<Rightarrow> string \<Rightarrow> string \<Rightarrow> response" where
  "error_response W status code message = json_response W status (error_body code message)"

section \<open>Settlement\<close>

text \<open>\<^verbatim>\<open>SettlementProof::header_value\<close>.\<close>

definition header_value :: "web \<Rightarrow> settlement_proof \<Rightarrow> string" where
  "header_value W p = b64_encode W (j_show W (sp_response p))"

definition proof_sig :: "settlement_proof \<Rightarrow> string option" where
  "proof_sig p =
     Option.bind (or_else (jget (sp_response p) ''transaction'') (jget (sp_response p) ''signature'')) as_str"

definition settlement_sig_from_proof :: "settlement_proof \<Rightarrow> string option" where
  "settlement_sig_from_proof p = opt_filter (\<lambda>s. s \<noteq> []) (proof_sig p)"

definition payer_of_proof :: "settlement_proof \<Rightarrow> string option" where
  "payer_of_proof p =
     Option.bind (or_else (jget (sp_response p) ''payer'') (jget (sp_response p) ''buyer'')) as_str"

definition payer_from_auth :: "data_auth \<Rightarrow> string option" where
  "payer_from_auth auth =
     (case auth of
        Subscription payer _ _ \<Rightarrow> Some payer
      | PerCall p \<Rightarrow> Option.bind p payer_of_proof)"

definition settlement_sig_from_auth :: "data_auth \<Rightarrow> string option" where
  "settlement_sig_from_auth auth =
     (case auth of Subscription _ _ _ \<Rightarrow> None | PerCall p \<Rightarrow> Option.bind p proof_sig)"

definition settlement_from_auth :: "data_auth \<Rightarrow> settlement_proof option" where
  "settlement_from_auth auth = (case auth of Subscription _ _ _ \<Rightarrow> None | PerCall p \<Rightarrow> p)"

definition proof_headers :: "web \<Rightarrow> settlement_proof option \<Rightarrow> headers" where
  "proof_headers W settlement =
     (case settlement of
        None \<Rightarrow> []
      | Some p \<Rightarrow> if header_value W p \<noteq> [] then [(''PAYMENT-RESPONSE'', header_value W p)] else [])"

definition error_response_with_settlement ::
    "web \<Rightarrow> nat \<Rightarrow> string \<Rightarrow> string \<Rightarrow> data_auth \<Rightarrow> response" where
  "error_response_with_settlement W status code message auth =
     (let v = error_body code message;
          v' = (case opt_filter (\<lambda>s. s \<noteq> []) (settlement_sig_from_auth auth) of
                  Some sig \<Rightarrow> jinsert ''settlement_sig'' (JStr sig) v
                | None \<Rightarrow> v)
      in \<lparr>rs_status = status,
          rs_headers = api_headers @ proof_headers W (settlement_from_auth auth),
          rs_body = BText (j_show W v')\<rparr>)"

definition ok_with_payment :: "web \<Rightarrow> json \<Rightarrow> settlement_proof option \<Rightarrow> response" where
  "ok_with_payment W v settlement =
     (let v' = (case Option.bind settlement settlement_sig_from_proof of
                  Some sig \<Rightarrow> jinsert ''settlement_sig'' (JStr sig) v
                | None \<Rightarrow> v)
      in \<lparr>rs_status = 200,
          rs_headers = api_headers @ proof_headers W settlement,
          rs_body = BText (j_show W v')\<rparr>)"

section \<open>402 and authentication errors\<close>

definition payment_402_response :: "web \<Rightarrow> payment_required \<Rightarrow> response" where
  "payment_402_response W pr =
     (let t = j_show W (payment_required_json pr)
      in \<lparr>rs_status = 402,
          rs_headers = cors_headers @
            [(''Content-Type'', ''application/json''), (''Payment-Required'', b64_encode W t),
             (''X-API-Version'', show_nat API_VERSION)],
          rs_body = BText t\<rparr>)"

definition subscribe_402_response :: "web \<Rightarrow> payment_required \<Rightarrow> response" where
  "subscribe_402_response W pr = json_response W 402 (payment_required_json pr)"

definition handle_auth_error :: "web \<Rightarrow> data_auth_error \<Rightarrow> response" where
  "handle_auth_error W e =
     (case e of
        UnauthorizedErr code message \<Rightarrow> error_response W 401 code message
      | RateLimited code message \<Rightarrow> error_response W 429 code message
      | PaymentErr (Required pr) \<Rightarrow> payment_402_response W pr
      | PaymentErr (RequirementsUnavailable msg) \<Rightarrow>
          error_response W 503 ''PAYMENT_REQUIREMENTS_UNAVAILABLE'' msg)"

section \<open>Query strings\<close>

definition extract_query_param :: "string \<Rightarrow> string \<Rightarrow> string" where
  "extract_query_param query key =
     unwrap_or
       (map_option snd (find (\<lambda>(k, v). k = key)
          (List.map_filter (split_once (CHR ''='')) (split_on (CHR ''&'') query)))) []"

text \<open>\<^verbatim>\<open>find_map\<close> with \<^verbatim>\<open>?\<close> inside skips a pair without an equals sign, as the filter does.\<close>

definition extract_tier_from_query :: "string \<Rightarrow> string option" where
  "extract_tier_from_query query =
     (let tier = extract_query_param query ''tier'' in if tier = [] then None else Some tier)"

section \<open>Facts\<close>

lemma api_headers_no_proof [simp]: "map_of api_headers ''PAYMENT-RESPONSE'' = None"
  by (simp add: api_headers_def cors_headers_def)

text \<open>Whoever settled gets the proof back, on success and on failure alike.\<close>

lemma proof_header:
  "response_header (ok_with_payment W v settlement) ''PAYMENT-RESPONSE'' =
     Option.bind settlement (\<lambda>p. opt_filter (\<lambda>h. h \<noteq> []) (Some (header_value W p)))"
  "response_header (error_response_with_settlement W st c m auth) ''PAYMENT-RESPONSE'' =
     Option.bind (settlement_from_auth auth) (\<lambda>p. opt_filter (\<lambda>h. h \<noteq> []) (Some (header_value W p)))"
  by (auto simp: response_header_def ok_with_payment_def error_response_with_settlement_def Let_def
      map_add_def proof_headers_def opt_filter_def split: option.split)

lemma ok_with_payment_status [simp]: "rs_status (ok_with_payment W v p) = 200"
  by (simp add: ok_with_payment_def Let_def)

lemma error_with_settlement_status [simp]:
  "rs_status (error_response_with_settlement W st c m auth) = st"
  by (simp add: error_response_with_settlement_def Let_def)

lemma handle_auth_error_status:
  "rs_status (handle_auth_error W e) \<in> {401, 402, 429, 503}"
  by (auto simp: handle_auth_error_def error_response_def json_response_def payment_402_response_def
      Let_def split: data_auth_error.split payment_gate_error.split)

text \<open>Two queries in a row: the first value of the key wins, other keys do not matter.\<close>

lemma split_on_amp:
  "\<lbrakk>CHR ''&'' \<notin> set p\<rbrakk> \<Longrightarrow> split_on (CHR ''&'') (p @ CHR ''&'' # rest) = p # split_on (CHR ''&'') rest"
  by (rule split_on_append)

lemma extract_query_param_hit:
  assumes "CHR ''&'' \<notin> set v" "CHR ''='' \<notin> set key" "CHR ''&'' \<notin> set key"
  shows "extract_query_param (key @ CHR ''='' # v @ CHR ''&'' # rest) key = v"
    "extract_query_param (key @ CHR ''='' # v) key = v"
proof -
  have "split_on (CHR ''&'') ((key @ CHR ''='' # v) @ CHR ''&'' # rest)
      = (key @ CHR ''='' # v) # split_on (CHR ''&'') rest"
    using assms by (intro split_on_append) auto
  then show "extract_query_param (key @ CHR ''='' # v @ CHR ''&'' # rest) key = v"
    using assms by (simp add: extract_query_param_def split_once_append)
  have "split_on (CHR ''&'') (key @ CHR ''='' # v) = [key @ CHR ''='' # v]"
    using assms by (intro split_on_none) auto
  then show "extract_query_param (key @ CHR ''='' # v) key = v"
    using assms by (simp add: extract_query_param_def split_once_append)
qed

lemma extract_query_param_skip:
  assumes "CHR ''&'' \<notin> set v" "CHR ''='' \<notin> set k" "CHR ''&'' \<notin> set k" "k \<noteq> key"
  shows "extract_query_param (k @ CHR ''='' # v @ CHR ''&'' # rest) key = extract_query_param rest key"
proof -
  have "split_on (CHR ''&'') ((k @ CHR ''='' # v) @ CHR ''&'' # rest)
      = (k @ CHR ''='' # v) # split_on (CHR ''&'') rest"
    using assms by (intro split_on_append) auto
  then show ?thesis
    using assms by (simp add: extract_query_param_def split_once_append)
qed

text \<open>Reading back a query string made of plain pairs.\<close>

fun query_string :: "(string \<times> string) list \<Rightarrow> string" where
  "query_string [] = []"
| "query_string [(k, v)] = k @ CHR ''='' # v"
| "query_string ((k, v) # kv # kvs) = k @ CHR ''='' # v @ CHR ''&'' # query_string (kv # kvs)"

definition plain_pair :: "string \<times> string \<Rightarrow> bool" where
  "plain_pair kv \<longleftrightarrow> CHR ''='' \<notin> set (fst kv) \<and> CHR ''&'' \<notin> set (fst kv) \<and> CHR ''&'' \<notin> set (snd kv)"

lemma extract_query_string:
  "list_all plain_pair kvs \<Longrightarrow> extract_query_param (query_string kvs) key = unwrap_or (map_of kvs key) []"
proof (induction kvs rule: query_string.induct)
  case 1
  then show ?case by (simp add: extract_query_param_def)
next
  case (2 k v)
  then have "split_on (CHR ''&'') (k @ CHR ''='' # v) = [k @ CHR ''='' # v]"
    by (intro split_on_none) (auto simp: plain_pair_def)
  with 2 show ?case by (simp add: extract_query_param_def split_once_append plain_pair_def)
next
  case (3 k v kv kvs)
  then have p: "CHR ''&'' \<notin> set v" "CHR ''='' \<notin> set k" "CHR ''&'' \<notin> set k"
    and IH: "extract_query_param (query_string (kv # kvs)) key = unwrap_or (map_of (kv # kvs) key) []"
    by (simp_all add: plain_pair_def)
  show ?case
  proof (cases "k = key")
    case True
    then show ?thesis using extract_query_param_hit(1) [OF p(1)] p by simp
  next
    case False
    then show ?thesis using extract_query_param_skip [OF p] IH by simp
  qed
qed

end
