(* ===== verification/Pricing.thy ===== *)
theory Pricing
  imports Http
begin

text \<open>
  \<^verbatim>\<open>src/pricing.rs\<close> (the endpoint catalog) and \<^verbatim>\<open>src/x402/pricing.rs\<close> (the lines of \<^verbatim>\<open>accepts\<close>
  from configured prices). Amounts in units go through binary64: parsed, scaled by a power
  of ten, rounded to an integer. \<open>f64_display\<close> is the standard library's printer of a
  binary64, the shortest decimal that reads back as the same value.
\<close>

section \<open>The catalog\<close>

definition ENDPOINT_WALLET_RISK :: string where "ENDPOINT_WALLET_RISK = ''wallet-risk''"
definition ENDPOINT_TOKEN_RISK :: string where "ENDPOINT_TOKEN_RISK = ''token-risk''"
definition ENDPOINT_TX_RISK :: string where "ENDPOINT_TX_RISK = ''tx-risk''"

definition TIER_HOURLY :: string where "TIER_HOURLY = ''hourly''"
definition TIER_DAILY :: string where "TIER_DAILY = ''daily''"
definition TIER_MONTHLY :: string where "TIER_MONTHLY = ''monthly''"

definition ALL_TIERS :: "string list" where
  "ALL_TIERS = [TIER_HOURLY, TIER_DAILY, TIER_MONTHLY]"

definition PER_CALL_ENDPOINTS :: "string list" where
  "PER_CALL_ENDPOINTS = [ENDPOINT_WALLET_RISK, ENDPOINT_TOKEN_RISK, ENDPOINT_TX_RISK]"

definition subscribe_endpoint_key :: "string \<Rightarrow> string" where
  "subscribe_endpoint_key tier = ''/api/v1/subscribe/'' @ tier"

definition path_for_endpoint :: "string \<Rightarrow> string option" where
  "path_for_endpoint endpoint =
     (if endpoint = ENDPOINT_WALLET_RISK then Some ''/api/v1/wallet-risk''
      else if endpoint = ENDPOINT_TOKEN_RISK then Some ''/api/v1/token-risk''
      else if endpoint = ENDPOINT_TX_RISK then Some ''/api/v1/tx-risk''
      else if starts_with endpoint ''/api/v1/subscribe/'' then Some ''/api/v1/subscribe''
      else None)"

definition resource_description :: "string \<Rightarrow> string" where
  "resource_description endpoint =
     (if endpoint = ENDPOINT_WALLET_RISK then ''Solana wallet risk score''
      else if endpoint = ENDPOINT_TOKEN_RISK then ''Solana token rug-pull risk score''
      else if endpoint = ENDPOINT_TX_RISK then ''Solana transaction risk score''
      else if contains endpoint ''subscribe/hourly'' then ''solrisk hourly subscription''
      else if contains endpoint ''subscribe/daily'' then ''solrisk daily subscription''
      else if contains endpoint ''subscribe/monthly'' then ''solrisk monthly subscription''
      else ''solrisk paid endpoint'')"

definition sample_query_for_endpoint :: "string \<Rightarrow> string" where
  "sample_query_for_endpoint endpoint =
     (if endpoint = ENDPOINT_WALLET_RISK then ''wallet=11111111111111111111111111111112''
      else if endpoint = ENDPOINT_TOKEN_RISK then ''mint=So11111111111111111111111111111111111111112''
      else if endpoint = ENDPOINT_TX_RISK then ''transaction=c29scmlzay1wcm9iZQ==''
      else ''tier=hourly'')"

definition default_legacy_usdc :: "string \<Rightarrow> fl" where
  "default_legacy_usdc endpoint =
     (if endpoint = ENDPOINT_TX_RISK then fround F64 (30 / 100)
      else if endpoint = ENDPOINT_WALLET_RISK then fround F64 (25 / 100)
      else if endpoint = ENDPOINT_TOKEN_RISK then fround F64 (10 / 100)
      else if contains endpoint ''subscribe/monthly'' then fround F64 25
      else if contains endpoint ''subscribe/daily'' then fround F64 5
      else if contains endpoint ''subscribe/hourly'' then fround F64 1
      else fround F64 (5 / 100))"

section \<open>Accept specs\<close>

definition SOLANA_DEVNET :: string where
  "SOLANA_DEVNET = ''solana:EtWTRABZaYq6iMfeYKouRu166VU2xqa1''"
definition NATIVE_SOL_MINT :: string where
  "NATIVE_SOL_MINT = ''11111111111111111111111111111111''"
definition WSOL_MINT :: string where
  "WSOL_MINT = ''So11111111111111111111111111111111111111112''"
definition USDC_MAINNET :: string where
  "USDC_MAINNET = ''EPjFWdd5AufqSSqeM2qN1xzybapC8G4wEGGkZwyTDt1v''"
definition USDC_DEVNET :: string where
  "USDC_DEVNET = ''4zMMC9srt5Ri5X14GAgXhaHii3GnPAEERYPJgZJDncDU''"

definition decimals_for_kind :: "string \<Rightarrow> accept_spec \<Rightarrow> err + nat" where
  "decimals_for_kind kind spec =
     (case as_decimals spec of
        Some d \<Rightarrow> Inr d
      | None \<Rightarrow>
          if kind = ''sol'' \<or> kind = ''wsol'' then Inr 9
          else if kind = ''usdc'' then Inr 6
          else if kind = ''spl'' then
            Inl (Internal ''\"spl\" accept kind requires \"decimals\" in SPL_BALANCE_X402_ACCEPTS_JSON'')
          else Inl (Internal (''unknown accept kind \"'' @ kind @ ''\", expected sol|wsol|usdc|spl'')))"

definition preset_of :: "lib \<Rightarrow> string \<Rightarrow> err + pubkey" where
  "preset_of L m = (case pk_parse L m of Inl e \<Rightarrow> Inl (Internal e) | Inr k \<Rightarrow> Inr k)"

definition preset_mint_pubkey :: "lib \<Rightarrow> string \<Rightarrow> string \<Rightarrow> accept_spec \<Rightarrow> err + pubkey" where
  "preset_mint_pubkey L kind network spec =
     (let k = to_lower kind
      in if k = ''spl'' then
           (case opt_filter (\<lambda>m. m \<noteq> []) (as_mint spec) of
              None \<Rightarrow> Inl (Internal ''\"spl\" accept requires \"mint\" in accepts spec'')
            | Some m \<Rightarrow>
                (case pk_parse L m of
                   Inl _ \<Rightarrow> Inl (BadRequest (''invalid spl mint '' @ m))
                 | Inr pk \<Rightarrow> Inr pk))
         else if k = ''sol'' then preset_of L NATIVE_SOL_MINT
         else if k = ''wsol'' then preset_of L WSOL_MINT
         else if k = ''usdc'' then
           preset_of L (if network = SOLANA_DEVNET \<or> ends_with network ''EtWTRABZaYq6iMfeYKouRu166VU2xqa1''
                        then USDC_DEVNET else USDC_MAINNET)
         else Inl (Internal (''unknown kind '' @ kind)))"

section \<open>Amounts\<close>

text \<open>\<^verbatim>\<open>f64::powi\<close> for a non-negative exponent: square and multiply, rounding each product.\<close>

fun powi_loop :: "nat \<Rightarrow> fl \<Rightarrow> fl \<Rightarrow> fl" where
  "powi_loop b a r =
     (let r' = (if odd b then fmul F64 r a else r)
      in if b div 2 = 0 then r' else powi_loop (b div 2) (fmul F64 a a) r')"

declare powi_loop.simps [simp del]

definition powi10 :: "nat \<Rightarrow> fl" where
  "powi10 d = powi_loop d (Fin 10) (Fin 1)"

definition U64_MAX_F64 :: fl where
  "U64_MAX_F64 = Fin (2 ^ 64)"

definition ui_to_raw :: "string \<Rightarrow> nat \<Rightarrow> err + nat" where
  "ui_to_raw amount_ui decs =
     (case parse_f64 amount_ui of
        None \<Rightarrow> Inl (Internal (''invalid amountUi '' @ amount_ui))
      | Some v \<Rightarrow>
          (let raw = fround_half_away (fmul F64 v (powi10 decs))
           in if flt raw (Fin 0) \<or> flt U64_MAX_F64 raw then Inl (Internal ''amount out of range'')
              else Inr (f_as_u64 raw)))"

text \<open>One spec: its line, or none when its amount is zero.\<close>

definition line_of_spec ::
    "lib \<Rightarrow> string \<Rightarrow> string \<Rightarrow> string \<Rightarrow> nat \<Rightarrow> accept_spec \<Rightarrow> err + requirements_line option" where
  "line_of_spec L network pay_to scheme timeout spec =
     (let kind = to_lower (as_kind spec)
      in case decimals_for_kind kind spec of
           Inl e \<Rightarrow> Inl e
         | Inr dec \<Rightarrow>
             (case preset_mint_pubkey L kind network spec of
                Inl e \<Rightarrow> Inl e
              | Inr mint \<Rightarrow>
                  (case ui_to_raw (as_amount_ui spec) dec of
                     Inl e \<Rightarrow> Inl e
                   | Inr raw \<Rightarrow>
                       if raw = 0 then Inr None
                       else Inr (Some \<lparr>rl_scheme = scheme, rl_network = network,
                              rl_asset = pk_str L mint, rl_amount = show_nat raw,
                              rl_pay_to = pay_to, rl_max_timeout = timeout, rl_extra = None\<rparr>))))"

fun spec_lines ::
    "lib \<Rightarrow> string \<Rightarrow> string \<Rightarrow> string \<Rightarrow> nat \<Rightarrow> accept_spec list \<Rightarrow> err + requirements_line list" where
  "spec_lines L network pay_to scheme timeout [] = Inr []"
| "spec_lines L network pay_to scheme timeout (sp # sps) =
     (case line_of_spec L network pay_to scheme timeout sp of
        Inl e \<Rightarrow> Inl e
      | Inr l \<Rightarrow>
          (case spec_lines L network pay_to scheme timeout sps of
             Inl e \<Rightarrow> Inl e
           | Inr ls \<Rightarrow> Inr (case l of None \<Rightarrow> ls | Some x \<Rightarrow> x # ls)))"

definition build_lines_from_specs ::
    "lib \<Rightarrow> string \<Rightarrow> string \<Rightarrow> string \<Rightarrow> nat \<Rightarrow> accept_spec list \<Rightarrow> err + requirements_line list" where
  "build_lines_from_specs L network pay_to scheme timeout specs =
     (case spec_lines L network pay_to scheme timeout specs of
        Inl e \<Rightarrow> Inl e
      | Inr out \<Rightarrow>
          if out = [] then Inl (Internal ''no non-zero payment accepts configured'') else Inr out)"

definition parse_accepts_json :: "web \<Rightarrow> string \<Rightarrow> err + accept_spec list" where
  "parse_accepts_json W js =
     (case accepts_of_json W js of Inl e \<Rightarrow> Inl (Internal (''accepts JSON: '' @ e)) | Inr sp \<Rightarrow> Inr sp)"

section \<open>Printing a binary64\<close>

text \<open>The exponent of the leading decimal digit of a positive value.\<close>

definition log10_floor :: "rat \<Rightarrow> int" where
  "log10_floor x =
     (if 1 \<le> x then int (length (show_nat (nat \<lfloor>x\<rfloor>))) - 1
      else - int (length (show_nat (nat (\<lceil>1 / x\<rceil> - 1)))))"

text \<open>A decimal with \<open>p\<close> significant digits that reads back as \<open>x\<close>, the closer one if both do.\<close>

definition digits_at :: "rat \<Rightarrow> int \<Rightarrow> nat \<Rightarrow> (int \<times> int) option" where
  "digits_at x k p =
     (let e = k - int p + 1; u = pow10 e; lo = \<lfloor>x / u\<rfloor>;
          cs = (if x / u - of_int lo \<le> 1 / 2 then [lo, lo + 1] else [lo + 1, lo])
      in map_option (\<lambda>c. (c, e)) (find (\<lambda>c. fround F64 (of_int c * u) = Fin x) cs))"

fun first_digits :: "rat \<Rightarrow> int \<Rightarrow> nat list \<Rightarrow> (int \<times> int) option" where
  "first_digits x k [] = None"
| "first_digits x k (p # ps) =
     (case digits_at x k p of Some r \<Rightarrow> Some r | None \<Rightarrow> first_digits x k ps)"

fun strip_zeros :: "nat \<Rightarrow> int \<Rightarrow> int \<Rightarrow> int \<times> int" where
  "strip_zeros 0 c e = (c, e)"
| "strip_zeros (Suc n) c e = (if c mod 10 = 0 then strip_zeros n (c div 10) (e + 1) else (c, e))"

text \<open>At most 17 digits are needed, so at most 17 trailing zeros are there to strip.\<close>

definition shortest_digits :: "rat \<Rightarrow> int \<times> int" where
  "shortest_digits x =
     (let k = log10_floor x
      in case first_digits x k [1..<18] of
           Some (c, e) \<Rightarrow> strip_zeros 17 c e
         | None \<Rightarrow> (\<lfloor>x / pow10 (k - 16)\<rfloor>, k - 16))"

definition show_decimal :: "int \<Rightarrow> int \<Rightarrow> string" where
  "show_decimal c e =
     (let ds = show_nat (nat c)
      in if 0 \<le> e then ds @ replicate (nat e) (CHR ''0'')
         else let m = nat (- e)
              in if length ds > m then take (length ds - m) ds @ ''.'' @ drop (length ds - m) ds
                 else ''0.'' @ replicate (m - length ds) (CHR ''0'') @ ds)"

fun f64_display :: "fl \<Rightarrow> string" where
  "f64_display FNan = ''NaN''"
| "f64_display FPosInf = ''inf''"
| "f64_display FNegInf = ''-inf''"
| "f64_display (Fin x) =
     (if x = 0 then ''0''
      else (if x < 0 then ''-'' else []) @ (case shortest_digits \<bar>x\<bar> of (c, e) \<Rightarrow> show_decimal c e))"

definition legacy_usdc_line ::
    "lib \<Rightarrow> string \<Rightarrow> string \<Rightarrow> string \<Rightarrow> fl \<Rightarrow> nat \<Rightarrow> err + requirements_line list" where
  "legacy_usdc_line L network pay_to scheme amount timeout =
     build_lines_from_specs L network pay_to scheme timeout
       [\<lparr>as_kind = ''usdc'', as_mint = None, as_amount_ui = f64_display amount, as_decimals = None\<rparr>]"

section \<open>Facts\<close>

lemma spec_lines_bad:
  "\<lbrakk>spec \<in> set specs; line_of_spec L n p sc t spec = Inl e\<rbrakk> \<Longrightarrow> \<exists>e. spec_lines L n p sc t specs = Inl e"
  by (induction specs) (auto split: sum.splits)

lemma spec_lines_ok:
  "spec_lines L n p sc t specs = Inr ls \<Longrightarrow>
     ls = List.map_filter (\<lambda>sp. case line_of_spec L n p sc t sp of Inr l \<Rightarrow> l | Inl _ \<Rightarrow> None) specs"
  by (induction specs arbitrary: ls) (auto split: sum.splits option.splits)

lemma line_of_spec_SomeD:
  assumes "line_of_spec L n p sc t sp = Inr (Some l)"
  obtains raw dec where "ui_to_raw (as_amount_ui sp) dec = Inr raw" "0 < raw" "raw < 2 ^ 64"
    "rl_amount l = show_nat raw" "rl_network l = n" "rl_scheme l = sc" "rl_pay_to l = p"
    "rl_max_timeout l = t"
proof -
  from assms obtain raw dec where *: "ui_to_raw (as_amount_ui sp) dec = Inr raw" "raw \<noteq> 0"
    "rl_amount l = show_nat raw" "rl_network l = n" "rl_scheme l = sc" "rl_pay_to l = p"
    "rl_max_timeout l = t"
    by (auto simp: line_of_spec_def Let_def split: sum.splits if_splits)
  have "f_as_u64 x < 2 ^ 64" for x
    by (cases x) (auto simp: f_as_u64_def clamp_def)
  then have "raw < 2 ^ 64"
    using *(1) by (auto simp: ui_to_raw_def Let_def split: option.splits if_splits)
  with * that show ?thesis by auto
qed

text \<open>Every line that is offered asks for a positive amount that fits in 64 bits, and prints it.\<close>

lemma build_lines_amounts:
  assumes "build_lines_from_specs L n p sc t specs = Inr ls"
  shows "ls \<noteq> [] \<and> (\<forall>l \<in> set ls. \<exists>raw > 0. parse_unsigned (2 ^ 64) (rl_amount l) = Some raw
    \<and> rl_pay_to l = p \<and> rl_network l = n \<and> rl_scheme l = sc)"
proof -
  from assms have ls: "spec_lines L n p sc t specs = Inr ls" "ls \<noteq> []"
    by (auto simp: build_lines_from_specs_def split: sum.splits if_splits)
  have "\<exists>raw > 0. parse_unsigned (2 ^ 64) (rl_amount l) = Some raw
      \<and> rl_pay_to l = p \<and> rl_network l = n \<and> rl_scheme l = sc" if "l \<in> set ls" for l
  proof -
    from that spec_lines_ok [OF ls(1)] obtain sp where
      "(case line_of_spec L n p sc t sp of Inr l \<Rightarrow> l | Inl _ \<Rightarrow> None) = Some l"
      by (auto simp: set_map_filter')
    then have "line_of_spec L n p sc t sp = Inr (Some l)" by (auto split: sum.splits)
    then obtain raw dec where "0 < raw" "raw < 2 ^ 64" "rl_amount l = show_nat raw"
      "rl_network l = n" "rl_scheme l = sc" "rl_pay_to l = p"
      by (rule line_of_spec_SomeD)
    then show ?thesis using parse_show_nat [of raw "2 ^ 64"] by auto
  qed
  with ls show ?thesis by blast
qed

lemma powi10_exact: "d \<le> 9 \<Longrightarrow> powi10 d = Fin (10 ^ d)"
proof -
  have "\<forall>k \<in> set [0..<10]. powi10 k = Fin (10 ^ k)" by code_simp
  then show "d \<le> 9 \<Longrightarrow> ?thesis" by simp
qed

text \<open>Up to 1024 whole units with at most nine decimals, the two roundings of a price are too
  small to move it off its raw amount.\<close>

lemma ui_to_raw_exact:
  assumes parse: "parse_f64 s = Some (fround F64 (of_nat n / 10 ^ d))"
    and d: "d \<le> 9" and n: "n < 1024 * 10 ^ d"
  shows "ui_to_raw s d = Inr n"
proof -
  let ?T = "10 ^ d :: rat"
  have T: "0 < ?T" "?T \<le> 1000000000" using power_increasing [of d 9 "10 :: rat"] d by simp_all
  have "of_nat n < (of_nat (1024 * 10 ^ d) :: rat)" using n by (simp only: of_nat_less_iff)
  then have nT: "of_nat n < 1024 * ?T" by simp
  then have x: "\<bar>of_nat n / ?T\<bar> < 1024" using T by (simp add: divide_less_eq)
  then obtain r where r: "fround F64 (of_nat n / ?T) = Fin r" "\<bar>r - of_nat n / ?T\<bar> \<le> 1 / 2 ^ 43"
    using fround_F64_close by blast
  have "\<bar>r * ?T - of_nat n\<bar> = \<bar>r - of_nat n / ?T\<bar> * ?T"
    using T(1) abs_mult [of "r - of_nat n / ?T" ?T] by (simp add: left_diff_distrib)
  also have "\<dots> \<le> 1 / 2 ^ 43 * 1000000000" using r(2) T by (intro mult_mono) auto
  also have "\<dots> \<le> 1 / 2 ^ 13" by simp
  finally have p: "\<bar>r * ?T - of_nat n\<bar> \<le> 1 / 2 ^ 13" .
  have big: "(1024000000001 :: rat) < pow2 41" "(1 :: rat) / 2 ^ 13 < 1" by (simp_all add: pow2_def)
  have "\<bar>r * ?T\<bar> < pow2 41"
    using p nT T(2) big unfolding abs_le_iff abs_less_iff by linarith
  then have "\<exists>y. fround F64 (r * ?T) = Fin y \<and> \<bar>y - r * ?T\<bar> \<le> pow2 (41 - prec F64) / 2"
    by (intro fround_close) (simp_all add: F64_def)
  moreover have "pow2 (41 - prec F64) / 2 = 1 / 2 ^ 13" by (simp add: F64_def pow2_def)
  ultimately obtain y where y: "fround F64 (r * ?T) = Fin y" "\<bar>y - r * ?T\<bar> \<le> 1 / 2 ^ 13" by auto
  have h: "(1 :: rat) / 2 ^ 13 + 1 / 2 ^ 13 < 1 / 2" by simp
  have near: "of_nat n - y < 1 / 2" "y - of_nat n < 1 / 2"
    using p y(2) h unfolding abs_le_iff by linarith+
  have "fround_half_away (Fin y) = Fin (of_nat n)"
  proof (cases "y < 0")
    case True
    then have "n = 0" using near by (cases n) auto
    moreover have "\<lfloor>- y + 1 / 2\<rfloor> = 0" using True near \<open>n = 0\<close> by (simp add: floor_eq_iff)
    ultimately show ?thesis using True by simp
  next
    case False
    have "\<lfloor>y + 1 / 2\<rfloor> = int n" using near by (simp add: floor_eq_iff)
    then show ?thesis using False by simp
  qed
  moreover have "n < 2 ^ 64"
  proof -
    have "1024 * 10 ^ d \<le> (1024 * 10 ^ 9 :: nat)" using d by (intro mult_le_mono2 power_increasing) auto
    with n show ?thesis by simp
  qed
  then have "(of_nat n :: rat) < of_nat (2 ^ 64)" "int n < 2 ^ 64" by (simp_all only: of_nat_less_iff) simp
  then have "\<not> (2 ^ 64 :: rat) < of_nat n" and u: "int n \<le> 2 ^ 64 - 1" by simp_all
  moreover have "rat_trunc (of_nat n) = int n" by (simp add: rat_trunc_def)
  then have "f_as_u64 (Fin (of_nat n)) = n"
    using clamp_id [OF _ u] by (simp only: f_as_u64_def cast_int.simps)
  ultimately show ?thesis
    using parse r(1) y(1) powi10_exact [OF d] by (simp add: ui_to_raw_def U64_MAX_F64_def)
qed

end
