(* ===== verification/Facilitator.thy ===== *)
theory Facilitator
  imports Caches Pricing
begin

text \<open>
  \<^verbatim>\<open>src/x402/facilitator.rs\<close>: the HTTP client of the payment facilitator. A payment is
  verified, then settled; a settlement that the chain reports as already processed counts as
  a success. Every HTTP call is one effect named after the facilitator's operation.
\<close>

section \<open>Requests\<close>

definition trim_end_slash :: "string \<Rightarrow> string" where
  "trim_end_slash s = rev (dropWhile (\<lambda>c. c = CHR ''/'') (rev s))"

definition base_url :: "config \<Rightarrow> string" where
  "base_url cfg = trim_end_slash (x402_facilitator_url cfg)"

definition capabilities_url :: "config \<Rightarrow> string" where
  "capabilities_url cfg = base_url cfg @ ''/capabilities''"

definition fac_url :: "config \<Rightarrow> string \<Rightarrow> string" where
  "fac_url cfg path = base_url cfg @ ''/'' @ dropWhile (\<lambda>c. c = CHR ''/'') path"

definition build_get :: "config \<Rightarrow> string \<Rightarrow> http_request" where
  "build_get cfg path = \<lparr>hq_post = False, hq_url = fac_url cfg path, hq_query = [], hq_body = None\<rparr>"

definition build_post :: "config \<Rightarrow> string \<Rightarrow> json \<Rightarrow> http_request" where
  "build_post cfg path v = \<lparr>hq_post = True, hq_url = fac_url cfg path, hq_query = [], hq_body = Some v\<rparr>"

definition send :: "'e svc_env_scheme \<Rightarrow> string \<Rightarrow> http_request \<Rightarrow> 'a world_scheme \<Rightarrow> http_reply \<times> 'a world_scheme" where
  "send E op req s = perform (e_dur E) (EFac op) (\<lambda>k. e_http E k req) s"

definition is_success :: "nat \<Rightarrow> bool" where
  "is_success status = (200 \<le> status \<and> status < 300)"

text \<open>\<^verbatim>\<open>Response::json\<close> and \<^verbatim>\<open>Response::text\<close>.\<close>

definition reply_json :: "(string \<Rightarrow> string + 'v) \<Rightarrow> string \<Rightarrow> string + string \<Rightarrow> err + 'v" where
  "reply_json decode what b =
     (case b of
        Inl e \<Rightarrow> Inl (Internal (what @ '' JSON: '' @ e))
      | Inr t \<Rightarrow> (case decode t of Inl e \<Rightarrow> Inl (Internal (what @ '' JSON: '' @ e)) | Inr v \<Rightarrow> Inr v))"

definition reply_text :: "string + string \<Rightarrow> string" where
  "reply_text b = (case b of Inl _ \<Rightarrow> [] | Inr t \<Rightarrow> t)"

section \<open>Operations\<close>

definition verify ::
    "'e svc_env_scheme \<Rightarrow> json \<Rightarrow> 'a world_scheme \<Rightarrow> (err + json) \<times> 'a world_scheme" where
  "verify E v s =
     (let (r, s1) = send E ''verify'' (build_post (e_cfg E) ''verify'' v) s
      in (case r of
            HttpErr e \<Rightarrow> Inl (Internal (''facilitator verify request: '' @ e))
          | HttpResp status b \<Rightarrow>
              if \<not> is_success status then Inl (PaymentRequiredErr (''verify failed: '' @ reply_text b))
              else reply_json (j_parse (e_web E)) ''verify'' b, s1))"

definition settle_post_raw ::
    "'e svc_env_scheme \<Rightarrow> json \<Rightarrow> 'a world_scheme \<Rightarrow> (err + nat \<times> string) \<times> 'a world_scheme" where
  "settle_post_raw E v s =
     (let (r, s1) = send E ''settle'' (build_post (e_cfg E) ''settle'' v) s
      in (case r of
            HttpErr e \<Rightarrow> Inl (Internal (''facilitator settle request: '' @ e))
          | HttpResp status b \<Rightarrow> Inr (status, reply_text b), s1))"

definition settle ::
    "'e svc_env_scheme \<Rightarrow> json \<Rightarrow> 'a world_scheme \<Rightarrow> (err + json) \<times> 'a world_scheme" where
  "settle E v s =
     (let (r, s1) = settle_post_raw E v s
      in (case r of
            Inl e \<Rightarrow> Inl e
          | Inr (status, text) \<Rightarrow>
              if \<not> is_success status then Inl (Internal (''settle failed: '' @ text))
              else (case j_parse (e_web E) text of
                      Inl e \<Rightarrow> Inl (Internal (''settle JSON: '' @ e))
                    | Inr j \<Rightarrow> Inr j), s1))"

definition get_json ::
    "'e svc_env_scheme \<Rightarrow> (string \<Rightarrow> string + 'v) \<Rightarrow> string \<Rightarrow> string \<Rightarrow> string \<Rightarrow> http_request
     \<Rightarrow> 'a world_scheme \<Rightarrow> (err + 'v) \<times> 'a world_scheme" where
  "get_json E decode op req_what what req s =
     (let (r, s1) = send E op req s
      in (case r of
            HttpErr e \<Rightarrow> Inl (Internal (''facilitator '' @ req_what @ '' request: '' @ e))
          | HttpResp status b \<Rightarrow>
              if \<not> is_success status then
                Inl (Internal (what @ '' HTTP '' @ status_display (e_web E) status @ '': '' @ reply_text b))
              else reply_json decode what b, s1))"

definition supported ::
    "'e svc_env_scheme \<Rightarrow> 'a world_scheme \<Rightarrow> (err + supported_response) \<times> 'a world_scheme" where
  "supported E s =
     get_json E (supported_of_json (e_web E)) ''supported'' ''supported'' ''supported''
       (build_get (e_cfg E) ''supported'') s"

definition discovery ::
    "'e svc_env_scheme \<Rightarrow> string \<Rightarrow> string \<Rightarrow> string option \<Rightarrow> 'a world_scheme \<Rightarrow> (err + json) \<times> 'a world_scheme" where
  "discovery E wallet scheme asset s =
     get_json E (j_parse (e_web E)) ''discovery'' ''seller rail'' ''seller rail''
       ((build_get (e_cfg E) (''sellers/'' @ wallet @ ''/rails/'' @ scheme))
          \<lparr>hq_query := (case asset of None \<Rightarrow> [] | Some m \<Rightarrow> [(''asset'', m)])\<rparr>) s"

definition onboard ::
    "'e svc_env_scheme \<Rightarrow> string \<Rightarrow> 'a world_scheme \<Rightarrow> (err + json) \<times> 'a world_scheme" where
  "onboard E wallet s =
     get_json E (j_parse (e_web E)) ''onboard'' ''seller preview'' ''seller preview''
       (build_get (e_cfg E) (''sellers/'' @ wallet @ ''/preview'')) s"

section \<open>Verify and settle\<close>

definition is_duplicate_settle_body :: "string \<Rightarrow> bool" where
  "is_duplicate_settle_body b =
     (let lower = to_lower b
      in contains lower ''already been processed'' \<or> contains lower ''alreadyprocessed''
         \<or> contains lower ''this transaction has already been processed'')"

definition network_from_proof :: "json \<Rightarrow> string" where
  "network_from_proof proof =
     unwrap_or (Option.bind (or_else (pointer2 proof ''paymentRequirements'' ''network'')
                                     (pointer2 proof ''payment_requirements'' ''network'')) as_str) []"

text \<open>\<^verbatim>\<open>chars().take(n)\<close> on UTF-8 bytes: \<open>n\<close> code points with their continuation bytes.\<close>

definition is_cont :: "char \<Rightarrow> bool" where
  "is_cont c = (let n = of_char c :: nat in 128 \<le> n \<and> n < 192)"

fun take_chars :: "nat \<Rightarrow> string \<Rightarrow> string" where
  "take_chars n [] = []"
| "take_chars n (c # cs) =
     (if is_cont c then c # take_chars n cs
      else case n of 0 \<Rightarrow> [] | Suc m \<Rightarrow> c # take_chars m cs)"

definition em_dash :: string where
  "em_dash = map char_of [226, 128, 148 :: nat]"

definition synthetic_settlement_after_duplicate :: "json \<Rightarrow> json \<Rightarrow> string \<Rightarrow> json" where
  "synthetic_settlement_after_duplicate verify_json proof snippet =
     JObj [(''success'', JBool True),
           (''payer'', unwrap_or (jget verify_json ''payer'') JNull),
           (''network'', JStr (network_from_proof proof)),
           (''transaction'', JStr []),
           (''settlementNote'', JStr (''verify succeeded; settle reported duplicate on-chain '' @ em_dash
              @ '' treating as idempotent success'')),
           (''settleErrorPreview'', JStr (take_chars 240 snippet))]"

definition merge_correlation_id :: "string \<Rightarrow> json \<Rightarrow> json" where
  "merge_correlation_id cid v =
     (if is_obj v \<and> jget v ''correlationId'' = None then jinsert ''correlationId'' (JStr cid) v else v)"

definition settle_body_of :: "json \<Rightarrow> json \<Rightarrow> json" where
  "settle_body_of v verify_json =
     (case opt_filter (\<lambda>c. c \<noteq> []) (get_str verify_json ''correlationId'') of
        Some cid \<Rightarrow> merge_correlation_id cid v
      | None \<Rightarrow> v)"

definition is_valid_reply :: "json \<Rightarrow> bool" where
  "is_valid_reply verify_json = unwrap_or (Option.bind (jget verify_json ''isValid'') as_bool) False"

text \<open>What a settle reply of status \<open>status\<close> and text \<open>text\<close> means.\<close>

definition settle_outcome :: "web \<Rightarrow> json \<Rightarrow> json \<Rightarrow> nat \<Rightarrow> string \<Rightarrow> err + settlement_proof" where
  "settle_outcome W verify_json v status text =
     (if \<not> is_success status then
        if is_duplicate_settle_body text then
          Inr \<lparr>sp_response = synthetic_settlement_after_duplicate verify_json v text\<rparr>
        else Inl (Internal (''settle failed: '' @ text))
      else case j_parse W text of
             Inl e \<Rightarrow> Inl (Internal (''settle JSON: '' @ e @ ''; body_prefix='' @ take_chars 400 text))
           | Inr settle_json \<Rightarrow>
               if \<not> unwrap_or (Option.bind (jget settle_json ''success'') as_bool) True then
                 Inl (Internal (''settle: '' @ unwrap_or (get_str settle_json ''errorReason'') ''settle error''))
               else Inr \<lparr>sp_response = settle_json\<rparr>)"

definition verify_and_settle ::
    "'e svc_env_scheme \<Rightarrow> json \<Rightarrow> 'a world_scheme \<Rightarrow> (err + settlement_proof) \<times> 'a world_scheme" where
  "verify_and_settle E v s =
     (let (vr, s1) = verify E v s
      in case vr of
           Inl e \<Rightarrow> (Inl e, s1)
         | Inr verify_json \<Rightarrow>
             if \<not> is_valid_reply verify_json then
               (Inl (PaymentRequiredErr (''verify invalid: ''
                  @ unwrap_or (get_str verify_json ''invalidReason'') ''invalid'')), s1)
             else
               (let (sr, s2) = settle_post_raw E (settle_body_of v verify_json) s1
                in (case sr of
                      Inl e \<Rightarrow> Inl e
                    | Inr (status, text) \<Rightarrow> settle_outcome (e_web E) verify_json v status text, s2)))"

section \<open>The payment header\<close>

definition validate_pr402_verify_shape :: "json \<Rightarrow> err + unit" where
  "validate_pr402_verify_shape v =
     (case Option.bind (jget v ''x402Version'') as_u64 of
        None \<Rightarrow> Inl (PaymentRequiredErr ''missing x402Version'')
      | Some x402 \<Rightarrow>
          if x402 \<noteq> 2 then
            Inl (PaymentRequiredErr (''expected x402Version 2, got '' @ show_nat x402))
          else if jget v ''paymentPayload'' = None \<or> jget v ''paymentRequirements'' = None then
            Inl (PaymentRequiredErr ''missing paymentPayload or paymentRequirements'')
          else Inr ())"

definition validated :: "json \<Rightarrow> err + json" where
  "validated v = map_sum id (\<lambda>_. v) (validate_pr402_verify_shape v)"

definition parse_payment_proof :: "web \<Rightarrow> string \<Rightarrow> err + json" where
  "parse_payment_proof W raw =
     (let t = trim raw
      in if t = [] then Inl (PaymentRequiredErr ''empty payment header'')
         else case j_parse W t of
                Inr v \<Rightarrow> validated v
              | Inl _ \<Rightarrow>
                  (case b64_text W t of
                     None \<Rightarrow> Inl (PaymentRequiredErr ''payment header is not JSON or valid base64 JSON'')
                   | Some u \<Rightarrow>
                       if \<not> utf8_ok W u then
                         Inl (PaymentRequiredErr ''payment header base64 is not UTF-8 JSON'')
                       else case j_parse W u of
                              Inl _ \<Rightarrow> Inl (PaymentRequiredErr ''payment header base64 payload is not JSON'')
                            | Inr v \<Rightarrow> validated v))"

section \<open>Facts\<close>

definition is_fac :: "effect \<Rightarrow> bool" where
  "is_fac e = (case e of EFac _ \<Rightarrow> True | _ \<Rightarrow> False)"

lemma is_fac_simps [simp]:
  "is_fac (EFac op)" "\<not> is_fac (ERpc m)" "\<not> is_fac (EDb l)" "\<not> is_fac (ESleep n)"
  by (simp_all add: is_fac_def)

lemma send_frame: "P (EFac op) \<Longrightarrow> svc_frame P s (snd (send E op req s))"
  unfolding send_def by (rule grows_svc [OF perform_grows])

lemma send_log [simp]: "s_log (snd (send E op req s)) = s_log s @ [EFac op]"
  by (simp add: send_def)

lemma get_json_frame [frame_rules]: "svc_frame is_fac s (snd (get_json E dec op a b req s))"
  using send_frame [of is_fac op s E req] by (simp add: get_json_def Let_def case_prod_unfold)

lemma discovery_frames [frame_rules]:
  "svc_frame is_fac s (snd (supported E s))"
  "svc_frame is_fac s (snd (discovery E w sc a s))"
  "svc_frame is_fac s (snd (onboard E w s))"
  by (simp_all add: supported_def discovery_def onboard_def get_json_frame)

lemma verify_log: "s_log (snd (verify E v s)) = s_log s @ [EFac ''verify'']"
  by (simp add: verify_def Let_def case_prod_unfold)

lemma settle_log: "s_log (snd (settle_post_raw E v s)) = s_log s @ [EFac ''settle'']"
  by (simp add: settle_post_raw_def Let_def case_prod_unfold)

lemma verify_frame: "svc_frame is_fac s (snd (verify E v s))"
  using send_frame [of is_fac "''verify''" s E] by (simp add: verify_def Let_def case_prod_unfold)

lemma settle_raw_frame: "svc_frame is_fac s (snd (settle_post_raw E v s))"
  using send_frame [of is_fac "''settle''" s E] by (simp add: settle_post_raw_def Let_def case_prod_unfold)

lemma verify_and_settle_frame [frame_rules]: "svc_frame is_fac s (snd (verify_and_settle E v s))"
proof -
  obtain vr s1 where v: "verify E v s = (vr, s1)" by force
  have "svc_frame is_fac s s1" using verify_frame [of s E v] v by simp
  moreover have "svc_frame is_fac s1 (snd (settle_post_raw E w s1))" for w by (rule settle_raw_frame)
  ultimately show ?thesis
    by (auto simp: verify_and_settle_def v Let_def case_prod_unfold split: sum.split intro: svc_frame_trans)
qed

text \<open>The calls made: always one verification, and a settlement only behind a valid one.\<close>

lemma verify_and_settle_calls:
  assumes "verify_and_settle E v s = (r, s')"
  shows "s_log s' = s_log s @ [EFac ''verify''] \<and> (\<exists>e. r = Inl e)
    \<or> s_log s' = s_log s @ [EFac ''verify'', EFac ''settle'']
      \<and> (\<exists>vj s1. verify E v s = (Inr vj, s1) \<and> is_valid_reply vj)"
proof -
  obtain vr s1 where v: "verify E v s = (vr, s1)" by force
  have l: "s_log s1 = s_log s @ [EFac ''verify'']" using verify_log [of E v s] v by simp
  show ?thesis
  proof (cases vr)
    case (Inl e)
    with assms v l show ?thesis by (auto simp: verify_and_settle_def)
  next
    case (Inr vj)
    obtain sr s2 where st: "settle_post_raw E (settle_body_of v vj) s1 = (sr, s2)" by force
    have "s_log s2 = s_log s @ [EFac ''verify'', EFac ''settle'']"
      using settle_log [of E "settle_body_of v vj" s1] st l by simp
    with assms v Inr l st show ?thesis by (auto simp: verify_and_settle_def split: if_splits)
  qed
qed

text \<open>A granted settlement: the verification was valid, and the settle reply was a success of the
  facilitator or a duplicate on chain.\<close>

lemma verify_and_settle_granted:
  assumes "verify_and_settle E v s = (Inr p, s')"
  obtains vj s1 status bt where "verify E v s = (Inr vj, s1)" "is_valid_reply vj"
    "fst (settle_post_raw E (settle_body_of v vj) s1) = Inr (status, bt)"
    "is_success status \<and> j_parse (e_web E) bt = Inr (sp_response p)
       \<and> jget (sp_response p) ''success'' \<noteq> Some (JBool False)
     \<or> \<not> is_success status \<and> is_duplicate_settle_body bt
       \<and> sp_response p = synthetic_settlement_after_duplicate vj v bt"
proof -
  from assms obtain vj s1 where v: "verify E v s = (Inr vj, s1)" "is_valid_reply vj"
    by (auto simp: verify_and_settle_def Let_def split: prod.splits sum.splits if_splits)
  from assms v obtain status bt where st:
    "fst (settle_post_raw E (settle_body_of v vj) s1) = Inr (status, bt)"
    "settle_outcome (e_web E) vj v status bt = Inr p"
    by (auto simp: verify_and_settle_def Let_def split: prod.splits sum.splits)
  from st(2) have "is_success status \<and> j_parse (e_web E) bt = Inr (sp_response p)
       \<and> jget (sp_response p) ''success'' \<noteq> Some (JBool False)
     \<or> \<not> is_success status \<and> is_duplicate_settle_body bt
       \<and> sp_response p = synthetic_settlement_after_duplicate vj v bt"
    by (auto simp: settle_outcome_def split: if_splits sum.splits)
  with v st(1) that show ?thesis by blast
qed

text \<open>The body sent to settle is the verified body, up to an added correlation id.\<close>

lemma settle_body_keeps:
  "k \<noteq> ''correlationId'' \<Longrightarrow> jget (settle_body_of v vj) k = jget v k"
  "jget v ''correlationId'' = Some x \<Longrightarrow> settle_body_of v vj = v"
  by (auto simp: settle_body_of_def merge_correlation_id_def split: option.split)

lemma validate_shapeD:
  assumes "validate_pr402_verify_shape v = Inr ()"
  shows "jget v ''x402Version'' = Some (JPos 2) \<and> jget v ''paymentPayload'' \<noteq> None
    \<and> jget v ''paymentRequirements'' \<noteq> None"
proof (cases "Option.bind (jget v ''x402Version'') as_u64")
  case None
  with assms show ?thesis by (simp add: validate_pr402_verify_shape_def)
next
  case (Some n)
  then have "jget v ''x402Version'' = Some (JPos n)"
    by (cases "jget v ''x402Version''") (simp_all add: as_u64_Some)
  with assms Some show ?thesis
    by (simp add: validate_pr402_verify_shape_def split: if_splits)
qed

lemma validated_InrD: "validated w = Inr v \<Longrightarrow> w = v \<and> validate_pr402_verify_shape v = Inr ()"
  by (cases "validate_pr402_verify_shape w") (auto simp: validated_def)

lemma parse_payment_proof_shape:
  assumes "parse_payment_proof W raw = Inr v"
  shows "validate_pr402_verify_shape v = Inr ()"
  using assms
  by (simp add: parse_payment_proof_def Let_def validated_InrD split: if_splits sum.splits option.splits)

end
