(* ===== verification/Payment.thy ===== *)
theory Payment
  imports Facilitator
begin

text \<open>
  \<^verbatim>\<open>src/x402/payment_handler.rs\<close>: the payment gate. It builds the \<^verbatim>\<open>accepts\<close> lines from the
  configured prices, enriches them with what the facilitator knows of the merchant, and
  checks the payment of a request against the facilitator.
\<close>

section \<open>Schemes\<close>

definition supported_scheme_matches :: "string \<Rightarrow> string \<Rightarrow> bool" where
  "supported_scheme_matches kind_scheme line_scheme =
     (kind_scheme = line_scheme
      \<or> (kind_scheme, line_scheme) \<in> {(''exact'', ''v2:solana:exact''), (''v2:solana:exact'', ''exact''),
           (''sla-escrow'', ''v2:solana:sla-escrow''), (''v2:solana:sla-escrow'', ''sla-escrow'')})"

definition onboard_scheme_entry :: "json \<Rightarrow> string \<Rightarrow> json option" where
  "onboard_scheme_entry schemes line_scheme =
     or_else (jget schemes line_scheme)
       (if line_scheme = ''exact'' then jget schemes ''v2:solana:exact''
        else if line_scheme = ''v2:solana:exact'' then jget schemes ''exact''
        else if line_scheme = ''sla-escrow'' then jget schemes ''v2:solana:sla-escrow''
        else if line_scheme = ''v2:solana:sla-escrow'' then jget schemes ''sla-escrow''
        else None)"

definition is_exact_scheme :: "string \<Rightarrow> bool" where
  "is_exact_scheme scheme = (scheme = ''exact'' \<or> scheme = ''v2:solana:exact'')"

definition is_sla_scheme :: "string \<Rightarrow> bool" where
  "is_sla_scheme scheme = (scheme = ''sla-escrow'' \<or> scheme = ''v2:solana:sla-escrow'')"

section \<open>Requirements\<close>

definition payment_skipped :: "'e svc_env_scheme \<Rightarrow> string \<Rightarrow> 'a world_scheme \<Rightarrow> bool \<times> 'a world_scheme" where
  "payment_skipped E endpoint s =
     (let (acc, s1) = resolve_accepts_json E endpoint s
      in case acc of
           Some _ \<Rightarrow> (False, s1)
         | None \<Rightarrow>
             (Option.bind (e_getenv E ''X402_PAYMENT_AMOUNT_USDC'') parse_f64 = Some (Fin 0), s1))"

definition build_requirement_lines ::
    "'e svc_env_scheme \<Rightarrow> string \<Rightarrow> 'a world_scheme \<Rightarrow> (err + requirements_line list) \<times> 'a world_scheme" where
  "build_requirement_lines E endpoint s =
     (let cfg = e_cfg E; L = e_lib E;
          s0 = refresh_parameters_from_db E s;
          (n, s1) = resolve_network E endpoint s0;
          network = unwrap_or n (x402_network cfg);
          (p, s2) = resolve_pay_to E endpoint s1
      in case p of
           None \<Rightarrow> (Inl (Internal ''X402_PAY_TO not set (exact: SplitVault; sla-escrow: overridden from facilitator discovery when X402_MERCHANT_WALLET is set)''), s2)
         | Some pay_to \<Rightarrow>
             (let (sc, s3) = resolve_scheme E endpoint s2;
                  scheme = unwrap_or sc (x402_scheme cfg);
                  (timeout, s4) = resolve_timeout_sec E endpoint (x402_timeout_sec cfg) s3;
                  (acc, s5) = resolve_accepts_json E endpoint s4
              in (case acc of
                    Some raw \<Rightarrow>
                      (case parse_accepts_json (e_web E) raw of
                         Inl e \<Rightarrow> Inl e
                       | Inr specs \<Rightarrow> build_lines_from_specs L network pay_to scheme timeout specs)
                  | None \<Rightarrow>
                      (case x402_legacy_usdc_amount cfg of
                         Some u \<Rightarrow> legacy_usdc_line L network pay_to scheme u timeout
                       | None \<Rightarrow>
                           legacy_usdc_line L network pay_to scheme (default_legacy_usdc endpoint) timeout),
                  s5)))"

section \<open>Enriching the lines\<close>

definition line_key :: "requirements_line \<Rightarrow> string \<times> string \<times> string" where
  "line_key row = (rl_scheme row, rl_network row, rl_asset row)"

definition set_pay_to :: "string option \<Rightarrow> json \<Rightarrow> json" where
  "set_pay_to vault v = (case vault of None \<Rightarrow> v | Some p \<Rightarrow> jinsert ''payTo'' (JStr p) v)"

definition exact_vault :: "string option \<Rightarrow> json option \<Rightarrow> string \<Rightarrow> string option" where
  "exact_vault merchant onboarded scheme =
     (if is_exact_scheme scheme \<and> merchant \<noteq> None then
        Option.bind onboarded (\<lambda>o'.
        Option.bind (jget o' ''schemes'') (\<lambda>ss.
        Option.bind (onboard_scheme_entry ss scheme) (\<lambda>info. get_str info ''vaultPda'')))
      else None)"

definition sla_vault ::
    "'e svc_env_scheme \<Rightarrow> string option \<Rightarrow> requirements_line \<Rightarrow> 'a world_scheme
     \<Rightarrow> string option \<times> 'a world_scheme" where
  "sla_vault E merchant row s =
     (case merchant of
        Some seed \<Rightarrow>
          if is_sla_scheme (rl_scheme row) then
            (let (r, s1) = discovery E seed ''sla-escrow'' (Some (rl_asset row)) s
             in (Option.bind (ok r) (\<lambda>info. get_str info ''vaultPda''), s1))
          else (None, s)
      | None \<Rightarrow> (None, s))"

definition merchant_extra :: "string option \<Rightarrow> string \<Rightarrow> json \<Rightarrow> json" where
  "merchant_extra merchant scheme x =
     (case merchant of
        None \<Rightarrow> x
      | Some seed \<Rightarrow>
          (let x1 = jinsert ''merchantWallet'' (JStr seed) x
           in if is_sla_scheme scheme then jinsert ''beneficiary'' (JStr seed) x1 else x1))"

definition enrich_line ::
    "'e svc_env_scheme \<Rightarrow> supported_response \<Rightarrow> string option \<Rightarrow> json option \<Rightarrow> requirements_line
     \<Rightarrow> 'a world_scheme \<Rightarrow> json \<times> 'a world_scheme" where
  "enrich_line E supp merchant onboarded row s =
     (case find (\<lambda>k. sk_network k = rl_network row \<and> supported_scheme_matches (sk_scheme k) (rl_scheme row))
             (sup_kinds supp) of
        None \<Rightarrow> (line_json row, s)
      | Some kind \<Rightarrow>
          (case sk_extra kind of
             None \<Rightarrow> (line_json row, s)
           | Some extra \<Rightarrow>
               (let x1 = jinsert ''capabilitiesUrl'' (JStr (capabilities_url (e_cfg E))) extra;
                    v1 = set_pay_to (exact_vault merchant onboarded (rl_scheme row)) (line_json row);
                    (vault, s1) = sla_vault E merchant row s;
                    v2 = set_pay_to vault v1
                in (jinsert ''extra'' (merchant_extra merchant (rl_scheme row) x1) v2, s1))))"

fun enrich_rows ::
    "'e svc_env_scheme \<Rightarrow> supported_response \<Rightarrow> string option \<Rightarrow> json option
     \<Rightarrow> (string \<times> string \<times> string) set \<Rightarrow> requirements_line list
     \<Rightarrow> 'a world_scheme \<Rightarrow> json list \<times> 'a world_scheme" where
  "enrich_rows E supp merchant onboarded seen [] s = ([], s)"
| "enrich_rows E supp merchant onboarded seen (row # rows) s =
     (if line_key row \<in> seen then enrich_rows E supp merchant onboarded seen rows s
      else let (v, s1) = enrich_line E supp merchant onboarded row s;
               (vs, s2) = enrich_rows E supp merchant onboarded (insert (line_key row) seen) rows s1
           in (v # vs, s2))"

definition enrich_accepts_with_fee_payer ::
    "'e svc_env_scheme \<Rightarrow> string option \<Rightarrow> requirements_line list
     \<Rightarrow> 'a world_scheme \<Rightarrow> (err + json list) \<times> 'a world_scheme" where
  "enrich_accepts_with_fee_payer E merchant rows s =
     (let (sr, s1) = supported E s
      in case sr of
           Inl e \<Rightarrow> (Inl e, s1)
         | Inr supp \<Rightarrow>
             (case (if \<exists>row \<in> set rows. is_exact_scheme (rl_scheme row) then merchant else None) of
                None \<Rightarrow>
                  (let (vs, s2) = enrich_rows E supp merchant None {} rows s1 in (Inr vs, s2))
              | Some seed \<Rightarrow>
                  (let (onb, s2) = onboard E seed s1
                   in case onb of
                        Inl e \<Rightarrow>
                          (Inl (Internal (''facilitator onboard discovery failed for merchant wallet ''
                             @ seed @ '': '' @ err_display e)), s2)
                      | Inr o' \<Rightarrow>
                          (let (vs, s3) = enrich_rows E supp merchant (Some o') {} rows s2
                           in (Inr vs, s3)))))"

definition get_payment_required ::
    "'e svc_env_scheme \<Rightarrow> string \<Rightarrow> resource_info \<Rightarrow> bool \<Rightarrow> 'a world_scheme
     \<Rightarrow> (err + payment_required) \<times> 'a world_scheme" where
  "get_payment_required E endpoint resource subscribe_hint s =
     (let (m, s1) = resolve_merchant_wallet E endpoint s;
          merchant = or_else m (x402_merchant_wallet (e_cfg E));
          (ls, s2) = build_requirement_lines E endpoint s1
      in case ls of
           Inl e \<Rightarrow> (Inl e, s2)
         | Inr rows \<Rightarrow>
             (let (acc, s3) = enrich_accepts_with_fee_payer E merchant rows s2
              in case acc of
                   Inl e \<Rightarrow> (Inl e, s3)
                 | Inr vs \<Rightarrow>
                     (let ext = JObj [(''pr402FacilitatorUrl'', JStr (x402_facilitator_url (e_cfg E)))];
                          ext' = (if subscribe_hint then
                                    jinsert ''subscribeInfoUrl'' (JStr ''/api/v1/subscribe/info'')
                                      (jinsert ''subscribeUrl'' (JStr ''/api/v1/subscribe'') ext)
                                  else ext)
                      in (Inr \<lparr>pr_version = 2, pr_error = None, pr_resource = resource,
                               pr_accepts = vs, pr_extensions = ext'\<rparr>, s3))))"

section \<open>The gate\<close>

definition extract_payment :: "headers \<Rightarrow> string option" where
  "extract_payment h =
     Option.bind (or_else (header_get h ''payment-signature'') (header_get h ''PAYMENT-SIGNATURE'')) to_str"

definition check_payment ::
    "'e svc_env_scheme \<Rightarrow> string \<Rightarrow> headers \<Rightarrow> resource_info \<Rightarrow> 'a world_scheme
     \<Rightarrow> (payment_gate_error + settlement_proof option) \<times> 'a world_scheme" where
  "check_payment E endpoint h resource s =
     (let (skip, s1) = payment_skipped E endpoint s
      in if skip then (Inr None, s1)
         else
           (let hint = (\<not> starts_with endpoint ''/api/v1/subscribe'');
                (prr, s2) = get_payment_required E endpoint resource hint s1
            in case prr of
                 Inl e \<Rightarrow>
                   (Inl (RequirementsUnavailable
                      (''Payment is required for this service but pricing requirements could not be loaded: ''
                       @ err_display e)), s2)
               | Inr pr \<Rightarrow>
                   (case extract_payment h of
                      None \<Rightarrow>
                        (Inl (Required (with_error ''PAYMENT-SIGNATURE header is required (x402 v2 payment proof)'' pr)), s2)
                    | Some raw \<Rightarrow>
                        (case parse_payment_proof (e_web E) raw of
                           Inl e \<Rightarrow>
                             (Inl (Required (with_error (''Invalid payment header: '' @ err_display e) pr)), s2)
                         | Inr proof \<Rightarrow>
                             (let (r, s3) = verify_and_settle E proof s2
                              in (case r of
                                    Inr settled \<Rightarrow> Inr (Some settled)
                                  | Inl e \<Rightarrow>
                                      Inl (Required (with_error
                                        (''Payment verification or settlement failed: '' @ err_display e) pr)),
                                  s3))))))"

section \<open>Frames\<close>

definition is_pay :: "effect \<Rightarrow> bool" where
  "is_pay e = (is_db e \<or> is_fac e)"

lemma is_pay_simps [simp]:
  "is_pay (EDb l)" "is_pay (EFac op)" "\<not> is_pay (ERpc m)" "\<not> is_pay (ESleep n)"
  by (simp_all add: is_pay_def)

text \<open>Neither verification nor settlement: what building the requirements may do.\<close>

definition is_quote :: "effect \<Rightarrow> bool" where
  "is_quote e = (is_db e \<or> e \<in> {EFac ''supported'', EFac ''discovery'', EFac ''onboard''})"

lemma is_quote_simps [simp]:
  "is_quote (EDb l)" "is_quote (EFac ''supported'')" "is_quote (EFac ''discovery'')"
  "is_quote (EFac ''onboard'')" "\<not> is_quote (EFac ''verify'')" "\<not> is_quote (EFac ''settle'')"
  by (simp_all add: is_quote_def)

lemma is_db_quote: "is_db e \<Longrightarrow> is_quote e" by (simp add: is_quote_def)
lemma is_quote_pay: "is_quote e \<Longrightarrow> is_pay e" by (auto simp: is_quote_def is_pay_def)

lemma quote_frames:
  "svc_frame is_quote s (snd (supported E s))"
  "svc_frame is_quote s (snd (discovery E w sc a s))"
  "svc_frame is_quote s (snd (onboard E w s))"
  using send_frame [of is_quote "''supported''" s E] send_frame [of is_quote "''discovery''" s E]
    send_frame [of is_quote "''onboard''" s E]
  by (simp_all add: supported_def discovery_def onboard_def get_json_def Let_def case_prod_unfold)

lemma sla_vault_frame: "svc_frame is_quote s (snd (sla_vault E m row s))"
  using quote_frames(2) by (auto simp: sla_vault_def Let_def case_prod_unfold split: option.split)

lemma enrich_line_frame: "svc_frame is_quote s (snd (enrich_line E supp m o' row s))"
  using sla_vault_frame by (auto simp: enrich_line_def Let_def case_prod_unfold split: option.split)

lemma enrich_rows_frame: "svc_frame is_quote s (snd (enrich_rows E supp m o' seen rows s))"
proof (induction rows arbitrary: seen s)
  case (Cons row rows)
  obtain v s1 where v: "enrich_line E supp m o' row s = (v, s1)" by force
  have "svc_frame is_quote s s1" using enrich_line_frame [of s E supp m o' row] v by simp
  then show ?case
    using Cons.IH by (auto simp: v Let_def case_prod_unfold intro: svc_frame_trans)
qed simp

lemma enrich_accepts_frame: "svc_frame is_quote s (snd (enrich_accepts_with_fee_payer E m rows s))"
proof -
  obtain sr s1 where sr: "supported E s = (sr, s1)" by force
  have f1: "svc_frame is_quote s s1" using quote_frames(1) [of s E] sr by simp
  have f2: "svc_frame is_quote s (snd (onboard E w s1))" for w
    by (rule svc_frame_trans [OF f1 quote_frames(3)])
  show ?thesis
    unfolding enrich_accepts_with_fee_payer_def sr Let_def prod.case case_prod_unfold
    by (auto split: sum.split option.split intro!: f1 f2 svc_frame_trans [OF f1 enrich_rows_frame]
        svc_frame_trans [OF f2 enrich_rows_frame])
qed

lemma resolve_quote:
  "svc_frame is_quote s (snd (resolve_network E ep s))"
  "svc_frame is_quote s (snd (resolve_pay_to E ep s))"
  "svc_frame is_quote s (snd (resolve_merchant_wallet E ep s))"
  "svc_frame is_quote s (snd (resolve_scheme E ep s))"
  "svc_frame is_quote s (snd (resolve_accepts_json E ep s))"
  "svc_frame is_quote s (snd (resolve_timeout_sec E ep d s))"
  "svc_frame is_quote s (refresh_parameters_from_db E s)"
  by (rule svc_frame_mono, rule resolve_all_frame params_cache.refresh_frame, erule is_db_quote)+

lemma build_lines_frame: "svc_frame is_quote s (snd (build_requirement_lines E ep s))"
  unfolding build_requirement_lines_def Let_def case_prod_unfold
  by (auto split: option.split
      intro!: svc_frame_trans [OF _ resolve_quote(5)] svc_frame_trans [OF _ resolve_quote(6)]
        svc_frame_trans [OF _ resolve_quote(4)] svc_frame_trans [OF _ resolve_quote(2)]
        svc_frame_trans [OF _ resolve_quote(1)] resolve_quote(7))

lemma get_payment_required_frame: "svc_frame is_quote s (snd (get_payment_required E ep res h s))"
  unfolding get_payment_required_def Let_def case_prod_unfold
  by (auto split: sum.split
      intro!: svc_frame_trans [OF _ enrich_accepts_frame] svc_frame_trans [OF _ build_lines_frame]
        resolve_quote(3))

lemma payment_skipped_frame: "svc_frame is_quote s (snd (payment_skipped E ep s))"
  using resolve_quote(5) [of s E ep]
  by (auto simp: payment_skipped_def Let_def case_prod_unfold split: option.split)

section \<open>The offered lines\<close>

text \<open>The rows that survive the deduplication: the first of each (scheme, network, asset).\<close>

fun first_rows :: "(string \<times> string \<times> string) set \<Rightarrow> requirements_line list \<Rightarrow> requirements_line list" where
  "first_rows seen [] = []"
| "first_rows seen (row # rows) =
     (if line_key row \<in> seen then first_rows seen rows
      else row # first_rows (insert (line_key row) seen) rows)"

text \<open>A line that differs from its row in \<open>payTo\<close> and \<open>extra\<close> only.\<close>

definition same_terms :: "requirements_line \<Rightarrow> json \<Rightarrow> bool" where
  "same_terms row v \<longleftrightarrow>
     is_obj v \<and> (\<forall>k. k \<noteq> ''payTo'' \<and> k \<noteq> ''extra'' \<longrightarrow> jget v k = jget (line_json row) k)"

lemma same_terms_line [simp]: "same_terms row (line_json row)"
  by (simp add: same_terms_def)

lemma same_terms_jinsert:
  "\<lbrakk>same_terms row v; k = ''payTo'' \<or> k = ''extra''\<rbrakk> \<Longrightarrow> same_terms row (jinsert k x v)"
  by (auto simp: same_terms_def jget_jinsert)

lemma same_terms_set_pay_to: "same_terms row v \<Longrightarrow> same_terms row (set_pay_to p v)"
  by (simp add: set_pay_to_def same_terms_jinsert split: option.split)

lemma enrich_line_terms: "same_terms row (fst (enrich_line E supp m o' row s))"
  by (auto simp: enrich_line_def Let_def case_prod_unfold same_terms_jinsert same_terms_set_pay_to
      split: option.split)

lemma enrich_rows_terms:
  "list_all2 same_terms (first_rows seen rows) (fst (enrich_rows E supp m o' seen rows s))"
proof (induction rows arbitrary: seen s)
  case (Cons row rows)
  obtain v s1 where v: "enrich_line E supp m o' row s = (v, s1)" by force
  then show ?case
    using Cons.IH enrich_line_terms [of row E supp m o' s] by (simp add: case_prod_unfold Let_def)
qed simp

lemma first_rows_keys:
  "distinct (map line_key (first_rows seen rows))
   \<and> line_key ` set (first_rows seen rows) = line_key ` set rows - seen
   \<and> set (first_rows seen rows) \<subseteq> set rows"
proof (induction rows arbitrary: seen)
  case (Cons row rows)
  then show ?case using Cons.IH [of seen] Cons.IH [of "insert (line_key row) seen"] by auto
qed simp

text \<open>The recipient of a line is the configured one unless the facilitator named a vault.\<close>

lemma enrich_line_no_merchant:
  "jget (fst (enrich_line E supp None o' row s)) ''payTo'' = Some (JStr (rl_pay_to row))"
proof -
  have "jget (line_json row) ''payTo'' = Some (JStr (rl_pay_to row))" by (simp add: line_json_def)
  then show ?thesis
    by (auto simp: enrich_line_def Let_def exact_vault_def sla_vault_def set_pay_to_def jget_jinsert
        split: option.split)
qed

lemma enrich_accepts_Inr:
  assumes "enrich_accepts_with_fee_payer E m rows s = (Inr vs, s')"
  shows "list_all2 same_terms (first_rows {} rows) vs"
proof -
  from assms obtain supp o' s1 where "enrich_rows E supp m o' {} rows s1 = (vs, s')"
    by (auto simp: enrich_accepts_with_fee_payer_def Let_def split: prod.splits sum.splits option.splits)
  then show ?thesis using enrich_rows_terms [of "{}" rows E supp m o' s1] by simp
qed

section \<open>Outcomes of the gate\<close>

lemma check_payment_cases:
  assumes "check_payment E ep h res s = (r, s')"
  obtains (free) "r = Inr None" "svc_frame is_quote s s'"
      "Option.bind (e_getenv E ''X402_PAYMENT_AMOUNT_USDC'') parse_f64 = Some (Fin 0)"
      "fst (resolve_accepts_json E ep s) = None"
  | (paid) p raw pf s2 where "r = Inr (Some p)" "extract_payment h = Some raw"
      "parse_payment_proof (e_web E) raw = Inr pf" "svc_frame is_quote s s2"
      "verify_and_settle E pf s2 = (Inr p, s')"
  | (refused) e rq raw pf s2 where "r = Inl (Required rq)" "extract_payment h = Some raw"
      "parse_payment_proof (e_web E) raw = Inr pf" "svc_frame is_quote s s2"
      "verify_and_settle E pf s2 = (Inl e, s')"
  | (unpaid) rq where "r = Inl (Required rq)" "svc_frame is_quote s s'"
      "extract_payment h = None \<or> (\<exists>raw e. extract_payment h = Some raw \<and> parse_payment_proof (e_web E) raw = Inl e)"
  | (unavailable) m where "r = Inl (RequirementsUnavailable m)" "svc_frame is_quote s s'"
proof -
  obtain skip s1 where sk: "payment_skipped E ep s = (skip, s1)" by force
  have f1: "svc_frame is_quote s s1" using payment_skipped_frame [of s E ep] sk by simp
  show ?thesis
  proof (cases skip)
    case True
    then have "Option.bind (e_getenv E ''X402_PAYMENT_AMOUNT_USDC'') parse_f64 = Some (Fin 0)"
      "fst (resolve_accepts_json E ep s) = None"
      using sk by (auto simp: payment_skipped_def Let_def split: prod.splits option.splits)
    with True assms sk f1 free show ?thesis by (simp add: check_payment_def)
  next
    case False
    obtain prr s2 where g: "get_payment_required E ep res (\<not> starts_with ep ''/api/v1/subscribe'') s1 = (prr, s2)"
      by force
    have f2: "svc_frame is_quote s s2"
      using svc_frame_trans [OF f1 get_payment_required_frame] g by (metis snd_conv)
    from False have "skip = False" by simp
    note d = assms [unfolded check_payment_def sk Let_def prod.case g this if_False]
    show ?thesis
    proof (cases prr)
      case (Inl e)
      from d [unfolded Inl sum.case] have "r = Inl (RequirementsUnavailable
          (''Payment is required for this service but pricing requirements could not be loaded: ''
            @ err_display e))" "s' = s2" by (auto simp only: prod.inject)
      then show ?thesis using unavailable f2 by blast
    next
      case (Inr rq)
      show ?thesis
      proof (cases "extract_payment h")
        case None
        from d [unfolded Inr sum.case None option.case] have
          "\<exists>q. r = Inl (Required q)" "s' = s2" by (auto simp only: prod.inject)
        then show ?thesis using unpaid f2 None by blast
      next
        case (Some raw)
        show ?thesis
        proof (cases "parse_payment_proof (e_web E) raw")
          case (Inl e)
          from d [unfolded \<open>prr = Inr rq\<close> sum.case Some option.case Inl] have
            "\<exists>q. r = Inl (Required q)" "s' = s2" by (auto simp only: prod.inject)
          then show ?thesis using unpaid f2 Some Inl by blast
        next
          case (Inr pf)
          obtain v s3 where v: "verify_and_settle E pf s2 = (v, s3)" by force
          note d3 = d [unfolded \<open>prr = Inr rq\<close> sum.case Some option.case Inr v prod.case]
          show ?thesis
          proof (cases v)
            case (Inl e)
            from d3 [unfolded Inl sum.case] have "\<exists>q. r = Inl (Required q)" "s' = s3"
              by (auto simp only: prod.inject)
            then show ?thesis
              using refused [OF _ Some \<open>parse_payment_proof (e_web E) raw = Inr pf\<close> f2] v Inl by blast
          next
            case (Inr p)
            from d3 [unfolded Inr sum.case] have "r = Inr (Some p)" "s' = s3"
              by (simp_all only: prod.inject)
            then show ?thesis
              using paid [OF _ Some \<open>parse_payment_proof (e_web E) raw = Inr pf\<close> f2] v Inr by blast
          qed
        qed
      qed
    qed
  qed
qed

lemma verify_and_settle_pay: "svc_frame is_pay s (snd (verify_and_settle E v s))"
  by (rule svc_frame_mono [OF verify_and_settle_frame]) (simp add: is_pay_def)

lemma check_payment_frame: "svc_frame is_pay s (snd (check_payment E ep h res s))"
proof -
  obtain r s' where r: "check_payment E ep h res s = (r, s')" by force
  have q: "svc_frame is_quote s t \<Longrightarrow> svc_frame is_pay s t" for t
    by (erule svc_frame_mono) (rule is_quote_pay)
  from r show ?thesis
  proof (cases rule: check_payment_cases)
    case (paid p raw pf s2)
    then show ?thesis
      using svc_frame_trans [OF q verify_and_settle_pay, of s2 E pf] r by simp
  next
    case (refused e rq raw pf s2)
    then show ?thesis
      using svc_frame_trans [OF q verify_and_settle_pay, of s2 E pf] r by simp
  qed (use q r in auto)
qed

text \<open>Settlements of a stretch of effects.\<close>

definition settles :: "effect list \<Rightarrow> nat" where
  "settles es = length (filter (\<lambda>e. e = EFac ''settle'') es)"

lemma settles_append [simp]: "settles (xs @ ys) = settles xs + settles ys"
  by (simp add: settles_def)

lemma settles_quote: "\<forall>e \<in> set es. is_quote e \<Longrightarrow> settles es = 0"
  by (auto simp: settles_def filter_empty_conv is_quote_def)

lemma settles_verify_settle [simp]:
  "settles [EFac ''verify'', EFac ''settle''] = 1" "settles [EFac ''verify''] = 0" "settles [] = 0"
  by (simp_all add: settles_def)

text \<open>A request settles at most once; it settles exactly once when a payment is accepted, and never
  without a payment header.\<close>

lemma check_payment_settles:
  assumes "check_payment E ep h res s = (r, s')"
  obtains es where "s_log s' = s_log s @ es" "settles es \<le> 1"
    "\<And>p. r = Inr (Some p) \<Longrightarrow> settles es = 1" "r = Inr None \<Longrightarrow> settles es = 0"
    "extract_payment h = None \<Longrightarrow> settles es = 0"
proof -
  have q: "\<exists>es. s_log t = s_log s @ es \<and> settles es = 0" if "svc_frame is_quote s t" for t
    using that settles_quote by (auto simp: svc_frame_def)
  from assms show ?thesis
  proof (cases rule: check_payment_cases)
    case (paid p raw pf s2)
    from q [OF paid(4)] obtain es where es: "s_log s2 = s_log s @ es" "settles es = 0" by blast
    from verify_and_settle_calls [OF paid(5)] have
      "s_log s' = s_log s @ (es @ [EFac ''verify'', EFac ''settle''])" using es by auto
    with paid es show ?thesis by (intro that [of "es @ [EFac ''verify'', EFac ''settle'']"]) auto
  next
    case (refused e rq raw pf s2)
    from q [OF refused(4)] obtain es where es: "s_log s2 = s_log s @ es" "settles es = 0" by blast
    from verify_and_settle_calls [OF refused(5)] obtain tl where
      "s_log s' = s_log s @ (es @ tl)" "settles tl \<le> 1" using es by auto
    with refused es show ?thesis by (intro that [of "es @ tl"]) auto
  qed (use q that in fastforce)+
qed

text \<open>What an accepted payment went through.\<close>

lemma check_payment_grantD:
  fixes s s' :: "'a world_scheme"
  assumes "check_payment E ep h res s = (Inr (Some p), s')"
  shows "\<exists>raw pf (s2 :: 'a world_scheme) vj s3 status bt. extract_payment h = Some raw
    \<and> parse_payment_proof (e_web E) raw = Inr pf \<and> validate_pr402_verify_shape pf = Inr ()
    \<and> verify E pf s2 = (Inr vj, s3) \<and> is_valid_reply vj
    \<and> fst (settle_post_raw E (settle_body_of pf vj) s3) = Inr (status, bt)
    \<and> (\<forall>k. k \<noteq> ''correlationId'' \<longrightarrow> jget (settle_body_of pf vj) k = jget pf k)
    \<and> (is_success status \<and> j_parse (e_web E) bt = Inr (sp_response p)
         \<and> jget (sp_response p) ''success'' \<noteq> Some (JBool False)
       \<or> \<not> is_success status \<and> is_duplicate_settle_body bt
         \<and> sp_response p = synthetic_settlement_after_duplicate vj pf bt)"
  using assms
proof (cases rule: check_payment_cases)
  case (paid p' raw pf s2)
  then have v: "verify_and_settle E pf s2 = (Inr p, s')" by simp
  obtain vj s3 status bt where "verify E pf s2 = (Inr vj, s3)" "is_valid_reply vj"
    "fst (settle_post_raw E (settle_body_of pf vj) s3) = Inr (status, bt)"
    "is_success status \<and> j_parse (e_web E) bt = Inr (sp_response p)
         \<and> jget (sp_response p) ''success'' \<noteq> Some (JBool False)
       \<or> \<not> is_success status \<and> is_duplicate_settle_body bt
         \<and> sp_response p = synthetic_settlement_after_duplicate vj pf bt"
    using v by (rule verify_and_settle_granted)
  note settled = this
  have keeps: "\<forall>k. k \<noteq> ''correlationId'' \<longrightarrow> jget (settle_body_of pf vj) k = jget pf k"
    using settle_body_keeps(1) by blast
  show ?thesis
    by (intro exI conjI, rule paid(2), rule paid(3), rule parse_payment_proof_shape [OF paid(3)],
        rule settled(1), rule settled(2), rule settled(3), rule keeps, rule settled(4))
qed simp_all

end
