(* ===== verification/Subscription.thy ===== *)
theory Subscription
  imports Pricing
begin

text \<open>
  \<^verbatim>\<open>src/subscription.rs\<close>: tiers, the JWT of a subscription, and the rate limits. Signing and
  checking a token are the \<^verbatim>\<open>jsonwebtoken\<close> crate's (\<open>jwt_encode\<close>, \<open>jwt_decode\<close>); what the code
  relies on is the predicate \<open>jwt_scheme\<close>. Times of the process are nanoseconds, the
  claims carry whole seconds.
\<close>

definition JWT_PERSISTENCE_HINT :: string where
  "JWT_PERSISTENCE_HINT =
     ''Save the token locally until expiresAt; reuse Authorization: Bearer on all data routes.''"

definition TIER_DURATIONS_SEC :: "(string \<times> int) list" where
  "TIER_DURATIONS_SEC =
     [(TIER_HOURLY, 60 * 60), (TIER_DAILY, 24 * 60 * 60), (TIER_MONTHLY, 30 * 24 * 60 * 60)]"

definition tier_duration_secs :: "string \<Rightarrow> int option" where
  "tier_duration_secs tier = map_option snd (find (\<lambda>(t, _). t = tier) TIER_DURATIONS_SEC)"

definition tier_label :: "string \<Rightarrow> string" where
  "tier_label tier =
     (if tier = TIER_HOURLY then ''1 hour'' else if tier = TIER_DAILY then ''24 hours''
      else if tier = TIER_MONTHLY then ''30 days'' else ''unknown'')"

definition is_valid_tier :: "string \<Rightarrow> bool" where
  "is_valid_tier tier = (tier \<in> set ALL_TIERS)"

definition jwt_secret :: "(string \<Rightarrow> string option) \<Rightarrow> err + string" where
  "jwt_secret getenv =
     (case getenv ''JWT_SECRET'' of
        None \<Rightarrow> Inl (Internal ''JWT_SECRET not set (required for subscription)'')
      | Some k \<Rightarrow> Inr k)"

definition ns_per_sec :: int where
  "ns_per_sec = 1000000000"

text \<open>\<^verbatim>\<open>DateTime::timestamp\<close>.\<close>

definition timestamp :: "int \<Rightarrow> int" where
  "timestamp ns = ns div ns_per_sec"

definition claims_for :: "string \<Rightarrow> string \<Rightarrow> int \<Rightarrow> int \<Rightarrow> claims" where
  "claims_for payer tier issued_at dur =
     \<lparr>cl_payer = payer, cl_tier = tier, cl_sub = ''solrisk'', cl_iat = timestamp issued_at,
      cl_exp = timestamp (issued_at + dur * ns_per_sec)\<rparr>"

definition sign_subscription_token ::
    "web \<Rightarrow> (string \<Rightarrow> string option) \<Rightarrow> string \<Rightarrow> string \<Rightarrow> int \<Rightarrow> err + (string \<times> int)" where
  "sign_subscription_token W getenv payer tier issued_at =
     (case tier_duration_secs tier of
        None \<Rightarrow> Inl (Internal (''unknown tier: '' @ tier))
      | Some dur \<Rightarrow>
          (case jwt_secret getenv of
             Inl e \<Rightarrow> Inl e
           | Inr secret \<Rightarrow>
               (case jwt_encode W secret (claims_for payer tier issued_at dur) of
                  Inl e \<Rightarrow> Inl (Internal (''jwt sign: '' @ e))
                | Inr token \<Rightarrow> Inr (token, issued_at + dur * ns_per_sec))))"

definition verify_subscription_token ::
    "web \<Rightarrow> (string \<Rightarrow> string option) \<Rightarrow> int \<Rightarrow> string \<Rightarrow> err + claims" where
  "verify_subscription_token W getenv now token =
     (case jwt_secret getenv of
        Inl e \<Rightarrow> Inl e
      | Inr secret \<Rightarrow>
          (case jwt_decode W secret now token of
             Inl e \<Rightarrow> Inl (Internal (''jwt verify: '' @ e))
           | Inr c \<Rightarrow> Inr c))"

definition rate_limit_env :: "(string \<Rightarrow> string option) \<Rightarrow> string \<Rightarrow> nat \<Rightarrow> nat" where
  "rate_limit_env getenv key dflt = unwrap_or (Option.bind (getenv key) (parse_unsigned (2 ^ 32))) dflt"

definition rate_limit_per_payer_per_min :: "(string \<Rightarrow> string option) \<Rightarrow> nat" where
  "rate_limit_per_payer_per_min getenv = rate_limit_env getenv ''RATE_LIMIT_PER_PAYER_PER_MIN'' 60"

definition rate_limit_global_per_min :: "(string \<Rightarrow> string option) \<Rightarrow> nat" where
  "rate_limit_global_per_min getenv = rate_limit_env getenv ''RATE_LIMIT_GLOBAL_PER_MIN'' 200"

section \<open>Facts\<close>

lemma tier_names_distinct [simp]:
  "TIER_HOURLY \<noteq> TIER_DAILY" "TIER_DAILY \<noteq> TIER_HOURLY" "TIER_HOURLY \<noteq> TIER_MONTHLY"
  "TIER_MONTHLY \<noteq> TIER_HOURLY" "TIER_DAILY \<noteq> TIER_MONTHLY" "TIER_MONTHLY \<noteq> TIER_DAILY"
  by (simp_all add: TIER_HOURLY_def TIER_DAILY_def TIER_MONTHLY_def)

text \<open>The two tables of tiers agree: exactly the valid tiers have a duration, and it is positive.\<close>

lemma valid_tier_iff_duration:
  "is_valid_tier tier \<longleftrightarrow> tier_duration_secs tier \<noteq> None"
  by (auto simp: is_valid_tier_def ALL_TIERS_def tier_duration_secs_def TIER_DURATIONS_SEC_def)

lemma tier_duration_pos: "tier_duration_secs tier = Some d \<Longrightarrow> 3600 \<le> d \<and> d \<le> 2592000"
  by (auto simp: tier_duration_secs_def TIER_DURATIONS_SEC_def split: if_splits)

lemma claims_lifetime:
  "cl_exp (claims_for payer tier i d) = cl_iat (claims_for payer tier i d) + d"
  by (simp add: claims_for_def timestamp_def ns_per_sec_def)

lemma sign_ok_iff:
  "(\<exists>r. sign_subscription_token W g payer tier i = Inr r) \<longleftrightarrow>
     (\<exists>d secret tok. tier_duration_secs tier = Some d \<and> g ''JWT_SECRET'' = Some secret
        \<and> jwt_encode W secret (claims_for payer tier i d) = Inr tok)"
  by (auto simp: sign_subscription_token_def jwt_secret_def split: option.splits sum.splits)

text \<open>What the code relies on from the JWT crate, as it is documented: a token that was signed is
  accepted with its claims under the same secret until \<open>leeway\<close> seconds after \<open>exp\<close>, and
  no longer.\<close>

definition jwt_scheme :: "web \<Rightarrow> int \<Rightarrow> bool" where
  "jwt_scheme W leeway \<longleftrightarrow> 0 \<le> leeway
     \<and> (\<forall>k c tok now. jwt_encode W k c = Inr tok \<longrightarrow>
          (jwt_decode W k now tok = Inr c \<longleftrightarrow> now \<le> cl_exp c + leeway))"

lemma jwt_schemeD:
  assumes "jwt_scheme W leeway"
  shows "jwt_encode W k c = Inr tok \<Longrightarrow> jwt_decode W k now tok = Inr c \<longleftrightarrow> now \<le> cl_exp c + leeway"
    and "0 \<le> leeway"
  using assms unfolding jwt_scheme_def by blast+

text \<open>What was signed verifies under the same secret while it is not expired.\<close>

lemma verify_signed:
  assumes "jwt_scheme W leeway" "sign_subscription_token W g payer tier i = Inr (tok, x)"
  shows "\<exists>d c. tier_duration_secs tier = Some d \<and> c = claims_for payer tier i d
    \<and> x = i + d * ns_per_sec
    \<and> (verify_subscription_token W g now tok = Inr c \<longleftrightarrow> now \<le> cl_exp c + leeway)"
proof -
  from assms(2) obtain d k where d: "tier_duration_secs tier = Some d" "jwt_secret g = Inr k"
    "jwt_encode W k (claims_for payer tier i d) = Inr tok" "x = i + d * ns_per_sec"
    by (auto simp: sign_subscription_token_def split: option.splits sum.splits)
  have "verify_subscription_token W g now tok = Inr c \<longleftrightarrow> jwt_decode W k now tok = Inr c" for c
    by (auto simp: verify_subscription_token_def d split: sum.splits)
  with d jwt_schemeD(1) [OF assms(1) d(3)] show ?thesis by auto
qed

lemma verify_token_cases:
  "verify_subscription_token W g now tok = Inr c \<longleftrightarrow>
     (\<exists>k. g ''JWT_SECRET'' = Some k \<and> jwt_decode W k now tok = Inr c)"
  by (auto simp: verify_subscription_token_def jwt_secret_def split: option.splits sum.splits)

end
