(* ===== verification/Auth.thy ===== *)
theory Auth
  imports Payment Subscription
begin

text \<open>
  \<^verbatim>\<open>src/auth/dual.rs\<close>: a data route is served to a subscriber (Bearer JWT) or to a caller who
  pays for the request (x402), behind a rate limit per client address.
\<close>

definition extract_bearer :: "headers \<Rightarrow> string option" where
  "extract_bearer h =
     opt_filter (\<lambda>t. t \<noteq> [])
       (map_option trim
          (Option.bind (Option.bind (or_else (header_get h ''authorization'') (header_get h ''Authorization'')) to_str)
            (\<lambda>t. strip_prefix t ''Bearer '')))"

definition client_ip :: "headers \<Rightarrow> string" where
  "client_ip h =
     unwrap_or
       (map_option (\<lambda>t. trim (hd (split_on (CHR '','') t)))
          (Option.bind (or_else (header_get h ''x-forwarded-for'') (header_get h ''X-Forwarded-For'')) to_str))
       ''unknown''"

text \<open>Both limits share their shape: no database or a failing check lets the request through.\<close>

definition rate_check ::
    "'e svc_env_scheme \<Rightarrow> string \<Rightarrow> nat \<Rightarrow> string \<Rightarrow> string \<Rightarrow> 'a world_scheme
     \<Rightarrow> (data_auth_error + unit) \<times> 'a world_scheme" where
  "rate_check E key limit code what s =
     (if \<not> e_has_db E then (Inr (), s)
      else let (r, s1) = check_and_increment_rate E key limit s
           in (case r of
                 Inr True \<Rightarrow> Inr ()
               | Inr False \<Rightarrow>
                   Inl (RateLimited code (what @ '' rate limit exceeded ('' @ show_nat limit @ ''/min)''))
               | Inl _ \<Rightarrow> Inr (), s1))"

definition check_global_rate_limit ::
    "'e svc_env_scheme \<Rightarrow> headers \<Rightarrow> 'a world_scheme \<Rightarrow> (data_auth_error + unit) \<times> 'a world_scheme" where
  "check_global_rate_limit E h s =
     rate_check E (''ip:'' @ client_ip h) (rate_limit_global_per_min (e_getenv E))
       ''RATE_LIMIT_EXCEEDED'' ''Global'' s"

definition check_payer_rate_limit ::
    "'e svc_env_scheme \<Rightarrow> string \<Rightarrow> 'a world_scheme \<Rightarrow> (data_auth_error + unit) \<times> 'a world_scheme" where
  "check_payer_rate_limit E payer s =
     rate_check E (''payer:'' @ payer) (rate_limit_per_payer_per_min (e_getenv E))
       ''SUBSCRIBER_RATE_LIMIT_EXCEEDED'' ''Subscriber'' s"

definition expired_err :: data_auth_error where
  "expired_err =
     UnauthorizedErr ''TOKEN_EXPIRED''
       (''JWT expired '' @ em_dash @ '' renew via POST /api/v1/subscribe'')"

definition verify_bearer ::
    "'e svc_env_scheme \<Rightarrow> string \<Rightarrow> 'a world_scheme \<Rightarrow> (data_auth_error + data_auth) \<times> 'a world_scheme" where
  "verify_bearer E token s =
     (case verify_subscription_token (e_web E) (e_getenv E) (now_secs s) token of
        Inl e \<Rightarrow>
          (if contains (err_display e) ''ExpiredSignature'' then (Inl expired_err, s)
           else (Inl (UnauthorizedErr ''MISSING_TOKEN'' (''Invalid token: '' @ err_display e)), s))
      | Inr c \<Rightarrow>
          if cl_exp c < now_secs s then (Inl expired_err, s)
          else
            (let (rv, s1) =
               (if e_has_db E then
                  (case is_revoked E (cl_payer c) (cl_iat c) s of
                     (Inr True, s1) \<Rightarrow> (Some (UnauthorizedErr ''TOKEN_REVOKED'' ''Subscription revoked''), s1)
                   | (Inr False, s1) \<Rightarrow> (None, s1)
                   | (Inl _, s1) \<Rightarrow>
                       (Some (UnauthorizedErr ''REVOCATION_UNVERIFIED''
                          ''Could not verify subscription status; please retry''), s1))
                else (None, s))
             in case rv of
                  Some e \<Rightarrow> (Inl e, s1)
                | None \<Rightarrow>
                    (let (lim, s2) = check_payer_rate_limit E (cl_payer c) s1
                     in (case lim of
                           Inl e \<Rightarrow> Inl e
                         | Inr _ \<Rightarrow> Inr (Subscription (cl_payer c) (cl_tier c) c), s2))))"

definition authenticate_data_route ::
    "'e svc_env_scheme \<Rightarrow> headers \<Rightarrow> string \<Rightarrow> resource_info \<Rightarrow> 'a world_scheme
     \<Rightarrow> (data_auth_error + data_auth) \<times> 'a world_scheme" where
  "authenticate_data_route E h endpoint resource s =
     (let (lim, s1) = check_global_rate_limit E h s
      in case lim of
           Inl e \<Rightarrow> (Inl e, s1)
         | Inr _ \<Rightarrow>
             (case extract_bearer h of
                Some token \<Rightarrow> verify_bearer E token s1
              | None \<Rightarrow>
                  if extract_payment h \<noteq> None then
                    (let (r, s2) = check_payment E endpoint h resource s1
                     in (case r of Inr p \<Rightarrow> Inr (PerCall p) | Inl e \<Rightarrow> Inl (PaymentErr e), s2))
                  else
                    (let (r, s2) = get_payment_required E endpoint resource True s1
                     in (case r of
                           Inr rq \<Rightarrow>
                             Inl (PaymentErr (Required (with_error
                               ''PAYMENT-SIGNATURE or Authorization: Bearer required (per-call x402 or subscription)'' rq)))
                         | Inl e \<Rightarrow>
                             Inl (PaymentErr (RequirementsUnavailable
                               (''Payment requirements unavailable: '' @ err_display e))), s2))))"

section \<open>Frames\<close>

lemma rate_check_frame: "svc_frame is_db s (snd (rate_check E key limit code what s))"
  using db_svc(2) [of s E key limit] by (auto simp: rate_check_def Let_def case_prod_unfold)

lemma verify_bearer_frame: "svc_frame is_db s (snd (verify_bearer E token s))"
proof (cases "verify_subscription_token (e_web E) (e_getenv E) (now_secs s) token")
  case (Inl e)
  then show ?thesis by (auto simp: verify_bearer_def)
next
  case (Inr c)
  obtain rv s1 where r: "is_revoked E (cl_payer c) (cl_iat c) s = (rv, s1)" by force
  have f: "svc_frame is_db s s1" using db_svc(7) [of s E "cl_payer c" "cl_iat c"] r by simp
  have g: "svc_frame is_db t (snd (check_payer_rate_limit E p t))" for p t
    unfolding check_payer_rate_limit_def by (rule rate_check_frame)
  show ?thesis
    using Inr f g [of s "cl_payer c"] svc_frame_trans [OF f g, of "cl_payer c"]
    by (auto simp: verify_bearer_def r Let_def case_prod_unfold split: sum.split bool.split)
qed

section \<open>Who is let in\<close>

lemma rate_check_InlD:
  assumes "rate_check E key limit code what s = (Inl e, s')"
  shows "e_has_db E \<and> check_and_increment_rate E key limit s = (Inr False, s')
    \<and> (\<exists>m. e = RateLimited code m)"
  using assms by (auto simp: rate_check_def Let_def split: if_splits prod.splits sum.splits bool.splits)

text \<open>A bearer token grants access only if it is genuine, unexpired, and known not to be revoked.\<close>

lemma verify_bearer_granted:
  assumes "verify_bearer E token s = (Inr a, s')"
  obtains c where "a = Subscription (cl_payer c) (cl_tier c) c"
    "verify_subscription_token (e_web E) (e_getenv E) (now_secs s) token = Inr c"
    "now_secs s \<le> cl_exp c"
    "e_has_db E \<Longrightarrow> fst (is_revoked E (cl_payer c) (cl_iat c) s) = Inr False"
proof -
  from assms obtain c where c: "verify_subscription_token (e_web E) (e_getenv E) (now_secs s) token = Inr c"
    by (auto simp: verify_bearer_def split: sum.splits if_splits)
  note d = assms [unfolded verify_bearer_def c sum.case]
  have x: "\<not> cl_exp c < now_secs s" using d by (auto split: if_splits)
  show ?thesis
  proof (cases "e_has_db E")
    case False
    with d x have "a = Subscription (cl_payer c) (cl_tier c) c"
      by (auto simp: Let_def split: prod.splits sum.splits)
    with c x False that show ?thesis by auto
  next
    case True
    obtain rv s1 where r: "is_revoked E (cl_payer c) (cl_iat c) s = (rv, s1)" by force
    have "rv = Inr False"
      using d x True r by (auto simp: Let_def split: sum.splits bool.splits)
    moreover from this have "a = Subscription (cl_payer c) (cl_tier c) c"
      using d x True r by (auto simp: Let_def split: prod.splits sum.splits)
    ultimately show ?thesis using c x r that by auto
  qed
qed

lemma authenticate_cases:
  assumes "authenticate_data_route E h ep res s = (r, s')"
  obtains (limited) m where "r = Inl (RateLimited ''RATE_LIMIT_EXCEEDED'' m)" "svc_frame is_db s s'"
  | (bearer) token s1 where "extract_bearer h = Some token" "svc_frame is_db s s1"
      "verify_bearer E token s1 = (r, s')"
  | (paying) s1 g where "extract_bearer h = None" "extract_payment h \<noteq> None" "svc_frame is_db s s1"
      "check_payment E ep h res s1 = (g, s')"
      "r = (case g of Inr p \<Rightarrow> Inr (PerCall p) | Inl e \<Rightarrow> Inl (PaymentErr e))"
  | (quoted) e where "extract_bearer h = None" "extract_payment h = None" "r = Inl (PaymentErr e)"
      "svc_frame is_quote s s'"
proof -
  obtain lim s1 where l: "check_global_rate_limit E h s = (lim, s1)" by force
  have f: "svc_frame is_db s s1"
    using rate_check_frame [of s E] l unfolding check_global_rate_limit_def by (metis snd_conv)
  note d = assms [unfolded authenticate_data_route_def l Let_def prod.case]
  show ?thesis
  proof (cases lim)
    case (Inl e)
    obtain m where "e = RateLimited ''RATE_LIMIT_EXCEEDED'' m"
      using rate_check_InlD l Inl unfolding check_global_rate_limit_def by blast
    with d Inl f show ?thesis by (intro limited [of m]) auto
  next
    case (Inr u)
    show ?thesis
    proof (cases "extract_bearer h")
      case (Some token)
      with d Inr f bearer show ?thesis by simp
    next
      case None
      show ?thesis
      proof (cases "extract_payment h = None")
        case False
        obtain g s2 where g: "check_payment E ep h res s1 = (g, s2)" by force
        with d Inr None False f paying [of s1 g] show ?thesis by simp
      next
        case True
        obtain g s2 where g: "get_payment_required E ep res True s1 = (g, s2)" by force
        have "svc_frame is_quote s s2"
          using svc_frame_trans [OF svc_frame_mono [OF f is_db_quote] get_payment_required_frame] g
          by (metis snd_conv)
        moreover have "s' = s2" "\<exists>e. r = Inl (PaymentErr e)"
          using d [unfolded Inr sum.case None option.case g prod.case] True by (auto split: sum.splits)
        ultimately show ?thesis using None True quoted by blast
      qed
    qed
  qed
qed

lemma is_db_pay: "is_db e \<Longrightarrow> is_pay e" by (simp add: is_pay_def)

lemma authenticate_frame: "svc_frame is_pay s (snd (authenticate_data_route E h ep res s))"
proof -
  obtain r s' where r: "authenticate_data_route E h ep res s = (r, s')" by force
  note up = svc_frame_mono [OF _ is_db_pay]
  from r show ?thesis
  proof (cases rule: authenticate_cases)
    case (limited m)
    then show ?thesis using r by (auto intro: up)
  next
    case (bearer token s1)
    then show ?thesis
      using r verify_bearer_frame [of s1 E token] by (auto intro: up svc_frame_trans)
  next
    case (paying s1 g)
    then show ?thesis
      using r check_payment_frame [of s1 E ep h res] by (auto intro: up svc_frame_trans)
  next
    case (quoted e)
    then show ?thesis using r by (auto intro: svc_frame_mono is_quote_pay)
  qed
qed

text \<open>Without a database a bearer token is checked by its signature and lifetime alone.\<close>

lemma verify_bearer_no_db:
  assumes "\<not> e_has_db E"
  shows "fst (verify_bearer E tok s) = Inr (Subscription (cl_payer c) (cl_tier c) c) \<longleftrightarrow>
    verify_subscription_token (e_web E) (e_getenv E) (now_secs s) tok = Inr c \<and> now_secs s \<le> cl_exp c"
  using assms
  by (auto simp: verify_bearer_def check_payer_rate_limit_def rate_check_def Let_def not_less split: sum.splits)

end
