(* ===== verification/Handlers.thy ===== *)
theory Handlers
  imports Auth
begin

text \<open>
  \<^verbatim>\<open>src/api/handlers.rs\<close>: the health, wallet, token and transaction handlers, each a function
  from the request and the world to the response and the new world. A data handler checks
  its input, authenticates (and thereby settles a payment), looks into the score cache,
  collects and scores, writes the cache and the audit log, and answers.
\<close>

definition en_dash :: string where
  "en_dash = map char_of [226, 128, 147 :: nat]"

definition CARGO_PKG_VERSION :: string where
  "CARGO_PKG_VERSION = ''0.3.0''"

section \<open>Health\<close>

definition handle_health :: "'e svc_env_scheme \<Rightarrow> 'a world_scheme \<Rightarrow> response \<times> 'a world_scheme" where
  "handle_health E s =
     (let (db_ok, s1) = db_connected E s;
          coverage = label_coverage (deny_index s1) (allow_index s1);
          v = JObj [(''status'', JStr ''ok''), (''service'', JStr ''solrisk''),
                    (''version'', JStr CARGO_PKG_VERSION), (''api_version'', JPos API_VERSION),
                    (''db_connected'', JBool db_ok), (''cluster'', JStr (cluster_label (e_cfg E))),
                    (''wallet_scoring_version'', JStr SCORING_VERSION),
                    (''token_scoring_version'', JStr TOKEN_SCORING_VERSION),
                    (''label_coverage'', label_coverage_json coverage)]
      in (json_response (e_web E) 200 v, s1))"

section \<open>The score cache\<close>

definition maybe_cached ::
    "'e svc_env_scheme \<Rightarrow> string \<Rightarrow> string \<Rightarrow> 'a world_scheme \<Rightarrow> (json \<times> int) option \<times> 'a world_scheme" where
  "maybe_cached E endpoint subj s =
     (if \<not> e_has_db E then (None, s)
      else let (r, s1) = get_cached_score E endpoint subj s
           in (case r of Inr hit \<Rightarrow> hit | Inl _ \<Rightarrow> None, s1))"

definition enrich_cached :: "web \<Rightarrow> json \<Rightarrow> int \<Rightarrow> json" where
  "enrich_cached W v cached_at_us =
     jinsert ''cached_at'' (JStr (rfc3339 W (cached_at_us * 1000))) (jinsert ''cache_hit'' (JBool True) v)"

definition envelope_fields :: "web \<Rightarrow> string \<Rightarrow> string \<Rightarrow> bool \<Rightarrow> int option \<Rightarrow> json" where
  "envelope_fields W cluster recommendation cache_hit cached_at =
     (let v = JObj [(''cluster'', JStr cluster), (''recommendation'', JStr recommendation),
                    (''cache_hit'', JBool cache_hit)]
      in case cached_at of
           None \<Rightarrow> v
         | Some t \<Rightarrow> jinsert ''cached_at'' (JStr (rfc3339 W t)) v)"

definition with_envelope :: "web \<Rightarrow> string \<Rightarrow> string \<Rightarrow> json \<Rightarrow> json" where
  "with_envelope W cluster recommendation v =
     jinsert_all (obj_pairs (envelope_fields W cluster recommendation False None)) v"

definition write_cache_and_log ::
    "'e svc_env_scheme \<Rightarrow> string \<Rightarrow> string \<Rightarrow> json \<Rightarrow> int \<Rightarrow> string \<Rightarrow> string \<Rightarrow> data_auth \<Rightarrow> json option
     \<Rightarrow> 'a world_scheme \<Rightarrow> 'a world_scheme" where
  "write_cache_and_log E endpoint subj v score band version auth signals_json s =
     (if \<not> e_has_db E then s
      else let (r1, s1) = set_cached_score E endpoint subj score band v version 300 s;
               (r2, s2) = log_scoring E
                 \<lparr>lg_endpoint = endpoint, lg_subject = subj, lg_score = score, lg_band = band,
                  lg_version = version, lg_signals = signals_json, lg_payer = payer_from_auth auth,
                  lg_correlation_id = None, lg_settlement_sig = settlement_sig_from_auth auth\<rparr> s1
           in s2)"

section \<open>Wallet risk\<close>

definition resource_for :: "'e svc_env_scheme \<Rightarrow> headers \<Rightarrow> string \<Rightarrow> string \<Rightarrow> string \<Rightarrow> resource_info" where
  "resource_for E h endpoint path query =
     \<lparr>ri_url = resource_url_for_request (e_getenv E) h path query,
      ri_description = resource_description endpoint, ri_mime_type = ''application/json''\<rparr>"

definition bad_subject :: "string \<Rightarrow> bool" where
  "bad_subject w = (w = [] \<or> length w < 32 \<or> 44 < length w)"

definition wallet_body :: "web \<Rightarrow> string \<Rightarrow> int \<Rightarrow> risk_result \<Rightarrow> json" where
  "wallet_body W wallet now_ns r = JObj
     [(''api_version'', JPos API_VERSION), (''wallet'', JStr wallet),
      (''risk_score'', JPos (nat (rr_risk_score r))), (''risk_band'', JStr (rr_risk_band r)),
      (''checked_at'', JStr (rfc3339 W now_ns)), (''signals'', chain_signals_json (rr_signals r)),
      (''flags'', strs_json (rr_flags r)), (''labels'', JArr (map label_match_json (rr_labels r))),
      (''confidence'', float_json (rr_confidence r)), (''signal_quality'', JStr (rr_signal_quality r)),
      (''scoring_version'', JStr (rr_scoring_version r))]"

text \<open>After authentication and a cache miss: collect, score, store, answer.\<close>

definition serve_wallet ::
    "'e svc_env_scheme \<Rightarrow> string \<Rightarrow> data_auth \<Rightarrow> 'a world_scheme \<Rightarrow> response \<times> 'a world_scheme" where
  "serve_wallet E wallet auth s =
     (let W = e_web E;
          s1 = refresh_labels_from_db E s;
          deny = deny_index s1; allow = allow_index s1;
          (c, s2) = collect_chain_signals E deny wallet s1
      in case c of
           Inl e \<Rightarrow>
             (error_response_with_settlement W 503 ''RPC_ERROR''
                (''Could not collect on-chain data for '' @ wallet @ '': '' @ e) auth, s2)
         | Inr sg \<Rightarrow>
             (let r = score_wallet (e_ln E) deny allow wallet sg;
                  rec = wallet_recommendation r;
                  v = with_envelope W (cluster_label (e_cfg E)) rec
                        (wallet_body W wallet (int (s_now s2)) r);
                  s3 = write_cache_and_log E ENDPOINT_WALLET_RISK wallet v (rr_risk_score r)
                         (rr_risk_band r) (rr_scoring_version r) auth
                         (Some (chain_signals_json (rr_signals r))) s2
              in (ok_with_payment W v (settlement_from_auth auth), s3)))"

definition serve_cached_or ::
    "'e svc_env_scheme \<Rightarrow> string \<Rightarrow> string \<Rightarrow> data_auth
     \<Rightarrow> ('a world_scheme \<Rightarrow> response \<times> 'a world_scheme) \<Rightarrow> 'a world_scheme \<Rightarrow> response \<times> 'a world_scheme" where
  "serve_cached_or E endpoint subj auth miss s =
     (let (hit, s1) = maybe_cached E endpoint subj s
      in case hit of
           Some (cached, cached_at) \<Rightarrow>
             (ok_with_payment (e_web E) (enrich_cached (e_web E) cached cached_at)
                (settlement_from_auth auth), s1)
         | None \<Rightarrow> miss s1)"

definition handle_wallet_risk ::
    "'e svc_env_scheme \<Rightarrow> headers \<Rightarrow> string \<Rightarrow> 'a world_scheme \<Rightarrow> response \<times> 'a world_scheme" where
  "handle_wallet_risk E h query s =
     (let wallet = extract_query_param query ''wallet''
      in if bad_subject wallet then
           (error_response (e_web E) 400 ''BAD_REQUEST''
              (''Query parameter `wallet` is required (Solana base58 pubkey, 32'' @ en_dash @ ''44 chars).''), s)
         else
           (let (a, s1) = authenticate_data_route E h ENDPOINT_WALLET_RISK
                            (resource_for E h ENDPOINT_WALLET_RISK ''/api/v1/wallet-risk'' query) s
            in case a of
                 Inl e \<Rightarrow> (handle_auth_error (e_web E) e, s1)
               | Inr auth \<Rightarrow>
                   serve_cached_or E ENDPOINT_WALLET_RISK wallet auth (serve_wallet E wallet auth) s1))"

section \<open>Token risk\<close>

definition token_body :: "web \<Rightarrow> string \<Rightarrow> int \<Rightarrow> token_risk_result \<Rightarrow> json" where
  "token_body W mint now_ns r = JObj
     [(''api_version'', JPos API_VERSION), (''mint'', JStr mint),
      (''risk_domain'', JStr (kr_risk_domain r)),
      (''risk_score'', JPos (nat (kr_risk_score r))), (''risk_band'', JStr (kr_risk_band r)),
      (''checked_at'', JStr (rfc3339 W now_ns)), (''signals'', token_signals_json (kr_signals r)),
      (''flags'', strs_json (kr_flags r)), (''confidence'', float_json (kr_confidence r)),
      (''signal_quality'', JStr (kr_signal_quality r)), (''scoring_version'', JStr (kr_scoring_version r))]"

definition token_recommendation :: "token_risk_result \<Rightarrow> string" where
  "token_recommendation r = recommendation_from (kr_risk_band r) False (kr_signal_quality r)"

definition serve_token ::
    "'e svc_env_scheme \<Rightarrow> string \<Rightarrow> data_auth \<Rightarrow> 'a world_scheme \<Rightarrow> response \<times> 'a world_scheme" where
  "serve_token E mint auth s =
     (let W = e_web E; (c, s2) = collect_token_signals E mint s
      in case c of
           Inl e \<Rightarrow>
             (error_response_with_settlement W 503 ''RPC_ERROR''
                (''Token signal collection failed: '' @ e) auth, s2)
         | Inr sg \<Rightarrow>
             (let r = score_token mint sg;
                  v = with_envelope W (cluster_label (e_cfg E)) (token_recommendation r)
                        (token_body W mint (int (s_now s2)) r);
                  s3 = write_cache_and_log E ENDPOINT_TOKEN_RISK mint v (kr_risk_score r)
                         (kr_risk_band r) (kr_scoring_version r) auth
                         (Some (token_signals_json (kr_signals r))) s2
              in (ok_with_payment W v (settlement_from_auth auth), s3)))"

definition handle_token_risk ::
    "'e svc_env_scheme \<Rightarrow> headers \<Rightarrow> string \<Rightarrow> 'a world_scheme \<Rightarrow> response \<times> 'a world_scheme" where
  "handle_token_risk E h query s =
     (let mint = extract_query_param query ''mint''
      in if bad_subject mint then
           (error_response (e_web E) 400 ''BAD_REQUEST''
              (''Query parameter `mint` is required (Solana base58 mint, 32'' @ en_dash @ ''44 chars).''), s)
         else
           (let (a, s1) = authenticate_data_route E h ENDPOINT_TOKEN_RISK
                            (resource_for E h ENDPOINT_TOKEN_RISK ''/api/v1/token-risk'' query) s
            in case a of
                 Inl e \<Rightarrow> (handle_auth_error (e_web E) e, s1)
               | Inr auth \<Rightarrow>
                   serve_cached_or E ENDPOINT_TOKEN_RISK mint auth (serve_token E mint auth) s1))"

section \<open>Transaction risk\<close>

definition tx_body :: "web \<Rightarrow> int \<Rightarrow> tx_risk_result \<Rightarrow> json" where
  "tx_body W now_ns r = JObj
     [(''api_version'', JPos API_VERSION), (''subject'', opt_json JStr (subject (tr_signals r))),
      (''fee_payer'', opt_json JStr (fee_payer (tr_signals r))),
      (''risk_domain'', JStr (tr_risk_domain r)),
      (''risk_score'', JPos (nat (tr_risk_score r))), (''risk_band'', JStr (tr_risk_band r)),
      (''checked_at'', JStr (rfc3339 W now_ns)), (''signals'', tx_signals_json (tr_signals r)),
      (''flags'', strs_json (tr_flags r)), (''confidence'', float_json (tr_confidence r)),
      (''signal_quality'', JStr (tr_signal_quality r)), (''scoring_version'', JStr (tr_scoring_version r))]"

definition serve_tx ::
    "'e svc_env_scheme \<Rightarrow> string \<Rightarrow> string \<Rightarrow> data_auth \<Rightarrow> 'a world_scheme \<Rightarrow> response \<times> 'a world_scheme" where
  "serve_tx E transaction owner auth s =
     (let W = e_web E
      in case decode_tx (e_lib E) transaction of
           Inl e \<Rightarrow>
             (error_response_with_settlement W 422 ''INVALID_TRANSACTION''
                (''Could not decode transaction: '' @ e) auth, s)
         | Inr decoded \<Rightarrow>
             (let owner_override = (if owner = [] then None else Some owner);
                  (r, s1) = screen_tx E (deny_index s) decoded owner_override s;
                  v = with_envelope W (cluster_label (e_cfg E)) (tr_recommendation r)
                        (tx_body W (int (s_now s1)) r)
              in (ok_with_payment W v (settlement_from_auth auth), s1)))"

definition handle_tx_risk ::
    "'e svc_env_scheme \<Rightarrow> headers \<Rightarrow> string \<Rightarrow> 'a world_scheme \<Rightarrow> response \<times> 'a world_scheme" where
  "handle_tx_risk E h query s =
     (let transaction = extract_query_param query ''transaction''
      in if transaction = [] then
           (error_response (e_web E) 400 ''BAD_REQUEST''
              ''Query parameter `transaction` is required (base64 unsigned Solana transaction).'', s)
         else if \<not> base64_ok (e_lib E) transaction then
           (error_response (e_web E) 400 ''BAD_REQUEST''
              ''Query parameter `transaction` must be base64 (standard or url-safe).'', s)
         else
           (let (a, s1) = authenticate_data_route E h ENDPOINT_TX_RISK
                            (resource_for E h ENDPOINT_TX_RISK ''/api/v1/tx-risk'' query) s
            in case a of
                 Inl e \<Rightarrow> (handle_auth_error (e_web E) e, s1)
               | Inr auth \<Rightarrow> serve_tx E transaction (extract_query_param query ''owner'') auth s1))"

section \<open>Frames\<close>

text \<open>What the data part of a handler may do: RPC calls and database work, no payment.\<close>

definition is_work :: "effect \<Rightarrow> bool" where
  "is_work e = (is_rpc e \<or> is_db e)"

lemma is_work_simps [simp]:
  "is_work (EDb l)" "is_work (ERpc m)" "is_work (ESleep n)" "\<not> is_work (EFac op)"
  by (simp_all add: is_work_def)

lemma db_work: "is_db e \<Longrightarrow> is_work e" by (simp add: is_work_def)
lemma rpc_work: "is_rpc e \<Longrightarrow> is_work e" by (simp add: is_work_def)

lemma maybe_cached_frame: "svc_frame is_db s (snd (maybe_cached E ep sj s))"
  using db_svc(5) [of s E ep sj] by (auto simp: maybe_cached_def Let_def case_prod_unfold)

lemma maybe_cached_tables: "w_tables (snd (maybe_cached E ep sj s)) = w_tables s"
  using cached_op.tables_unchanged [of E ep sj s] by (auto simp: maybe_cached_def Let_def case_prod_unfold)

lemma write_cache_and_log_frame:
  "svc_frame is_db s (snd (r, write_cache_and_log E ep sj v sc b ver auth sg s))"
  using svc_frame_trans [OF db_svc(4) db_svc(3)]
  by (auto simp: write_cache_and_log_def Let_def case_prod_unfold)

lemma collect_svc:
  "svc_frame is_rpc s (snd (collect_chain_signals E deny w s))"
  "svc_frame is_rpc s (snd (collect_token_signals E m s))"
  "svc_frame is_rpc s (snd (screen_tx E deny tx owner s))"
  by (intro grows_svc collect_chain_signals_grows collect_token_signals_grows screen_tx_grows)+

lemma serve_wallet_frame: "svc_frame is_work s (snd (serve_wallet E wallet auth s))"
proof -
  let ?s1 = "refresh_labels_from_db E s"
  obtain c s2 where c: "collect_chain_signals E (deny_index ?s1) wallet ?s1 = (c, s2)" by force
  have "svc_frame is_work s ?s1" by (rule svc_frame_mono [OF label_cache.refresh_frame db_work])
  moreover have "svc_frame is_work ?s1 s2"
    using collect_svc(1) [of ?s1 E "deny_index ?s1" wallet] c by (auto elim: svc_frame_mono intro: rpc_work)
  ultimately have f: "svc_frame is_work s s2" by (rule svc_frame_trans)
  have "svc_frame is_work s2 (write_cache_and_log E ep sj v sc b ver auth sg s2)" for ep sj v sc b ver sg
    using svc_frame_mono [OF write_cache_and_log_frame db_work] by simp
  then show ?thesis
    using f by (auto simp: serve_wallet_def c Let_def split: sum.split intro: svc_frame_trans)
qed

lemma serve_token_frame: "svc_frame is_work s (snd (serve_token E mint auth s))"
proof -
  obtain c s2 where c: "collect_token_signals E mint s = (c, s2)" by force
  have f: "svc_frame is_work s s2"
    using collect_svc(2) [of s E mint] c by (auto elim: svc_frame_mono intro: rpc_work)
  have "svc_frame is_work s2 (write_cache_and_log E ep sj v sc b ver auth sg s2)" for ep sj v sc b ver sg
    using svc_frame_mono [OF write_cache_and_log_frame db_work] by simp
  then show ?thesis
    using f by (auto simp: serve_token_def c Let_def split: sum.split intro: svc_frame_trans)
qed

lemma serve_tx_frame: "svc_frame is_work s (snd (serve_tx E t owner auth s))"
  using svc_frame_mono [OF collect_svc(3) rpc_work]
  by (auto simp: serve_tx_def Let_def case_prod_unfold split: sum.split)

lemma serve_cached_or_frame:
  assumes "\<And>s. svc_frame is_work s (snd (miss s))"
  shows "svc_frame is_work s (snd (serve_cached_or E ep sj auth miss s))"
proof -
  have "svc_frame is_work s (snd (maybe_cached E ep sj s))"
    by (rule svc_frame_mono [OF maybe_cached_frame db_work])
  then show ?thesis
    using assms
    by (auto simp: serve_cached_or_def Let_def case_prod_unfold split: option.split intro: svc_frame_trans)
qed

end
