(* ===== verification/Subscribe.thy ===== *)
theory Subscribe
  imports Handlers
begin

text \<open>
  \<^verbatim>\<open>src/api/subscribe.rs\<close>: the subscription catalog and the purchase of a subscription: pay,
  sign a token for the payer named in the settlement, record it, answer with the token.
\<close>

definition tier_json :: "string \<Rightarrow> json" where
  "tier_json t = JObj
     [(''tier'', JStr t), (''label'', JStr (tier_label t)),
      (''durationSeconds'', int_json (unwrap_or (tier_duration_secs t) 0)),
      (''endpoint'', JStr (subscribe_endpoint_key t))]"

definition handle_subscribe_info :: "'e svc_env_scheme \<Rightarrow> 'a world_scheme \<Rightarrow> response \<times> 'a world_scheme" where
  "handle_subscribe_info E s =
     (let tiers = map tier_json ALL_TIERS;
          data_routes = List.map_filter path_for_endpoint PER_CALL_ENDPOINTS;
          s1 = refresh_labels_from_db E s;
          coverage = label_coverage (deny_index s1) (allow_index s1)
      in (json_response (e_web E) 200
            (JObj [(''service'', JStr ''solrisk''), (''api_version'', JPos API_VERSION),
                   (''cluster'', JStr (cluster_label (e_cfg E))), (''tiers'', JArr tiers),
                   (''dataRoutes'', strs_json data_routes),
                   (''label_coverage'', label_coverage_json coverage),
                   (''persistenceHint'', JStr JWT_PERSISTENCE_HINT),
                   (''auth'', JStr ''Authorization: Bearer <token> on data routes''),
                   (''facilitatorUrl'', JStr (x402_facilitator_url (e_cfg E)))]), s1))"

definition subscribe_body :: "web \<Rightarrow> string \<Rightarrow> string \<Rightarrow> int \<Rightarrow> json" where
  "subscribe_body W token tier expires_ns = JObj
     [(''success'', JBool True), (''token'', JStr token), (''tier'', JStr tier),
      (''tierLabel'', JStr (tier_label tier)), (''expiresAt'', JStr (rfc3339 W expires_ns)),
      (''durationSeconds'', int_json (unwrap_or (tier_duration_secs tier) 0)),
      (''usage'', JStr ''Authorization: Bearer <token>''),
      (''persistenceHint'', JStr JWT_PERSISTENCE_HINT), (''api_version'', JPos API_VERSION)]"

text \<open>After the payment: issue at time \<open>issued\<close>, record (a failing write is ignored), answer.\<close>

definition issue_subscription ::
    "'e svc_env_scheme \<Rightarrow> string \<Rightarrow> settlement_proof option \<Rightarrow> 'a world_scheme \<Rightarrow> response \<times> 'a world_scheme" where
  "issue_subscription E tier settlement s =
     (let payer = unwrap_or (Option.bind settlement payer_of_proof) ''unknown'';
          issued = int (s_now s)
      in case sign_subscription_token (e_web E) (e_getenv E) payer tier issued of
           Inl e \<Rightarrow> (error_response (e_web E) 503 ''JWT_ERROR'' (err_display e), s)
         | Inr (token, expires) \<Rightarrow>
             (let s1 = (if e_has_db E then
                          (let tx_sig = Option.bind settlement (\<lambda>p. get_str (sp_response p) ''transaction'')
                           in snd (record_subscription E payer tier issued expires tx_sig s))
                        else s)
              in (ok_with_payment (e_web E) (subscribe_body (e_web E) token tier expires) settlement, s1)))"

definition handle_subscribe ::
    "'e svc_env_scheme \<Rightarrow> headers \<Rightarrow> string \<Rightarrow> 'a world_scheme \<Rightarrow> response \<times> 'a world_scheme" where
  "handle_subscribe E h query s =
     (case opt_filter is_valid_tier (extract_tier_from_query query) of
        None \<Rightarrow>
          (error_response (e_web E) 400 ''BAD_REQUEST''
             ''Query parameter `tier` is required (hourly, daily, or monthly).'', s)
      | Some tier \<Rightarrow>
          (let endpoint = subscribe_endpoint_key tier;
               (r, s1) = check_payment E endpoint h
                           (resource_for E h endpoint ''/api/v1/subscribe'' query) s
           in case r of
                Inl (Required pr) \<Rightarrow> (subscribe_402_response (e_web E) pr, s1)
              | Inl (RequirementsUnavailable msg) \<Rightarrow>
                  (error_response (e_web E) 503 ''PAYMENT_REQUIREMENTS_UNAVAILABLE'' msg, s1)
              | Inr settlement \<Rightarrow> issue_subscription E tier settlement s1))"

section \<open>Facts\<close>

lemma issue_subscription_frame: "svc_frame is_db s (snd (issue_subscription E tier settlement s))"
  using db_svc(1)
  by (auto simp: issue_subscription_def Let_def split: sum.split prod.split)

lemma handle_subscribe_frame: "svc_frame is_pay s (snd (handle_subscribe E h q s))"
proof (cases "opt_filter is_valid_tier (extract_tier_from_query q)")
  case None
  then show ?thesis by (simp add: handle_subscribe_def)
next
  case (Some tier)
  obtain r s1 where r: "check_payment E (subscribe_endpoint_key tier) h
      (resource_for E h (subscribe_endpoint_key tier) ''/api/v1/subscribe'' q) s = (r, s1)" by force
  have "svc_frame is_pay s s1"
    using check_payment_frame [of s E "subscribe_endpoint_key tier" h] r by (metis snd_conv)
  moreover have "svc_frame is_pay s1 (snd (issue_subscription E tier st s1))" for st
    by (rule svc_frame_mono [OF issue_subscription_frame is_db_pay])
  ultimately show ?thesis
    using Some r by (auto simp: handle_subscribe_def Let_def
        split: sum.split payment_gate_error.split intro: svc_frame_trans)
qed

text \<open>The stored times are the issued ones cut to whole microseconds.\<close>

lemma issue_records:
  assumes "sign_subscription_token (e_web E) (e_getenv E) (unwrap_or (Option.bind settlement payer_of_proof) ''unknown'')
      tier (int (s_now s)) = Inr (token, expires)"
    and "e_has_db E"
  shows "t_subs (w_tables (snd (issue_subscription E tier settlement s))) = t_subs (w_tables s)
    \<or> (\<exists>row. t_subs (w_tables (snd (issue_subscription E tier settlement s))) = t_subs (w_tables s) @ [row]
        \<and> sb_payer row = unwrap_or (Option.bind settlement payer_of_proof) ''unknown''
        \<and> sb_tier row = tier \<and> sb_issued_at row = int (s_now s) div 1000
        \<and> sb_expires_at row = expires div 1000 \<and> \<not> sb_revoked row)"
  using sub_op.tables_cases [of E "unwrap_or (Option.bind settlement payer_of_proof) ''unknown''" tier
      "int (s_now s)" expires "Option.bind settlement (\<lambda>p. get_str (sp_response p) ''transaction'')" s] assms
  by (auto simp: issue_subscription_def Let_def insert_sub_def)

end
