(* ===== verification/Routes.thy ===== *)
theory Routes
  imports Subscribe
begin

text \<open>
  \<^verbatim>\<open>src/bin/risk_api.rs\<close> and \<^verbatim>\<open>src/well_known.rs\<close>: the dispatch of a request to its handler and
  the resource manifest. The three static pages are compiled in with \<^verbatim>\<open>include_str!\<close>; their
  contents are a parameter (\<open>pages\<close>).
\<close>

record pages =
  page_index :: string
  page_agent :: string
  page_openapi :: string

definition cors_options :: response where
  "cors_options = \<lparr>rs_status = 204,
     rs_headers = [(''Access-Control-Allow-Origin'', ''*''),
       (''Access-Control-Allow-Methods'', ''GET, POST, OPTIONS''),
       (''Access-Control-Allow-Headers'', RISK_CORS_ALLOW_HEADERS),
       (''Access-Control-Max-Age'', ''86400'')],
     rs_body = BEmpty\<rparr>"

definition base_url_from_headers :: "headers \<Rightarrow> string" where
  "base_url_from_headers h =
     (let host = unwrap_or (Option.bind (or_else (header_get h ''x-forwarded-host'') (header_get h ''host'')) to_str)
                   ''solrisk.signer-payer.me'';
          proto = unwrap_or (Option.bind (header_get h ''x-forwarded-proto'') to_str) ''https''
      in proto @ ''://'' @ host)"

definition resource_entry :: "string \<Rightarrow> string \<Rightarrow> json" where
  "resource_entry url endpoint = JObj
     [(''resourceType'', JStr ''http''), (''url'', JStr url),
      (''description'', JStr (resource_description endpoint)),
      (''mimeType'', JStr ''application/json''), (''endpoint'', JStr endpoint)]"

definition build_x402_resources :: "'e svc_env_scheme \<Rightarrow> string \<Rightarrow> json" where
  "build_x402_resources E base = JObj
     [(''schemaVersion'', JStr ''0.2.0''), (''apiVersion'', JPos API_VERSION),
      (''service'', JStr ''solrisk''),
      (''resources'', JArr
        (map (\<lambda>e. resource_entry
            (base @ unwrap_or (path_for_endpoint e) [] @ ''?'' @ sample_query_for_endpoint e) e)
           PER_CALL_ENDPOINTS
         @ map (\<lambda>t. resource_entry (base @ ''/api/v1/subscribe?tier='' @ t) (subscribe_endpoint_key t))
           ALL_TIERS)),
      (''dataEndpoints'', strs_json PER_CALL_ENDPOINTS),
      (''facilitatorUrl'', JStr (x402_facilitator_url (e_cfg E)))]"

definition page_response :: "string \<Rightarrow> headers \<Rightarrow> string \<Rightarrow> response" where
  "page_response content_type hs contents =
     \<lparr>rs_status = 200, rs_headers = (''Content-Type'', content_type) # hs, rs_body = BText contents\<rparr>"

definition link_header :: headers where
  "link_header = [(''Link'', ''</openapi.json>; rel=\"service-desc\"'')]"

definition not_found :: response where
  "not_found = \<lparr>rs_status = 404, rs_headers = [], rs_body = BText ''Not found''\<rparr>"

definition CORS_PATHS :: "string list" where
  "CORS_PATHS = [''/api/v1/wallet-risk'', ''/api/v1/token-risk'', ''/api/v1/tx-risk'',
                 ''/api/v1/subscribe'', ''/api/v1/subscribe/info'']"

definition routes ::
    "'e svc_env_scheme \<Rightarrow> pages \<Rightarrow> headers \<Rightarrow> string \<Rightarrow> string \<Rightarrow> string
     \<Rightarrow> 'a world_scheme \<Rightarrow> response \<times> 'a world_scheme" where
  "routes E P h meth path query s =
     (let m = (if meth = ''HEAD'' then ''GET'' else meth)
      in if m = ''GET'' \<and> path = ''/'' then
           (if contains (unwrap_or (Option.bind (header_get h ''Accept'') to_str) []) ''text/markdown''
            then (page_response ''text/markdown; charset=utf-8'' link_header (page_agent P), s)
            else (page_response ''text/html'' link_header (page_index P), s))
         else if m = ''GET'' \<and> path = ''/health'' then handle_health E s
         else if m = ''GET'' \<and> path = ''/agent-integration.md'' then
           (page_response ''text/markdown; charset=utf-8'' [] (page_agent P), s)
         else if m = ''GET'' \<and> path = ''/openapi.json'' then
           (page_response ''application/json; charset=utf-8'' [] (page_openapi P), s)
         else if m = ''GET'' \<and> path = ''/.well-known/x402-resources.json'' then
           (page_response ''application/json; charset=utf-8'' []
              (j_show (e_web E) (build_x402_resources E (base_url_from_headers h))), s)
         else if m = ''OPTIONS'' \<and> path \<in> set CORS_PATHS then (cors_options, s)
         else if m = ''GET'' \<and> path = ''/api/v1/wallet-risk'' then handle_wallet_risk E h query s
         else if m = ''GET'' \<and> path = ''/api/v1/token-risk'' then handle_token_risk E h query s
         else if m = ''GET'' \<and> path = ''/api/v1/tx-risk'' then handle_tx_risk E h query s
         else if m = ''GET'' \<and> path = ''/api/v1/subscribe/info'' then handle_subscribe_info E s
         else if m = ''POST'' \<and> path = ''/api/v1/subscribe'' then handle_subscribe E h query s
         else (not_found, s))"

section \<open>Data routes\<close>

text \<open>The three paid handlers share their course: refuse bad input, authenticate, then work.\<close>

definition paid_route ::
    "('a world_scheme \<Rightarrow> response \<times> 'a world_scheme)
     \<Rightarrow> ('a world_scheme \<Rightarrow> (data_auth_error + data_auth) \<times> 'a world_scheme)
     \<Rightarrow> (data_auth \<Rightarrow> 'a world_scheme \<Rightarrow> response \<times> 'a world_scheme) \<Rightarrow> web \<Rightarrow> bool" where
  "paid_route handler gate work W \<longleftrightarrow>
     (\<forall>s. (snd (handler s) = s \<and> rs_status (fst (handler s)) = 400)
        \<or> (\<exists>a s1. gate s = (a, s1)
             \<and> (case a of Inl e \<Rightarrow> handler s = (handle_auth_error W e, s1)
                        | Inr auth \<Rightarrow> handler s = work auth s1)))"

locale paid_handler =
  fixes E :: "'e svc_env_scheme"
    and handler :: "'a world_scheme \<Rightarrow> response \<times> 'a world_scheme"
    and h :: headers and endpoint :: string and resource :: resource_info
    and work :: "data_auth \<Rightarrow> 'a world_scheme \<Rightarrow> response \<times> 'a world_scheme"
  assumes route: "paid_route handler (authenticate_data_route E h endpoint resource) work (e_web E)"
    and work_frame: "svc_frame is_work s (snd (work auth s))"
    and work_proof: "\<exists>v. fst (work auth s) = ok_with_payment (e_web E) v (settlement_from_auth auth)
      \<or> (\<exists>st c m. fst (work auth s) = error_response_with_settlement (e_web E) st c m auth \<and> st \<in> {422, 503})"
begin

lemma handler_cases:
  obtains (rejected) "snd (handler s) = s" "rs_status (fst (handler s)) = 400"
  | (denied) e s1 where "authenticate_data_route E h endpoint resource s = (Inl e, s1)"
      "handler s = (handle_auth_error (e_web E) e, s1)"
  | (served) auth s1 where "authenticate_data_route E h endpoint resource s = (Inr auth, s1)"
      "handler s = work auth s1"
proof -
  have *: "(snd (handler s) = s \<and> rs_status (fst (handler s)) = 400)
      \<or> (\<exists>a s1. authenticate_data_route E h endpoint resource s = (a, s1)
           \<and> (case a of Inl e \<Rightarrow> handler s = (handle_auth_error (e_web E) e, s1)
                      | Inr auth \<Rightarrow> handler s = work auth s1))"
    using route unfolding paid_route_def by (rule spec)
  from * show ?thesis
  proof
    assume "\<exists>a s1. authenticate_data_route E h endpoint resource s = (a, s1)
           \<and> (case a of Inl e \<Rightarrow> handler s = (handle_auth_error (e_web E) e, s1)
                      | Inr auth \<Rightarrow> handler s = work auth s1)"
    then obtain a s1 where "authenticate_data_route E h endpoint resource s = (a, s1)"
      "case a of Inl e \<Rightarrow> handler s = (handle_auth_error (e_web E) e, s1)
              | Inr auth \<Rightarrow> handler s = work auth s1" by blast
    then show ?thesis using denied served by (cases a) auto
  qed (use rejected in blast)
qed

text \<open>An answer with status 200 was authorized.\<close>

lemma ok_authorized:
  assumes "rs_status (fst (handler s)) = 200"
  shows "\<exists>auth s1. authenticate_data_route E h endpoint resource s = (Inr auth, s1) \<and> handler s = work auth s1"
proof (cases rule: handler_cases [of s])
  case (denied e s1)
  then show ?thesis using assms handle_auth_error_status [of "e_web E" e] by auto
qed (use assms in auto)

text \<open>The effects of a request: authentication and payment first, then the work. No RPC call is
  made for a request that is not let in, and no payment after the work has begun.\<close>

lemma effects_in_order:
  "\<exists>es ws. s_log (snd (handler s)) = s_log s @ es @ ws \<and> (\<forall>e \<in> set es. is_pay e)
     \<and> (\<forall>e \<in> set ws. is_work e)
     \<and> (ws \<noteq> [] \<longrightarrow> (\<exists>auth. fst (authenticate_data_route E h endpoint resource s) = Inr auth))"
proof (cases rule: handler_cases [of s])
  case rejected
  then show ?thesis by auto
next
  case (denied e s1)
  then show ?thesis
    using authenticate_frame [of s E h endpoint resource] unfolding svc_frame_def by force
next
  case (served auth s1)
  have "svc_frame is_pay s s1" using authenticate_frame [of s E h endpoint resource] served by simp
  then obtain es where es: "s_log s1 = s_log s @ es" "\<forall>e \<in> set es. is_pay e"
    unfolding svc_frame_def by blast
  obtain ws where ws: "s_log (snd (work auth s1)) = s_log s1 @ ws" "\<forall>e \<in> set ws. is_work e"
    using work_frame [of s1 auth] unfolding svc_frame_def by blast
  from es ws served show ?thesis by (intro exI [of _ es] exI [of _ ws]) auto
qed

text \<open>Whoever was let in with a settlement finds its proof in the response, served or not.\<close>

lemma proof_returned:
  assumes "authenticate_data_route E h endpoint resource s = (Inr auth, s1)"
    and "handler s = work auth s1" and "settlement_from_auth auth = Some p" "header_value (e_web E) p \<noteq> []"
  shows "response_header (fst (handler s)) ''PAYMENT-RESPONSE'' = Some (header_value (e_web E) p)"
  using work_proof [of auth s1] assms(2-4) by (auto simp: proof_header opt_filter_def)

text \<open>Without credentials there is only a refusal or a quote.\<close>

lemma anonymous:
  assumes "extract_bearer h = None" "extract_payment h = None"
  shows "rs_status (fst (handler s)) \<in> {400, 402, 429, 503} \<and> svc_frame is_quote s (snd (handler s))"
proof (cases rule: handler_cases [of s])
  case rejected
  then show ?thesis by simp
next
  case (denied e s1)
  have "e = RateLimited ''RATE_LIMIT_EXCEEDED'' m \<or> e = PaymentErr g \<Longrightarrow>
      rs_status (handle_auth_error (e_web E) e) \<in> {400, 402, 429, 503}" for m g
    by (cases g) (auto simp: handle_auth_error_def error_response_def json_response_def payment_402_response_def Let_def)
  moreover from denied(1) have "((\<exists>m. e = RateLimited ''RATE_LIMIT_EXCEEDED'' m) \<or> (\<exists>g. e = PaymentErr g))
      \<and> svc_frame is_quote s s1"
    by (cases rule: authenticate_cases) (use assms in \<open>auto elim: svc_frame_mono intro: is_db_quote\<close>)
  ultimately show ?thesis using denied(2) by auto
next
  case (served auth s1)
  from served(1) have False
    by (cases rule: authenticate_cases) (use assms in auto)
  then show ?thesis ..
qed

lemma frame: "svc_frame (\<lambda>e. is_pay e \<or> is_work e) s (snd (handler s))"
proof (cases rule: handler_cases [of s])
  case rejected
  then show ?thesis by simp
next
  case (denied e s1)
  then show ?thesis using authenticate_frame [of s E h endpoint resource] by (auto elim: svc_frame_mono)
next
  case (served auth s1)
  have "svc_frame (\<lambda>e. is_pay e \<or> is_work e) s s1"
    using authenticate_frame [of s E h endpoint resource] served by (auto elim: svc_frame_mono)
  moreover have "svc_frame (\<lambda>e. is_pay e \<or> is_work e) s1 (snd (work auth s1))"
    using work_frame [of s1 auth] by (auto elim: svc_frame_mono)
  ultimately show ?thesis using served by (auto intro: svc_frame_trans)
qed

end

section \<open>The three paid handlers\<close>

lemma serve_cached_or_proof:
  assumes "\<And>s. \<exists>v. fst (miss s) = ok_with_payment (e_web E) v (settlement_from_auth auth)
      \<or> (\<exists>st c m. fst (miss s) = error_response_with_settlement (e_web E) st c m auth \<and> st \<in> {422, 503})"
  shows "\<exists>v. fst (serve_cached_or E ep sj auth miss s) = ok_with_payment (e_web E) v (settlement_from_auth auth)
      \<or> (\<exists>st c m. fst (serve_cached_or E ep sj auth miss s) = error_response_with_settlement (e_web E) st c m auth
           \<and> st \<in> {422, 503})"
proof (cases "fst (maybe_cached E ep sj s)")
  case None
  then show ?thesis using assms by (simp add: serve_cached_or_def case_prod_unfold Let_def)
next
  case (Some hit)
  then show ?thesis by (auto simp: serve_cached_or_def case_prod_unfold Let_def)
qed

lemma serve_wallet_proof:
  "\<exists>v. fst (serve_wallet E w auth s) = ok_with_payment (e_web E) v (settlement_from_auth auth)
    \<or> (\<exists>st c m. fst (serve_wallet E w auth s) = error_response_with_settlement (e_web E) st c m auth \<and> st \<in> {422, 503})"
  unfolding serve_wallet_def Let_def case_prod_unfold by (auto split: sum.split)

lemma serve_token_proof:
  "\<exists>v. fst (serve_token E w auth s) = ok_with_payment (e_web E) v (settlement_from_auth auth)
    \<or> (\<exists>st c m. fst (serve_token E w auth s) = error_response_with_settlement (e_web E) st c m auth \<and> st \<in> {422, 503})"
  unfolding serve_token_def Let_def case_prod_unfold by (auto split: sum.split)

lemma serve_tx_proof:
  "\<exists>v. fst (serve_tx E t owner auth s) = ok_with_payment (e_web E) v (settlement_from_auth auth)
    \<or> (\<exists>st c m. fst (serve_tx E t owner auth s) = error_response_with_settlement (e_web E) st c m auth \<and> st \<in> {422, 503})"
  unfolding serve_tx_def Let_def case_prod_unfold by (auto split: sum.split)

lemma error_response_status [simp]: "rs_status (error_response W st c m) = st"
  by (simp add: error_response_def json_response_def)

interpretation wallet_route: paid_handler E "handle_wallet_risk E h query" h ENDPOINT_WALLET_RISK
  "resource_for E h ENDPOINT_WALLET_RISK ''/api/v1/wallet-risk'' query"
  "\<lambda>auth. serve_cached_or E ENDPOINT_WALLET_RISK (extract_query_param query ''wallet'') auth
     (serve_wallet E (extract_query_param query ''wallet'') auth)"
  for E :: "'e svc_env_scheme" and h query
proof
  show "paid_route (handle_wallet_risk E h query)
     (authenticate_data_route E h ENDPOINT_WALLET_RISK (resource_for E h ENDPOINT_WALLET_RISK ''/api/v1/wallet-risk'' query))
     (\<lambda>auth. serve_cached_or E ENDPOINT_WALLET_RISK (extract_query_param query ''wallet'') auth
        (serve_wallet E (extract_query_param query ''wallet'') auth)) (e_web E)"
    by (auto simp: paid_route_def handle_wallet_risk_def Let_def split: prod.split sum.split)
qed (rule serve_cached_or_frame serve_cached_or_proof, rule serve_wallet_frame serve_wallet_proof)+

interpretation token_route: paid_handler E "handle_token_risk E h query" h ENDPOINT_TOKEN_RISK
  "resource_for E h ENDPOINT_TOKEN_RISK ''/api/v1/token-risk'' query"
  "\<lambda>auth. serve_cached_or E ENDPOINT_TOKEN_RISK (extract_query_param query ''mint'') auth
     (serve_token E (extract_query_param query ''mint'') auth)"
  for E :: "'e svc_env_scheme" and h query
proof
  show "paid_route (handle_token_risk E h query)
     (authenticate_data_route E h ENDPOINT_TOKEN_RISK (resource_for E h ENDPOINT_TOKEN_RISK ''/api/v1/token-risk'' query))
     (\<lambda>auth. serve_cached_or E ENDPOINT_TOKEN_RISK (extract_query_param query ''mint'') auth
        (serve_token E (extract_query_param query ''mint'') auth)) (e_web E)"
    by (auto simp: paid_route_def handle_token_risk_def Let_def split: prod.split sum.split)
qed (rule serve_cached_or_frame serve_cached_or_proof, rule serve_token_frame serve_token_proof)+

interpretation tx_route: paid_handler E "handle_tx_risk E h query" h ENDPOINT_TX_RISK
  "resource_for E h ENDPOINT_TX_RISK ''/api/v1/tx-risk'' query"
  "serve_tx E (extract_query_param query ''transaction'') (extract_query_param query ''owner'')"
  for E :: "'e svc_env_scheme" and h query
proof
  show "paid_route (handle_tx_risk E h query)
     (authenticate_data_route E h ENDPOINT_TX_RISK (resource_for E h ENDPOINT_TX_RISK ''/api/v1/tx-risk'' query))
     (serve_tx E (extract_query_param query ''transaction'') (extract_query_param query ''owner'')) (e_web E)"
    by (auto simp: paid_route_def handle_tx_risk_def Let_def split: prod.split sum.split)
qed (rule serve_tx_frame serve_tx_proof)+

section \<open>Every route\<close>

lemma routes_frame: "svc_frame (\<lambda>e. is_pay e \<or> is_work e) s (snd (routes E P h meth path query s))"
proof -
  have "svc_frame (\<lambda>e. is_pay e \<or> is_work e) s (snd (handle_health E s))"
    using health_cache.refresh_frame [of s E] is_db_pay
    by (auto simp: handle_health_def Let_def case_prod_unfold elim: svc_frame_mono)
  moreover have "svc_frame (\<lambda>e. is_pay e \<or> is_work e) s (snd (handle_subscribe_info E s))"
    using label_cache.refresh_frame [of s E] is_db_pay
    by (auto simp: handle_subscribe_info_def Let_def elim: svc_frame_mono)
  moreover have "svc_frame (\<lambda>e. is_pay e \<or> is_work e) s (snd (handle_subscribe E h query s))"
    using handle_subscribe_frame [of s E h query] by (auto elim: svc_frame_mono)
  ultimately show ?thesis
    using wallet_route.frame [of s E h query] token_route.frame [of s E h query] tx_route.frame [of s E h query]
    by (simp add: routes_def Let_def)
qed

end
