(* ===== verification/Service.thy ===== *)
theory Service
  imports Routes
begin

text \<open>
  The service as a state machine. A run is a sequence of requests to \<^verbatim>\<open>routes\<close>
  (\<^verbatim>\<open>src/bin/risk_api.rs\<close>), of idle time, and of an operator editing the parameter and label
  tables of the database. Beside it stands the abstract protocol every request has to follow
  with its payments and its paid work, an automaton over effects; the routes refine it.
\<close>

section \<open>The payment protocol\<close>

datatype phase = Quoting | Verified | Settled | Serving

text \<open>Quoting may use the database and the facilitator's read-only endpoints. A settlement comes
  right after a verification, at most once, and before any paid work.\<close>

fun access_step :: "phase \<Rightarrow> effect \<Rightarrow> phase option" where
  "access_step Quoting e =
     (if is_quote e then Some Quoting
      else if e = EFac ''verify'' then Some Verified
      else if is_rpc e then Some Serving else None)"
| "access_step Verified e = (if e = EFac ''settle'' then Some Settled else None)"
| "access_step Settled e = (if is_work e then Some Serving else None)"
| "access_step Serving e = (if is_work e then Some Serving else None)"

fun access_run :: "phase \<Rightarrow> effect list \<Rightarrow> phase option" where
  "access_run p [] = Some p"
| "access_run p (e # es) = (case access_step p e of None \<Rightarrow> None | Some q \<Rightarrow> access_run q es)"

lemma access_run_append:
  "access_run p (xs @ ys) = (case access_run p xs of None \<Rightarrow> None | Some q \<Rightarrow> access_run q ys)"
  by (induction xs arbitrary: p) (auto split: option.splits)

text \<open>The phases come in this order, and no effect leads back.\<close>

fun phase_rank :: "phase \<Rightarrow> nat" where
  "phase_rank Quoting = 0" | "phase_rank Verified = 1" | "phase_rank Settled = 2" | "phase_rank Serving = 3"

instantiation phase :: linorder
begin

definition less_eq_phase :: "phase \<Rightarrow> phase \<Rightarrow> bool" where
  "less_eq_phase p q \<longleftrightarrow> phase_rank p \<le> phase_rank q"

definition less_phase :: "phase \<Rightarrow> phase \<Rightarrow> bool" where
  "less_phase p q \<longleftrightarrow> phase_rank p < phase_rank q"

instance
proof
  fix p q :: phase
  show "p \<le> q \<Longrightarrow> q \<le> p \<Longrightarrow> p = q"
    by (cases p; cases q) (simp_all add: less_eq_phase_def)
qed (auto simp: less_eq_phase_def less_phase_def)

end

lemma access_step_forward: "access_step p e = Some q \<Longrightarrow> p \<le> q"
  by (cases p) (auto simp: less_eq_phase_def split: if_splits)

lemma access_run_forward: "access_run p es = Some q \<Longrightarrow> p \<le> q"
  by (induction es arbitrary: p) (auto dest: access_step_forward intro: order_trans split: option.splits)

text \<open>Once work has begun nothing is verified or settled any more.\<close>

lemma access_run_no_way_back:
  assumes "access_run p (xs @ ERpc m # ys) = Some q"
  shows "EFac ''verify'' \<notin> set ys \<and> EFac ''settle'' \<notin> set ys"
proof -
  from assms obtain r where r: "access_run r ys = Some q" "r = Serving"
    by (auto simp: access_run_append is_quote_def split: option.splits if_splits elim!: access_step.elims)
  have "access_run Serving zs = Some q \<Longrightarrow> \<forall>x \<in> set zs. is_work x" for zs
    by (induction zs) (auto split: option.splits if_splits)
  from this [of ys] r have "\<forall>x \<in> set ys. is_work x" by simp
  then show ?thesis by auto
qed

lemma access_run_quote: "\<forall>e \<in> set es. is_quote e \<Longrightarrow> access_run Quoting es = Some Quoting"
  by (induction es) auto

lemma access_run_serving: "\<forall>e \<in> set es. is_work e \<Longrightarrow> access_run Serving es = Some Serving"
  by (induction es) auto

lemma work_cases: "is_work e \<Longrightarrow> is_quote e \<or> (\<not> is_quote e \<and> e \<noteq> EFac ''verify'' \<and> is_rpc e)"
  by (cases e) auto

lemma access_run_work:
  assumes "\<forall>e \<in> set es. is_work e" "p \<noteq> Verified"
  shows "\<exists>q. access_run p es = Some q"
proof (cases es)
  case Nil
  then show ?thesis by simp
next
  case (Cons e es')
  show ?thesis
  proof (cases "p = Quoting")
    case True
    have "\<exists>q. access_run Quoting es = Some q" using assms(1)
    proof (induction es)
      case (Cons e es)
      then show ?case using work_cases [of e] access_run_serving [of es] by auto
    qed simp
    then show ?thesis using True by simp
  next
    case False
    then have "access_step p e = Some Serving" using assms Cons by (cases p) auto
    then show ?thesis using assms Cons access_run_serving [of es'] by simp
  qed
qed

lemma svc_quote_run:
  assumes "svc_frame is_quote s t"
  shows "\<exists>es. s_log t = s_log s @ es \<and> access_run Quoting es = Some Quoting"
  using assms access_run_quote unfolding svc_frame_def by blast

text \<open>How far a payment check can get, by its outcome.\<close>

lemma check_payment_phase:
  assumes "check_payment E ep h res s = (r, s')"
  shows "\<exists>es ph. s_log s' = s_log s @ es \<and> access_run Quoting es = Some ph
    \<and> (\<forall>g. r = Inr g \<longrightarrow> ph = (if g = None then Quoting else Settled))"
using assms
proof (cases rule: check_payment_cases)
  case free
  then show ?thesis using svc_quote_run [of s s'] by force
next
  case (paid p raw pf s2)
  obtain es where es: "s_log s2 = s_log s @ es" "access_run Quoting es = Some Quoting"
    using svc_quote_run paid(4) by blast
  have "s_log s' = s_log s @ (es @ [EFac ''verify'', EFac ''settle''])"
    using verify_and_settle_calls [OF paid(5)] es(1) by auto
  then show ?thesis
    using es(2) paid(1)
    by (intro exI [of _ "es @ [EFac ''verify'', EFac ''settle'']"] exI [of _ Settled])
      (simp add: access_run_append)
next
  case (refused e rq raw pf s2)
  obtain es where es: "s_log s2 = s_log s @ es" "access_run Quoting es = Some Quoting"
    using svc_quote_run refused(4) by blast
  from verify_and_settle_calls [OF refused(5)] consider
      "s_log s' = s_log s2 @ [EFac ''verify'']" | "s_log s' = s_log s2 @ [EFac ''verify'', EFac ''settle'']"
    by blast
  then show ?thesis
  proof cases
    case 1
    then show ?thesis using es refused(1)
      by (intro exI [of _ "es @ [EFac ''verify'']"] exI [of _ Verified]) (simp add: access_run_append)
  next
    case 2
    then show ?thesis using es refused(1)
      by (intro exI [of _ "es @ [EFac ''verify'', EFac ''settle'']"] exI [of _ Settled])
        (simp add: access_run_append)
  qed
next
  case (unpaid rq)
  then show ?thesis using svc_quote_run [of s s'] by force
next
  case (unavailable m)
  then show ?thesis using svc_quote_run [of s s'] by force
qed

lemma authenticate_phase:
  assumes "authenticate_data_route E h ep res s = (r, s')"
  shows "\<exists>es ph. s_log s' = s_log s @ es \<and> access_run Quoting es = Some ph
    \<and> (\<forall>auth. r = Inr auth \<longrightarrow> ph \<noteq> Verified \<and> (settlement_from_auth auth \<noteq> None \<longrightarrow> ph = Settled))"
using assms
proof (cases rule: authenticate_cases)
  case (limited m)
  then show ?thesis using svc_quote_run [OF svc_frame_mono [OF limited(2) is_db_quote]] by force
next
  case (bearer token s1)
  have "svc_frame is_db s s'"
    using svc_frame_trans [OF bearer(2)] verify_bearer_frame [of s1 E token] bearer(3) by simp
  from svc_quote_run [OF svc_frame_mono [OF this is_db_quote]] obtain es where
    es: "s_log s' = s_log s @ es" "access_run Quoting es = Some Quoting" by blast
  moreover have "settlement_from_auth auth = None" if "r = Inr auth" for auth
  proof -
    have "verify_bearer E token s1 = (Inr auth, s')" using bearer(3) that by simp
    then obtain c where "auth = Subscription (cl_payer c) (cl_tier c) c" by (rule verify_bearer_granted)
    then show ?thesis by (simp add: settlement_from_auth_def)
  qed
  ultimately show ?thesis by (intro exI [of _ es] exI [of _ Quoting]) auto
next
  case (paying s1 g)
  from svc_quote_run [OF svc_frame_mono [OF paying(3) is_db_quote]] obtain es where
    es: "s_log s1 = s_log s @ es" "access_run Quoting es = Some Quoting" by blast
  from check_payment_phase [OF paying(4)] obtain es' ph where
    "s_log s' = s_log s1 @ es'" "access_run Quoting es' = Some ph"
    "\<forall>x. g = Inr x \<longrightarrow> ph = (if x = None then Quoting else Settled)" by blast
  then show ?thesis using es paying(5)
    by (intro exI [of _ "es @ es'"] exI [of _ ph])
      (auto simp: access_run_append settlement_from_auth_def split: sum.splits)
next
  case (quoted e)
  then show ?thesis using svc_quote_run [of s s'] by force
qed

context paid_handler
begin

text \<open>Every paid handler refines the protocol.\<close>

lemma protocol: "\<exists>es ph. s_log (snd (handler s)) = s_log s @ es \<and> access_run Quoting es = Some ph"
proof (cases rule: handler_cases [of s])
  case rejected
  then show ?thesis by (intro exI [of _ "[]"] exI [of _ Quoting]) simp
next
  case (denied e s1)
  then show ?thesis using authenticate_phase [OF denied(1)] by auto
next
  case (served auth s1)
  from authenticate_phase [OF served(1)] obtain es ph where es: "s_log s1 = s_log s @ es"
    "access_run Quoting es = Some ph" "ph \<noteq> Verified" by blast
  obtain ws where ws: "s_log (snd (work auth s1)) = s_log s1 @ ws" "\<forall>e \<in> set ws. is_work e"
    using work_frame [of s1 auth] unfolding svc_frame_def by blast
  from access_run_work [OF ws(2) es(3)] obtain q where "access_run ph ws = Some q" by blast
  then show ?thesis using es ws served(2)
    by (intro exI [of _ "es @ ws"] exI [of _ q]) (simp add: access_run_append)
qed

end

lemma subscribe_protocol:
  "\<exists>es ph. s_log (snd (handle_subscribe E h q s)) = s_log s @ es \<and> access_run Quoting es = Some ph"
proof (cases "opt_filter is_valid_tier (extract_tier_from_query q)")
  case None
  then show ?thesis by (intro exI [of _ "[]"] exI [of _ Quoting]) (simp add: handle_subscribe_def)
next
  case (Some tier)
  obtain r s1 where r: "check_payment E (subscribe_endpoint_key tier) h
      (resource_for E h (subscribe_endpoint_key tier) ''/api/v1/subscribe'' q) s = (r, s1)" by force
  from check_payment_phase [OF r] obtain es ph where es: "s_log s1 = s_log s @ es"
    "access_run Quoting es = Some ph" "\<forall>g. r = Inr g \<longrightarrow> ph = (if g = None then Quoting else Settled)" by blast
  show ?thesis
  proof (cases r)
    case (Inl e)
    then show ?thesis using Some r es
      by (intro exI [of _ es] exI [of _ ph]) (simp add: handle_subscribe_def Let_def split: payment_gate_error.split)
  next
    case (Inr g)
    have "ph \<noteq> Verified" using es(3) Inr by (auto split: if_splits)
    moreover have "svc_frame is_work s1 (snd (issue_subscription E tier g s1))"
      by (rule svc_frame_mono [OF issue_subscription_frame db_work])
    then obtain ws where ws: "s_log (snd (issue_subscription E tier g s1)) = s_log s1 @ ws" "\<forall>e \<in> set ws. is_work e"
      unfolding svc_frame_def by blast
    ultimately obtain q' where "access_run ph ws = Some q'" using access_run_work by blast
    then show ?thesis using Some r es ws Inr
      by (intro exI [of _ "es @ ws"] exI [of _ q']) (simp add: handle_subscribe_def Let_def access_run_append)
  qed
qed

lemma routes_protocol:
  "\<exists>es ph. s_log (snd (routes E P h meth path query s)) = s_log s @ es \<and> access_run Quoting es = Some ph"
proof -
  have db: "\<exists>es ph. s_log t = s_log s @ es \<and> access_run Quoting es = Some ph" if "svc_frame is_db s t" for t
    using svc_quote_run [OF svc_frame_mono [OF that is_db_quote]] by blast
  have "svc_frame is_db s (snd (handle_health E s))"
    using health_cache.refresh_frame [of s E] by (auto simp: handle_health_def Let_def case_prod_unfold)
  moreover have "svc_frame is_db s (snd (handle_subscribe_info E s))"
    using label_cache.refresh_frame [of s E] by (auto simp: handle_subscribe_info_def Let_def)
  ultimately show ?thesis
    using wallet_route.protocol [of E h query s] token_route.protocol [of E h query s]
      tx_route.protocol [of E h query s] subscribe_protocol [of E h query s] db [of s]
      db [of "snd (handle_health E s)"] db [of "snd (handle_subscribe_info E s)"]
    unfolding routes_def Let_def by (simp split: if_split)
qed

text \<open>What acceptance by the automaton means for the effects themselves.\<close>

lemma access_run_settles:
  "access_run p es = Some q \<Longrightarrow>
     settles es \<le> (if p \<in> {Quoting, Verified} then 1 else 0)
     \<and> (EFac ''settle'' \<in> set es \<longrightarrow> p \<in> {Quoting, Verified})"
proof (induction es arbitrary: p)
  case (Cons e es)
  then obtain r where r: "access_step p e = Some r" "access_run r es = Some q"
    by (auto split: option.splits)
  note IH = Cons.IH [OF r(2)]
  show ?case
  proof (cases p)
    case Quoting
    then have "e \<noteq> EFac ''settle''" using r(1) by (auto split: if_splits)
    then show ?thesis using IH Quoting by (auto simp: settles_def split: if_splits)
  next
    case Verified
    then have "e = EFac ''settle''" "r = Settled" using r(1) by (auto split: if_splits)
    then show ?thesis using IH Verified by (auto simp: settles_def)
  next
    case Settled
    then have "e \<noteq> EFac ''settle''" "r = Serving" using r(1) by (auto split: if_splits)
    then show ?thesis using IH Settled by (auto simp: settles_def)
  next
    case Serving
    then have "e \<noteq> EFac ''settle''" "r = Serving" using r(1) by (auto split: if_splits)
    then show ?thesis using IH Serving by (auto simp: settles_def)
  qed
qed (simp add: settles_def)

section \<open>Runs of the service\<close>

inductive service_run :: "'e svc_env_scheme \<Rightarrow> pages \<Rightarrow> nat \<Rightarrow> world \<Rightarrow> world \<Rightarrow> bool" for E P where
  start: "service_run E P 0 s s"
| request: "\<lbrakk>service_run E P n s t; routes E P h meth path query t = (resp, u)\<rbrakk>
    \<Longrightarrow> service_run E P (Suc n) s u"
| idle: "service_run E P n s t \<Longrightarrow> service_run E P n s (t\<lparr>s_now := s_now t + d\<rparr>)"
| operator: "service_run E P n s t
    \<Longrightarrow> service_run E P n s (t\<lparr>w_tables := (w_tables t)\<lparr>t_params := ps, t_labels := ls\<rparr>\<rparr>)"

text \<open>Runs compose.\<close>

lemma service_run_trans:
  "\<lbrakk>service_run E P m t u; service_run E P n s t\<rbrakk> \<Longrightarrow> service_run E P (n + m) s u"
  by (induction m t u rule: service_run.induct) (auto intro: service_run.intros)

text \<open>What a run keeps: the books only grow, one cached score per subject, connections idle between
  requests, and at most one settlement per request.\<close>

definition run_inv :: "nat \<Rightarrow> world \<Rightarrow> world \<Rightarrow> bool" where
  "run_inv n s t \<longleftrightarrow>
     s_now s \<le> s_now t \<and> prefix (s_log s) (s_log t)
     \<and> prefix (t_subs (w_tables s)) (t_subs (w_tables t))
     \<and> prefix (t_log (w_tables s)) (t_log (w_tables t))
     \<and> rates_le (w_tables s) (w_tables t)
     \<and> (cache_unique (w_tables s) \<longrightarrow> cache_unique (w_tables t))
     \<and> (pool_idle s \<longrightarrow> pool_idle t)
     \<and> settles (s_log t) \<le> settles (s_log s) + n"

lemma run_inv_request:
  assumes "run_inv n s t" "routes E P h meth path query t = (resp, u)"
  shows "run_inv (Suc n) s u"
proof -
  have f: "svc_frame (\<lambda>e. is_pay e \<or> is_work e) t u"
    using routes_frame [of t E P h meth path query] assms(2) by simp
  obtain es ph where es: "s_log u = s_log t @ es" "access_run Quoting es = Some ph"
    using routes_protocol [of E P h meth path query t] assms(2) by auto
  then have "settles (s_log u) \<le> settles (s_log t) + 1"
    using access_run_settles [OF es(2)] by simp
  then show ?thesis using assms(1) f es(1)
    by (auto simp: run_inv_def svc_frame_def tables_le_def intro: prefix_order.trans rates_le_trans)
qed

lemma service_run_inv: "service_run E P n s t \<Longrightarrow> run_inv n s t"
proof (induction rule: service_run.induct)
  case (start s)
  then show ?case by (simp add: run_inv_def)
next
  case (request n s t h meth path query resp u)
  then show ?case using run_inv_request by blast
next
  case (idle n s t d)
  then show ?case by (simp add: run_inv_def pool_idle_def)
next
  case (operator n s t ls ps)
  moreover have "rates_le (w_tables t) ((w_tables t)\<lparr>t_params := ps, t_labels := ls\<rparr>)" by simp
  ultimately show ?case
    using rates_le_trans by (auto simp: run_inv_def pool_idle_def cache_unique_def)
qed

end
