(* ===== verification/Books.thy ===== *)
theory Books
  imports Service
begin

text \<open>
  The footprint of every stage of a request in the database: a quote, a payment and a screened
  transaction write nothing, authentication writes the rate counters, a wallet or token report the
  score cache and the audit log, a purchase one subscription.
\<close>

section \<open>Stages that write nothing\<close>

lemma send_tables: "w_tables (snd (send E op req s)) = w_tables s"
  unfolding send_def by (rule grows_world(1) [OF perform_grows [where P = "\<lambda>_. True"]]) simp

lemma facilitator_tables [simp]:
  "w_tables (snd (supported E s)) = w_tables s"
  "w_tables (snd (discovery E w sc a s)) = w_tables s"
  "w_tables (snd (onboard E w s)) = w_tables s"
  "w_tables (snd (verify E v s)) = w_tables s"
  "w_tables (snd (settle_post_raw E v s)) = w_tables s"
  by (simp_all add: supported_def discovery_def onboard_def get_json_def verify_def settle_post_raw_def
      Let_def case_prod_unfold send_tables)

lemma verify_and_settle_tables [simp]: "w_tables (snd (verify_and_settle E v s)) = w_tables s"
  by (auto simp: verify_and_settle_def Let_def case_prod_unfold split: sum.split)

lemma resolve_tables [simp]:
  "w_tables (snd (resolve_network E ep s)) = w_tables s"
  "w_tables (snd (resolve_pay_to E ep s)) = w_tables s"
  "w_tables (snd (resolve_merchant_wallet E ep s)) = w_tables s"
  "w_tables (snd (resolve_scheme E ep s)) = w_tables s"
  "w_tables (snd (resolve_accepts_json E ep s)) = w_tables s"
  "w_tables (snd (resolve_timeout_sec E ep d s)) = w_tables s"
  by (auto simp: resolve_network_def resolve_pay_to_def resolve_merchant_wallet_def resolve_scheme_def
      resolve_accepts_json_def resolve_timeout_sec_def resolve_string_def resolve_frame(2)
      Let_def case_prod_unfold split: option.split)

lemma enrich_tables [simp]:
  "w_tables (snd (enrich_line E supp m ob row s)) = w_tables s"
  "w_tables (snd (enrich_rows E supp m ob seen rows s)) = w_tables s"
proof -
  show l: "w_tables (snd (enrich_line E supp m ob row s)) = w_tables s" for row s
    by (auto simp: enrich_line_def sla_vault_def Let_def case_prod_unfold split: option.split)
  show "w_tables (snd (enrich_rows E supp m ob seen rows s)) = w_tables s"
    by (induction rows arbitrary: seen s) (simp_all add: l Let_def case_prod_unfold)
qed

lemma quote_tables [simp]:
  "w_tables (snd (build_requirement_lines E ep s)) = w_tables s"
  "w_tables (snd (enrich_accepts_with_fee_payer E m rows s)) = w_tables s"
  "w_tables (snd (payment_skipped E ep s)) = w_tables s"
  by (auto simp: build_requirement_lines_def enrich_accepts_with_fee_payer_def payment_skipped_def
      params_cache.refresh_tables Let_def case_prod_unfold split: option.split sum.split)

lemma get_payment_required_tables [simp]:
  "w_tables (snd (get_payment_required E ep res hint s)) = w_tables s"
  by (auto simp: get_payment_required_def Let_def case_prod_unfold split: sum.split)

text \<open>A payment leaves no trace in the database, whatever its outcome.\<close>

lemma check_payment_tables [simp]: "w_tables (snd (check_payment E ep h res s)) = w_tables s"
  by (auto simp: check_payment_def Let_def case_prod_unfold split: sum.split option.split)

lemma collect_tables [simp]:
  "w_tables (snd (collect_chain_signals E deny w s)) = w_tables s"
  "w_tables (snd (collect_token_signals E w s)) = w_tables s"
  "w_tables (snd (screen_tx E deny tx owner s)) = w_tables s"
  by (rule grows_world(1), rule collect_chain_signals_grows collect_token_signals_grows screen_tx_grows)+

section \<open>Footprints\<close>

text \<open>\<open>u\<close> differs from \<open>t\<close> in the rate counters only, or also in the books of a report.\<close>

definition rates_only :: "tables \<Rightarrow> tables \<Rightarrow> bool" where
  "rates_only t u \<longleftrightarrow> u = t\<lparr>t_rate := t_rate u\<rparr>"

definition report_only :: "tables \<Rightarrow> tables \<Rightarrow> bool" where
  "report_only t u \<longleftrightarrow> u = t\<lparr>t_rate := t_rate u, t_cache := t_cache u, t_log := t_log u\<rparr>"

lemma rates_only_refl [simp, intro]: "rates_only t t"
  by (simp add: rates_only_def)

lemma rates_only_trans [trans]: "rates_only t u \<Longrightarrow> rates_only u v \<Longrightarrow> rates_only t v"
  by (cases t; cases u; cases v) (simp add: rates_only_def)

lemma report_only_refl [simp, intro]: "report_only t t"
  by (simp add: report_only_def)

lemma report_only_trans [trans]: "report_only t u \<Longrightarrow> report_only u v \<Longrightarrow> report_only t v"
  by (cases t; cases u; cases v) (simp add: report_only_def)

lemma rates_report: "rates_only t u \<Longrightarrow> report_only t u"
  by (cases t; cases u) (simp add: rates_only_def report_only_def)

lemma rates_onlyD: "rates_only t u \<Longrightarrow> t_cache u = t_cache t \<and> t_log u = t_log t \<and> t_subs u = t_subs t"
  by (cases t; cases u) (simp add: rates_only_def)

lemma rate_check_rates: "rates_only (w_tables s) (w_tables (snd (rate_check E key limit code what s)))"
proof -
  have "rates_only (w_tables s) (w_tables (snd (check_and_increment_rate E key limit s)))"
    using rate_op.tables_cases [of E key limit s]
    by (auto simp: rates_only_def bump_bucket_def Let_def)
  then show ?thesis by (auto simp: rate_check_def Let_def case_prod_unfold)
qed

lemma verify_bearer_rates: "rates_only (w_tables s) (w_tables (snd (verify_bearer E token s)))"
proof (cases "verify_subscription_token (e_web E) (e_getenv E) (now_secs s) token")
  case (Inl e)
  then show ?thesis by (auto simp: verify_bearer_def)
next
  case (Inr c)
  obtain rv s1 where r: "is_revoked E (cl_payer c) (cl_iat c) s = (rv, s1)" by force
  have "w_tables s1 = w_tables s"
    using revoked_op.tables_unchanged [of E "cl_payer c" "cl_iat c" s] r by simp
  then show ?thesis
    using Inr rate_check_rates [of s1 E] rate_check_rates [of s E]
    by (auto simp: verify_bearer_def r check_payer_rate_limit_def Let_def case_prod_unfold
        split: sum.split bool.split)
qed

text \<open>Whoever is let in, or turned away, has at most used up some of a rate limit.\<close>

lemma authenticate_rates:
  "rates_only (w_tables s) (w_tables (snd (authenticate_data_route E h ep res s)))"
proof -
  let ?g = "snd (check_global_rate_limit E h s)"
  have "rates_only (w_tables s) (w_tables ?g)"
    unfolding check_global_rate_limit_def by (rule rate_check_rates)
  then show ?thesis
    using rates_only_trans [OF _ verify_bearer_rates [of ?g E]]
    by (auto simp: authenticate_data_route_def Let_def case_prod_unfold split: sum.split option.split)
qed

lemma write_report: "report_only (w_tables s) (w_tables (write_cache_and_log E ep sj v sc b ver auth sg s))"
proof -
  have c: "report_only (w_tables s) (w_tables (snd (set_cached_score E ep sj sc b v ver 300 s)))"
    using set_op.tables_cases [of E ep sj sc b v ver 300 s]
    by (auto simp: report_only_def set_stmt_def insert_cached_def delete_cached_def)
  have l: "report_only (w_tables s) (w_tables (snd (log_scoring E row s)))" for row s
    using log_op.tables_cases [of E row s] by (auto simp: report_only_def insert_log_def)
  show ?thesis
    using report_only_trans [OF c l] by (auto simp: write_cache_and_log_def Let_def case_prod_unfold)
qed

lemma serve_report:
  "report_only (w_tables s) (w_tables (snd (serve_wallet E w auth s)))"
  "report_only (w_tables s) (w_tables (snd (serve_token E w auth s)))"
proof -
  have *: "report_only (w_tables s) (w_tables (write_cache_and_log E ep sj v sc b ver auth sg s2))"
    if "w_tables s2 = w_tables s" for ep sj v sc b ver sg s2
    using write_report [of s2] that by simp
  show "report_only (w_tables s) (w_tables (snd (serve_wallet E w auth s)))"
    by (auto simp: serve_wallet_def label_cache.refresh_tables Let_def case_prod_unfold split: sum.split intro!: *)
  show "report_only (w_tables s) (w_tables (snd (serve_token E w auth s)))"
    by (auto simp: serve_token_def Let_def case_prod_unfold split: sum.split intro!: *)
qed

lemma serve_tx_tables: "w_tables (snd (serve_tx E transaction owner auth s)) = w_tables s"
  by (auto simp: serve_tx_def Let_def case_prod_unfold split: sum.split)

lemma serve_cached_report:
  assumes "\<And>s. report_only (w_tables s) (w_tables (snd (miss s)))"
  shows "report_only (w_tables s) (w_tables (snd (serve_cached_or E ep sj auth miss s)))"
  using assms [of "snd (maybe_cached E ep sj s)"]
  by (auto simp: serve_cached_or_def Let_def case_prod_unfold maybe_cached_tables split: option.split)

section \<open>The routes\<close>

context paid_handler
begin

text \<open>A paid handler writes what its work writes, and the rate counters.\<close>

lemma footprint:
  assumes "\<And>auth s. R (w_tables s) (w_tables (snd (work auth s)))"
    and "\<And>t u. rates_only t u \<Longrightarrow> R t u" "\<And>t u v. R t u \<Longrightarrow> R u v \<Longrightarrow> R t v"
  shows "R (w_tables s) (w_tables (snd (handler s)))"
proof (cases rule: handler_cases [of s])
  case rejected
  then show ?thesis using assms(2) by simp
next
  case (denied e s1)
  then show ?thesis using assms(2) [OF authenticate_rates [of s E h endpoint resource]] by simp
next
  case (served auth s1)
  have "rates_only (w_tables s) (w_tables s1)"
    using authenticate_rates [of s E h endpoint resource] served(1) by simp
  then show ?thesis using assms(3) [OF assms(2) assms(1) [of s1 auth]] served(2) by simp
qed

end

lemma data_routes_footprint:
  "report_only (w_tables s) (w_tables (snd (handle_wallet_risk E h q s)))"
  "report_only (w_tables s) (w_tables (snd (handle_token_risk E h q s)))"
  "rates_only (w_tables s) (w_tables (snd (handle_tx_risk E h q s)))"
proof -
  show "report_only (w_tables s) (w_tables (snd (handle_wallet_risk E h q s)))"
    by (rule wallet_route.footprint; (intro serve_cached_report serve_report)?)
      (blast intro: rates_report report_only_trans)+
  show "report_only (w_tables s) (w_tables (snd (handle_token_risk E h q s)))"
    by (rule token_route.footprint; (intro serve_cached_report serve_report)?)
      (blast intro: rates_report report_only_trans)+
  show "rates_only (w_tables s) (w_tables (snd (handle_tx_risk E h q s)))"
    by (rule tx_route.footprint) (auto simp: serve_tx_tables intro: rates_only_trans)
qed

lemma info_routes_footprint:
  "w_tables (snd (handle_health E s)) = w_tables s"
  "w_tables (snd (handle_subscribe_info E s)) = w_tables s"
  using health_cache.refresh_tables [of E s] label_cache.refresh_tables [of E s]
  by (simp_all add: handle_health_def handle_subscribe_info_def Let_def case_prod_unfold)

text \<open>A row of the subscription table as the code writes it: a tier with its duration, not revoked.\<close>

definition sub_row_ok :: "sub_row \<Rightarrow> bool" where
  "sub_row_ok r \<longleftrightarrow>
     (case tier_duration_secs (sb_tier r) of
        None \<Rightarrow> False
      | Some d \<Rightarrow> sb_expires_at r = sb_issued_at r + d * 1000000) \<and> \<not> sb_revoked r"

lemma issue_subscription_footprint:
  "w_tables (snd (issue_subscription E tier st s)) = w_tables s
   \<or> (\<exists>row. sub_row_ok row \<and> sb_tier row = tier
        \<and> w_tables (snd (issue_subscription E tier st s)) = (w_tables s)\<lparr>t_subs := t_subs (w_tables s) @ [row]\<rparr>)"
proof (cases "sign_subscription_token (e_web E) (e_getenv E)
    (unwrap_or (Option.bind st payer_of_proof) ''unknown'') tier (int (s_now s))")
  case (Inl e)
  then show ?thesis by (simp add: issue_subscription_def Let_def)
next
  case (Inr p)
  let ?payer = "unwrap_or (Option.bind st payer_of_proof) ''unknown''"
  obtain tok x where p: "p = (tok, x)" by force
  from Inr obtain d where d: "tier_duration_secs tier = Some d" "x = int (s_now s) + d * 1000000000"
    by (auto simp: sign_subscription_token_def p ns_per_sec_def split: option.splits sum.splits)
  have x: "x div 1000 = int (s_now s) div 1000 + d * 1000000"
    using div_mult_self2 [of 1000 "int (s_now s)" "d * 1000000"] by (simp add: d(2))
  let ?row = "\<lparr>sb_payer = ?payer, sb_tier = tier, sb_issued_at = int (s_now s) div 1000, sb_expires_at = x div 1000,
    sb_tx_sig = Option.bind st (\<lambda>p. get_str (sp_response p) ''transaction''), sb_revoked = False\<rparr>"
  have ok: "sub_row_ok ?row" "sb_tier ?row = tier" by (simp_all add: sub_row_ok_def d(1) x)
  have "w_tables (snd (issue_subscription E tier st s)) = w_tables s
      \<or> w_tables (snd (issue_subscription E tier st s)) = (w_tables s)\<lparr>t_subs := t_subs (w_tables s) @ [?row]\<rparr>"
    using sub_op.tables_cases [of E ?payer tier "int (s_now s)" x
        "Option.bind st (\<lambda>p. get_str (sp_response p) ''transaction'')" s] Inr
    by (auto simp: issue_subscription_def insert_sub_def Let_def p)
  with ok show ?thesis by blast
qed

text \<open>A purchase adds at most one subscription, and only behind an accepted payment.\<close>

lemma subscribe_footprint:
  "w_tables (snd (handle_subscribe E h q s)) = w_tables s
   \<or> (\<exists>row. w_tables (snd (handle_subscribe E h q s)) = (w_tables s)\<lparr>t_subs := t_subs (w_tables s) @ [row]\<rparr>
        \<and> sub_row_ok row \<and> Some (sb_tier row) = extract_tier_from_query q \<and> is_valid_tier (sb_tier row)
        \<and> (\<exists>settlement s1. check_payment E (subscribe_endpoint_key (sb_tier row)) h
              (resource_for E h (subscribe_endpoint_key (sb_tier row)) ''/api/v1/subscribe'' q) s
                = (Inr settlement, s1)))"
proof (cases "opt_filter is_valid_tier (extract_tier_from_query q)")
  case None
  then show ?thesis by (simp add: handle_subscribe_def)
next
  case (Some tier)
  then have tier: "extract_tier_from_query q = Some tier" "is_valid_tier tier"
    by (simp_all add: opt_filter_Some_iff)
  let ?ep = "subscribe_endpoint_key tier"
  obtain r s1 where r: "check_payment E ?ep h (resource_for E h ?ep ''/api/v1/subscribe'' q) s = (r, s1)" by force
  have t: "w_tables s1 = w_tables s"
    using check_payment_tables [of E ?ep h "resource_for E h ?ep ''/api/v1/subscribe'' q" s] r by simp
  show ?thesis
  proof (cases r)
    case (Inl e)
    then show ?thesis using Some r t by (cases e) (simp_all add: handle_subscribe_def Let_def)
  next
    case (Inr st)
    note issue_subscription_footprint [of E tier st s1]
    then show ?thesis using Some r t Inr tier by (auto simp: handle_subscribe_def Let_def)
  qed
qed

text \<open>So a run of \<open>n\<close> requests appends at most \<open>n\<close> such rows.\<close>

definition subs_grow :: "nat \<Rightarrow> tables \<Rightarrow> tables \<Rightarrow> bool" where
  "subs_grow n t u \<longleftrightarrow>
     prefix (t_subs t) (t_subs u)
     \<and> list_all sub_row_ok (drop (length (t_subs t)) (t_subs u))
     \<and> length (t_subs u) \<le> length (t_subs t) + n"

lemma subs_grow_same: "t_subs u = t_subs t \<Longrightarrow> subs_grow n t u"
  by (simp add: subs_grow_def)

lemma subs_grow_trans: "\<lbrakk>subs_grow n t u; subs_grow m u v\<rbrakk> \<Longrightarrow> subs_grow (n + m) t v"
  by (auto simp: subs_grow_def prefix_def)

lemma routes_subs: "subs_grow 1 (w_tables s) (w_tables (snd (routes E P h meth path q s)))"
proof -
  have r: "t_subs u = t_subs t" if "report_only t u" for t u
    using that by (cases t; cases u) (simp add: report_only_def)
  have "subs_grow 1 (w_tables s) (w_tables (snd (handle_subscribe E h q s)))"
    using subscribe_footprint [of E h q s] by (auto simp: subs_grow_def)
  moreover have "subs_grow 1 (w_tables s) (w_tables (snd (handle_wallet_risk E h q s)))"
    "subs_grow 1 (w_tables s) (w_tables (snd (handle_token_risk E h q s)))"
    by (rule subs_grow_same [OF r], rule data_routes_footprint)+
  moreover have "subs_grow 1 (w_tables s) (w_tables (snd (handle_tx_risk E h q s)))"
    using rates_onlyD [OF data_routes_footprint(3) [of s E h q]] by (intro subs_grow_same) simp
  moreover have "subs_grow 1 (w_tables s) (w_tables (snd (handle_health E s)))"
    "subs_grow 1 (w_tables s) (w_tables (snd (handle_subscribe_info E s)))" "subs_grow 1 (w_tables s) (w_tables s)"
    by (simp_all only: info_routes_footprint subs_grow_same)
  ultimately show ?thesis by (simp add: routes_def Let_def split: if_split)
qed

lemma service_run_subs: "service_run E P n s t \<Longrightarrow> subs_grow n (w_tables s) (w_tables t)"
proof (induction rule: service_run.induct)
  case (request n s t h meth path q resp u)
  then have "subs_grow 1 (w_tables t) (w_tables u)"
    using routes_subs [of t E P h meth path q] by simp
  with request.IH have "subs_grow (n + 1) (w_tables s) (w_tables u)" by (rule subs_grow_trans)
  then show ?case by simp
qed (simp_all add: subs_grow_def)

end
