(* ===== verification/Journeys.thy ===== *)
theory Journeys
  imports Books Db_Live
begin

text \<open>
  What a client sees over several requests, where components meet: when a data route answers
  (\<^verbatim>\<open>src/api/handlers.rs\<close> over authentication, cache and collectors), a wallet report that comes back
  from the score cache (with \<^verbatim>\<open>src/db.rs\<close>), and a subscription that was bought
  (\<^verbatim>\<open>src/api/subscribe.rs\<close>) and is accepted on the data routes (\<^verbatim>\<open>src/auth/dual.rs\<close>).
\<close>

section \<open>A repeated request\<close>

text \<open>A database call on a healthy wire reads the server's clock at its second step, before its last.\<close>

lemma set_cached_clock:
  fixes s :: "'a world_scheme"
  assumes "\<And>k. e_wire E k = WOk" "set_cached_score E ep sj sc b v ver ttl s = (r, t)"
  shows "\<exists>k. length (s_log s) \<le> k \<and> k < length (s_log t)
    \<and> w_tables t = snd (set_stmt ep sj sc b v ver ttl (e_pgnow E k) (w_tables s))"
proof -
  have h: "healthy E = E" using assms(1) by (rule healthy_id)
  have g: "\<not> isl r" "length (s_log t) = length (s_log s) + 7"
    using healthy_ran [of E _ "isl r" s t, unfolded h] set_cached_score_ran [OF assms(2)]
    by (force simp: tx_steps_def)+
  then show ?thesis
    using set_cached_score_cases [OF assms(2)] by (intro exI [of _ "Suc (length (s_log s))"]) auto
qed

lemma get_cached_clock:
  fixes s :: "'a world_scheme"
  assumes "\<And>k. e_wire E k = WOk" "get_cached_score E ep sj s = (r, t)"
  shows "\<exists>k. length (s_log s) \<le> k \<and> k < length (s_log t)
    \<and> r = Inr (fst (select_cached ep sj (e_pgnow E k) (w_tables s)))"
proof -
  have h: "healthy E = E" using assms(1) by (rule healthy_id)
  note g = assms(2) [unfolded get_cached_score_def]
  have l: "\<not> isl r" "length (s_log t) = length (s_log s) + 6"
    using healthy_ran [of E _ "isl r" s t, unfolded h] run_tx_ran [OF g]
    by (force simp: tx_steps_def)+
  then obtain x where "r = Inr x" by (cases r) simp_all
  then show ?thesis
    using run_tx_clock [of E _ _ s x t] g l(2)
    by (intro exI [of _ "Suc (length (s_log s))"]) (force dest: arg_cong [where f = fst])
qed

text \<open>The cache is written while the request runs, and a report is stored as it was answered.\<close>

lemma write_cache_stores:
  fixes s :: "'a world_scheme"
  assumes "e_has_db E" "\<And>k. e_wire E k = WOk"
  obtains k where "length (s_log s) \<le> k"
    "k < length (s_log (write_cache_and_log E ep sj v sc b ver auth sg s))"
    "t_cache (w_tables (write_cache_and_log E ep sj v sc b ver auth sg s))
      = t_cache (snd (set_stmt ep sj sc b v ver 300 (e_pgnow E k) (w_tables s)))"
proof -
  obtain r u where u: "set_cached_score E ep sj sc b v ver 300 s = (r, u)" by force
  obtain k where k: "length (s_log s) \<le> k" "k < length (s_log u)"
    "w_tables u = snd (set_stmt ep sj sc b v ver 300 (e_pgnow E k) (w_tables s))"
    using set_cached_clock [OF assms(2) u] by blast
  have l: "t_cache (w_tables (snd (log_scoring E row u))) = t_cache (w_tables u)"
    "length (s_log u) \<le> length (s_log (snd (log_scoring E row u)))" for row
    using log_op.tables_cases [of E row u] db_frame_log [OF log_op.op_frame [of u E row]]
    by (auto simp: insert_log_def)
  show ?thesis
    using k l assms(1) that [of k] order_less_le_trans [OF k(2) l(2)]
    by (simp add: u write_cache_and_log_def Let_def case_prod_unfold)
qed

lemma serve_wallet_stores:
  assumes "e_has_db E" "\<And>k. e_wire E k = WOk" "serve_wallet E w auth s = (r, t)" "rs_status r = 200"
  obtains v sc b ver k where "r = ok_with_payment (e_web E) v (settlement_from_auth auth)"
    "length (s_log s) \<le> k" "k < length (s_log t)"
    "t_cache (w_tables t) =
         t_cache (snd (set_stmt ENDPOINT_WALLET_RISK w sc b v ver 300 (e_pgnow E k) (w_tables s)))"
proof -
  let ?s1 = "refresh_labels_from_db E s"
  obtain c s2 where c: "collect_chain_signals E (deny_index ?s1) w ?s1 = (c, s2)" by force
  have tab: "w_tables s2 = w_tables s"
    using collect_tables(1) [of E "deny_index ?s1" w ?s1] label_cache.refresh_tables [of E s] c by simp
  have "svc_frame is_work s s2"
    using svc_frame_trans [OF svc_frame_mono [OF label_cache.refresh_frame [of s E] db_work]
        svc_frame_mono [OF collect_svc(1) [of ?s1 E "deny_index ?s1" w] rpc_work]] c by simp
  then have len: "length (s_log s) \<le> length (s_log s2)" by (auto simp: svc_frame_def)
  obtain sg where sg: "c = Inr sg"
    using assms(3,4) by (cases c) (auto simp: serve_wallet_def c Let_def error_response_with_settlement_def
        error_response_def json_response_def)
  then obtain v sc b ver sj where
    r: "r = ok_with_payment (e_web E) v (settlement_from_auth auth)" and
    t: "t = write_cache_and_log E ENDPOINT_WALLET_RISK w v sc b ver auth sj s2"
    using assms(3) by (auto simp: serve_wallet_def c Let_def)
  obtain k where "length (s_log s2) \<le> k" "k < length (s_log t)" "t_cache (w_tables t) =
       t_cache (snd (set_stmt ENDPOINT_WALLET_RISK w sc b v ver 300 (e_pgnow E k) (w_tables s2)))"
    using write_cache_stores [OF assms(1,2)] unfolding t by blast
  with r len tab show ?thesis using that by (metis order_trans t)
qed

text \<open>The stored reports of a wallet: all that a read for the wallet depends on.\<close>

definition wallet_rows :: "string \<Rightarrow> tables \<Rightarrow> cache_row list" where
  "wallet_rows w t = filter (cache_key ENDPOINT_WALLET_RISK w) (t_cache t)"

lemma select_wallet_rows:
  assumes "wallet_rows w t = wallet_rows w u"
  shows "fst (select_cached ENDPOINT_WALLET_RISK w now t) = fst (select_cached ENDPOINT_WALLET_RISK w now u)"
proof -
  have "find (\<lambda>r. cache_key ENDPOINT_WALLET_RISK w r \<and> now < ca_expires_at r) (t_cache x) =
      find (\<lambda>r. cache_key ENDPOINT_WALLET_RISK w r \<and> now < ca_expires_at r) (wallet_rows w x)" for x
    unfolding wallet_rows_def by (rule find_filter_other [symmetric]) simp
  then show ?thesis using assms by (simp add: select_cached_def)
qed

lemma rates_only_rows: "rates_only t u \<Longrightarrow> wallet_rows w u = wallet_rows w t"
  by (simp add: wallet_rows_def rates_onlyD)

lemma write_cache_rows:
  fixes s :: "'a world_scheme"
  assumes "(ep, sj) \<noteq> (ENDPOINT_WALLET_RISK, w)"
  shows "wallet_rows w (w_tables (write_cache_and_log E ep sj v sc b ver auth sg s)) = wallet_rows w (w_tables s)"
proof -
  have "wallet_rows w (snd (set_stmt ep sj sc b v ver 300 now t)) = wallet_rows w t" for now t
  proof -
    have "filter (cache_key ENDPOINT_WALLET_RISK w) (filter (\<lambda>r. \<not> cache_key ep sj r) (t_cache t))
        = wallet_rows w t"
      unfolding wallet_rows_def filter_filter using assms by (intro filter_cong) (auto simp: cache_key_def)
    then show ?thesis
      using assms by (auto simp: wallet_rows_def set_stmt_def insert_cached_def delete_cached_def cache_key_def)
  qed
  then have c: "wallet_rows w (w_tables (snd (set_cached_score E ep sj sc b v ver 300 s))) = wallet_rows w (w_tables s)"
    using set_op.tables_cases [of E ep sj sc b v ver 300 s] by auto
  have l: "wallet_rows w (w_tables (snd (log_scoring E row u))) = wallet_rows w (w_tables u)"
    for row and u :: "'a world_scheme"
    using log_op.tables_cases [of E row u] by (auto simp: wallet_rows_def insert_log_def)
  show ?thesis using c l by (auto simp: write_cache_and_log_def Let_def case_prod_unfold)
qed

lemma serve_rows:
  "w' \<noteq> w \<Longrightarrow> wallet_rows w (w_tables (snd (serve_wallet E w' auth s))) = wallet_rows w (w_tables s)"
  "wallet_rows w (w_tables (snd (serve_token E m auth s))) = wallet_rows w (w_tables s)"
proof -
  assume "w' \<noteq> w"
  then have *: "wallet_rows w (w_tables (write_cache_and_log E ENDPOINT_WALLET_RISK w' v sc b ver auth sg s2))
      = wallet_rows w (w_tables s2)" for v sc b ver sg s2
    by (intro write_cache_rows) simp
  show "wallet_rows w (w_tables (snd (serve_wallet E w' auth s))) = wallet_rows w (w_tables s)"
    by (auto simp: serve_wallet_def label_cache.refresh_tables Let_def case_prod_unfold * split: sum.split)
next
  have *: "wallet_rows w (w_tables (write_cache_and_log E ENDPOINT_TOKEN_RISK m v sc b ver auth sg s2))
      = wallet_rows w (w_tables s2)" for v sc b ver sg s2
    by (intro write_cache_rows) (simp add: ENDPOINT_TOKEN_RISK_def ENDPOINT_WALLET_RISK_def)
  show "wallet_rows w (w_tables (snd (serve_token E m auth s))) = wallet_rows w (w_tables s)"
    by (auto simp: serve_token_def Let_def case_prod_unfold * split: sum.split)
qed

lemma serve_cached_rows:
  assumes "\<And>s. wallet_rows w (w_tables (snd (miss s))) = wallet_rows w (w_tables s)"
  shows "wallet_rows w (w_tables (snd (serve_cached_or E ep sj auth miss s))) = wallet_rows w (w_tables s)"
  using assms [of "snd (maybe_cached E ep sj s)"]
  by (auto simp: serve_cached_or_def Let_def case_prod_unfold maybe_cached_tables split: option.split)

text \<open>Only a request for the wallet's own report touches them.\<close>

definition asks_for :: "string \<Rightarrow> string \<Rightarrow> string \<Rightarrow> bool" where
  "asks_for w path query \<longleftrightarrow> path = ''/api/v1/wallet-risk'' \<and> extract_query_param query ''wallet'' = w"

lemma routes_rows:
  assumes "\<not> asks_for w path q"
  shows "wallet_rows w (w_tables (snd (routes E P h meth path q s))) = wallet_rows w (w_tables s)"
proof -
  let ?R = "\<lambda>t u. wallet_rows w u = wallet_rows w t"
  have "?R (w_tables s) (w_tables (snd (handle_wallet_risk E h q s)))"
    if "extract_query_param q ''wallet'' \<noteq> w"
    by (rule wallet_route.footprint [where R = ?R]) (use that in \<open>simp_all add: serve_cached_rows serve_rows rates_only_rows\<close>)
  moreover have "?R (w_tables s) (w_tables (snd (handle_token_risk E h q s)))"
    by (rule token_route.footprint [where R = ?R]) (simp_all add: serve_cached_rows serve_rows rates_only_rows)
  moreover have "?R (w_tables s) (w_tables (snd (handle_tx_risk E h q s)))"
    by (rule rates_only_rows [OF data_routes_footprint(3)])
  moreover have "?R (w_tables s) (w_tables (snd (handle_subscribe E h q s)))"
    using subscribe_footprint [of E h q s] by (auto simp: wallet_rows_def)
  ultimately show ?thesis
    using assms by (auto simp: routes_def Let_def asks_for_def info_routes_footprint)
qed

text \<open>A stretch of the service's run in which nobody asks for the report of \<open>w\<close>: other requests, idle time
  and edits by the operator.\<close>

inductive quiet_run :: "'e svc_env_scheme \<Rightarrow> pages \<Rightarrow> string \<Rightarrow> world \<Rightarrow> world \<Rightarrow> bool" for E P w where
  start: "quiet_run E P w s s"
| request: "\<lbrakk>quiet_run E P w s t; routes E P h meth path query t = (resp, u); \<not> asks_for w path query\<rbrakk>
    \<Longrightarrow> quiet_run E P w s u"
| idle: "quiet_run E P w s t \<Longrightarrow> quiet_run E P w s (t\<lparr>s_now := s_now t + d\<rparr>)"
| operator: "quiet_run E P w s t
    \<Longrightarrow> quiet_run E P w s (t\<lparr>w_tables := (w_tables t)\<lparr>t_params := ps, t_labels := ls\<rparr>\<rparr>)"

lemma quiet_run_rows: "quiet_run E P w s t \<Longrightarrow> wallet_rows w (w_tables t) = wallet_rows w (w_tables s)"
proof (induction rule: quiet_run.induct)
  case (request s t h meth path query resp u)
  then show ?case using routes_rows [of w path query E P h meth t] by simp
qed (simp_all add: wallet_rows_def)

lemma wallet_cache_hit:
  assumes "e_has_db E" "get_cached_score E ENDPOINT_WALLET_RISK w u = (Inr (Some (v, stored)), u')"
  shows "serve_cached_or E ENDPOINT_WALLET_RISK w auth miss u =
    (ok_with_payment (e_web E) (enrich_cached (e_web E) v stored) (settlement_from_auth auth), u')"
  using assms by (simp add: serve_cached_or_def maybe_cached_def)

text \<open>The server's clock readings during two requests (the log from \<open>s\<close> to \<open>t\<close> and from \<open>u\<close> to \<open>v\<close>) lie less
  than five minutes apart.\<close>

definition within_five_minutes :: "'e svc_env_scheme \<Rightarrow> 'a sys_scheme \<Rightarrow> 'a sys_scheme \<Rightarrow> 'a sys_scheme \<Rightarrow> 'a sys_scheme \<Rightarrow> bool" where
  "within_five_minutes E s t u v \<longleftrightarrow>
     (\<forall>i \<in> {length (s_log s)..<length (s_log t)}. \<forall>j \<in> {length (s_log u)..<length (s_log v)}.
        e_pgnow E j < e_pgnow E i + 300 * 1000000)"

text \<open>A second request within the five minutes gets the stored report, and makes no RPC call.\<close>

lemma repeated_wallet_report:
  fixes s t u :: world
  assumes db: "e_has_db E" "\<And>k. e_wire E k = WOk"
    and first: "serve_wallet E w auth s = (r, t)" "rs_status r = 200"
    and quiet: "quiet_run E P w t u"
    and second: "authenticate_data_route E h ENDPOINT_WALLET_RISK
        (resource_for E h ENDPOINT_WALLET_RISK ''/api/v1/wallet-risk'' q) u = (Inr auth', u1)"
      "extract_query_param q ''wallet'' = w" "\<not> bad_subject w"
    and clock: "within_five_minutes E s t u (snd (handle_wallet_risk E h q u))"
  shows "\<exists>v stored u2. r = ok_with_payment (e_web E) v (settlement_from_auth auth)
    \<and> handle_wallet_risk E h q u =
        (ok_with_payment (e_web E) (enrich_cached (e_web E) v stored) (settlement_from_auth auth'), u2)
    \<and> svc_frame is_pay u u2"
proof -
  obtain v sc b ver k where
    r: "r = ok_with_payment (e_web E) v (settlement_from_auth auth)" and
    k: "length (s_log s) \<le> k" "k < length (s_log t)" and
    t: "t_cache (w_tables t) =
         t_cache (snd (set_stmt ENDPOINT_WALLET_RISK w sc b v ver 300 (e_pgnow E k) (w_tables s)))"
    by (rule serve_wallet_stores [OF db first])
  have u1: "rates_only (w_tables u) (w_tables u1)" "svc_frame is_pay u u1"
    using authenticate_rates [of u E h ENDPOINT_WALLET_RISK] authenticate_frame [of u E h ENDPOINT_WALLET_RISK]
      second(1) by (metis snd_conv)+
  have rows: "wallet_rows w (w_tables u1) =
      wallet_rows w (snd (set_stmt ENDPOINT_WALLET_RISK w sc b v ver 300 (e_pgnow E k) (w_tables s)))"
    using rates_only_rows [OF u1(1)] quiet_run_rows [OF quiet] t by (simp add: wallet_rows_def)
  obtain x u2 where get: "get_cached_score E ENDPOINT_WALLET_RISK w u1 = (x, u2)" by force
  obtain j where j: "length (s_log u1) \<le> j" "j < length (s_log u2)"
    "x = Inr (fst (select_cached ENDPOINT_WALLET_RISK w (e_pgnow E j) (w_tables u1)))"
    using get_cached_clock [OF db(2) get] by blast
  have hit: "x = Inr (if e_pgnow E j < e_pgnow E k + 300 * 1000000 then Some (v, e_pgnow E k) else None)"
    using j(3) select_wallet_rows [OF rows] by (simp add: cached_after_set clamp_def)
  have run: "handle_wallet_risk E h q u = serve_cached_or E ENDPOINT_WALLET_RISK w auth'
      (serve_wallet E w auth') u1"
    using second by (simp add: handle_wallet_risk_def Let_def)
  have "length (s_log u2) \<le> length (s_log (snd (handle_wallet_risk E h q u)))"
    using serve_wallet_frame [of u2 E w auth'] get
    unfolding run by (auto simp: serve_cached_or_def maybe_cached_def db(1) svc_frame_def Let_def hit)
  moreover have "length (s_log u) \<le> length (s_log u1)" using u1(2) by (auto simp: svc_frame_def)
  ultimately have "e_pgnow E j < e_pgnow E k + 300 * 1000000"
    using clock k j(1,2) by (simp add: within_five_minutes_def)
  then have hit: "get_cached_score E ENDPOINT_WALLET_RISK w u1 = (Inr (Some (v, e_pgnow E k)), u2)"
    using get hit by simp
  have "svc_frame is_pay u u2"
    using svc_frame_trans [OF u1(2) svc_frame_mono [OF db_svc(5) is_db_pay]] get by (metis snd_conv)
  with r wallet_cache_hit [OF db(1) hit] show ?thesis unfolding run by blast
qed

section \<open>When a data route answers\<close>

text \<open>Whatever the RPC node and the database do, an authorized request for a well-formed subject is
  answered with a report: outages degrade the report, they do not withhold it.\<close>

lemma serve_cached_status:
  "rs_status (fst (serve_cached_or E ep sj auth miss s)) =
     (if fst (maybe_cached E ep sj s) = None then rs_status (fst (miss (snd (maybe_cached E ep sj s)))) else 200)"
  by (auto simp: serve_cached_or_def Let_def case_prod_unfold split: option.split)

lemma serve_wallet_status:
  "rs_status (fst (serve_wallet E w auth s)) = 200 \<longleftrightarrow> \<not> isl (pk_parse (e_lib E) w)"
proof -
  have "rs_status (fst (serve_wallet E w auth s)) = 200 \<longleftrightarrow>
      \<not> isl (fst (collect_chain_signals E (deny_index (refresh_labels_from_db E s)) w (refresh_labels_from_db E s)))"
    by (auto simp: serve_wallet_def Let_def case_prod_unfold error_response_with_settlement_def
        error_response_def json_response_def split: sum.split)
  then show ?thesis using collect_fails_iff unfolding isl_def by blast
qed

lemma serve_token_status:
  "rs_status (fst (serve_token E m auth s)) = 200 \<longleftrightarrow> \<not> isl (pk_parse (e_lib E) m)"
proof -
  have "rs_status (fst (serve_token E m auth s)) = 200 \<longleftrightarrow> \<not> isl (fst (collect_token_signals E m s))"
    by (auto simp: serve_token_def Let_def case_prod_unfold error_response_with_settlement_def
        error_response_def json_response_def split: sum.split)
  then show ?thesis using collect_token_fails_iff unfolding isl_def by blast
qed

lemma serve_tx_status:
  "rs_status (fst (serve_tx E x owner auth s)) = 200 \<longleftrightarrow> \<not> isl (decode_tx (e_lib E) x)"
  by (auto simp: serve_tx_def Let_def case_prod_unfold error_response_with_settlement_def
      error_response_def json_response_def split: sum.split)

lemma error_not_200 [simp]: "rs_status (handle_auth_error W e) \<noteq> 200"
  using handle_auth_error_status [of W e] by auto

lemma wallet_answered_iff:
  "rs_status (fst (handle_wallet_risk E h q s)) = 200 \<longleftrightarrow>
     (let w = extract_query_param q ''wallet''
      in \<not> bad_subject w
       \<and> (case authenticate_data_route E h ENDPOINT_WALLET_RISK
             (resource_for E h ENDPOINT_WALLET_RISK ''/api/v1/wallet-risk'' q) s of
            (Inl e, s1) \<Rightarrow> False
          | (Inr auth, s1) \<Rightarrow> \<not> (isl (pk_parse (e_lib E) w) \<and> fst (maybe_cached E ENDPOINT_WALLET_RISK w s1) = None)))"
  by (auto simp: handle_wallet_risk_def Let_def  serve_cached_status serve_wallet_status
      split: prod.split sum.split)

lemma token_answered_iff:
  "rs_status (fst (handle_token_risk E h q s)) = 200 \<longleftrightarrow>
     (let m = extract_query_param q ''mint''
      in \<not> bad_subject m
       \<and> (case authenticate_data_route E h ENDPOINT_TOKEN_RISK
             (resource_for E h ENDPOINT_TOKEN_RISK ''/api/v1/token-risk'' q) s of
            (Inl e, s1) \<Rightarrow> False
          | (Inr auth, s1) \<Rightarrow> \<not> (isl (pk_parse (e_lib E) m) \<and> fst (maybe_cached E ENDPOINT_TOKEN_RISK m s1) = None)))"
  by (auto simp: handle_token_risk_def Let_def  serve_cached_status serve_token_status
      split: prod.split sum.split)

lemma tx_answered_iff:
  "rs_status (fst (handle_tx_risk E h q s)) = 200 \<longleftrightarrow>
     (let x = extract_query_param q ''transaction''
      in x \<noteq> [] \<and> base64_ok (e_lib E) x \<and> \<not> isl (decode_tx (e_lib E) x)
       \<and> \<not> isl (fst (authenticate_data_route E h ENDPOINT_TX_RISK
             (resource_for E h ENDPOINT_TX_RISK ''/api/v1/tx-risk'' q) s)))"
  by (auto simp: handle_tx_risk_def Let_def serve_tx_status split: prod.split sum.split)

text \<open>Whoever was let in with a settlement finds its proof in the answer.\<close>

lemma wallet_proof:
  assumes "settlement_from_auth auth = Some p" "header_value (e_web E) p \<noteq> []"
    and "\<not> bad_subject (extract_query_param q ''wallet'')"
    and "fst (authenticate_data_route E h ENDPOINT_WALLET_RISK
       (resource_for E h ENDPOINT_WALLET_RISK ''/api/v1/wallet-risk'' q) s) = Inr auth"
  shows "response_header (fst (handle_wallet_risk E h q s)) ''PAYMENT-RESPONSE'' = Some (header_value (e_web E) p)"
proof -
  obtain s1 where a: "authenticate_data_route E h ENDPOINT_WALLET_RISK
       (resource_for E h ENDPOINT_WALLET_RISK ''/api/v1/wallet-risk'' q) s = (Inr auth, s1)"
    using assms(4) by (metis prod.collapse)
  show ?thesis
    by (rule wallet_route.proof_returned [OF a _ assms(1,2)]) (use a assms(3) in \<open>simp add: handle_wallet_risk_def Let_def\<close>)
qed

lemma token_proof:
  assumes "settlement_from_auth auth = Some p" "header_value (e_web E) p \<noteq> []"
    and "\<not> bad_subject (extract_query_param q ''mint'')"
    and "fst (authenticate_data_route E h ENDPOINT_TOKEN_RISK
       (resource_for E h ENDPOINT_TOKEN_RISK ''/api/v1/token-risk'' q) s) = Inr auth"
  shows "response_header (fst (handle_token_risk E h q s)) ''PAYMENT-RESPONSE'' = Some (header_value (e_web E) p)"
proof -
  obtain s1 where a: "authenticate_data_route E h ENDPOINT_TOKEN_RISK
       (resource_for E h ENDPOINT_TOKEN_RISK ''/api/v1/token-risk'' q) s = (Inr auth, s1)"
    using assms(4) by (metis prod.collapse)
  show ?thesis
    by (rule token_route.proof_returned [OF a _ assms(1,2)]) (use a assms(3) in \<open>simp add: handle_token_risk_def Let_def\<close>)
qed

lemma tx_proof:
  assumes "settlement_from_auth auth = Some p" "header_value (e_web E) p \<noteq> []"
    and "extract_query_param q ''transaction'' \<noteq> []" "base64_ok (e_lib E) (extract_query_param q ''transaction'')"
    and "fst (authenticate_data_route E h ENDPOINT_TX_RISK
       (resource_for E h ENDPOINT_TX_RISK ''/api/v1/tx-risk'' q) s) = Inr auth"
  shows "response_header (fst (handle_tx_risk E h q s)) ''PAYMENT-RESPONSE'' = Some (header_value (e_web E) p)"
proof -
  obtain s1 where a: "authenticate_data_route E h ENDPOINT_TX_RISK
       (resource_for E h ENDPOINT_TX_RISK ''/api/v1/tx-risk'' q) s = (Inr auth, s1)"
    using assms(5) by (metis prod.collapse)
  show ?thesis
    by (rule tx_route.proof_returned [OF a _ assms(1,2)]) (use a assms(3,4) in \<open>simp add: handle_tx_risk_def Let_def\<close>)
qed

section \<open>A bought subscription\<close>

text \<open>Without a database nothing but the token decides: whoever sends it within its lifetime is let in.\<close>

lemma bearer_no_db:
  assumes "\<not> e_has_db E" "extract_bearer h = Some tok"
  shows "fst (authenticate_data_route E h ep res u) = Inr a \<longleftrightarrow> fst (verify_bearer E tok u) = Inr a"
  using assms
  by (simp add: authenticate_data_route_def check_global_rate_limit_def rate_check_def)

text \<open>What a successful purchase answers.\<close>

lemma subscribe_granted:
  assumes "handle_subscribe E h q s = (r, t)" "rs_status r = 200"
  obtains tier settlement s1 tok x where "extract_tier_from_query q = Some tier" "is_valid_tier tier"
    "check_payment E (subscribe_endpoint_key tier) h
       (resource_for E h (subscribe_endpoint_key tier) ''/api/v1/subscribe'' q) s = (Inr settlement, s1)"
    "sign_subscription_token (e_web E) (e_getenv E)
       (unwrap_or (Option.bind settlement payer_of_proof) ''unknown'') tier (int (s_now s1)) = Inr (tok, x)"
    "r = ok_with_payment (e_web E) (subscribe_body (e_web E) tok tier x) settlement"
proof -
  obtain tier where tier: "opt_filter is_valid_tier (extract_tier_from_query q) = Some tier"
    using assms by (cases "opt_filter is_valid_tier (extract_tier_from_query q)")
      (auto simp: handle_subscribe_def error_response_def json_response_def)
  let ?ep = "subscribe_endpoint_key tier"
  obtain g s1 where g: "check_payment E ?ep h (resource_for E h ?ep ''/api/v1/subscribe'' q) s = (g, s1)" by force
  note d = assms(1) [unfolded handle_subscribe_def tier option.case Let_def g prod.case]
  obtain settlement where gr: "g = Inr settlement"
    using d assms(2) by (cases g) (auto simp: subscribe_402_response_def error_response_def json_response_def
        split: payment_gate_error.splits)
  note d2 = d [unfolded gr sum.case issue_subscription_def Let_def]
  obtain tok x where sg: "sign_subscription_token (e_web E) (e_getenv E)
       (unwrap_or (Option.bind settlement payer_of_proof) ''unknown'') tier (int (s_now s1)) = Inr (tok, x)"
    using d2 assms(2) by (auto simp: error_response_def json_response_def split: sum.splits)
  have "r = ok_with_payment (e_web E) (subscribe_body (e_web E) tok tier x) settlement"
    using d2 [unfolded sg sum.case prod.case] by simp
  with tier g gr sg that show ?thesis by (auto simp: opt_filter_Some_iff)
qed

text \<open>The whole journey: pay for a tier, take the token from the answer, send it as a bearer token.
  It is accepted as the payer's subscription on every data route until the tier's time is over.\<close>

lemma bought_subscription_accepted:
  fixes u :: "'a world_scheme" and s :: "'b world_scheme"
  assumes jwt: "jwt_scheme (e_web E) leeway" and db: "\<not> e_has_db E"
    and buy: "handle_subscribe E h q s = (r, t)" "rs_status r = 200"
  shows "\<exists>tier d settlement issued tok. tier_duration_secs tier = Some d
    \<and> extract_tier_from_query q = Some tier
    \<and> r = ok_with_payment (e_web E) (subscribe_body (e_web E) tok tier (issued + d * ns_per_sec)) settlement
    \<and> int (s_now s) \<le> issued
    \<and> (extract_bearer h' = Some tok \<longrightarrow>
        (fst (authenticate_data_route E h' ep res u) =
           Inr (let p = unwrap_or (Option.bind settlement payer_of_proof) ''unknown''
                in Subscription p tier (claims_for p tier issued d))
         \<longleftrightarrow> now_secs u \<le> timestamp issued + d))"
  using buy
proof (cases rule: subscribe_granted)
  case (1 tier settlement s1 tok x)
  let ?p = "unwrap_or (Option.bind settlement payer_of_proof) ''unknown''"
  obtain d c where c: "tier_duration_secs tier = Some d" "c = claims_for ?p tier (int (s_now s1)) d"
    "x = int (s_now s1) + d * ns_per_sec"
    "verify_subscription_token (e_web E) (e_getenv E) (now_secs u) tok = Inr c \<longleftrightarrow> now_secs u \<le> cl_exp c + leeway"
    using verify_signed [OF jwt 1(4)] by blast
  have f: "cl_exp c = timestamp (int (s_now s1)) + d" "cl_payer c = ?p" "cl_tier c = tier"
    using claims_lifetime [of ?p tier "int (s_now s1)" d] by (simp_all add: c(2) claims_for_def)
  have v: "fst (verify_bearer E tok u) = Inr (Subscription ?p tier c) \<longleftrightarrow>
      now_secs u \<le> timestamp (int (s_now s1)) + d"
    using c(4) f jwt_schemeD(2) [OF jwt] verify_bearer_no_db [OF db, of tok u c] by auto
  have "s_now s \<le> s_now s1"
    using check_payment_frame [of s E] 1(3) unfolding svc_frame_def by (metis snd_conv)
  moreover have "extract_bearer h' = Some tok \<longrightarrow>
      (fst (authenticate_data_route E h' ep res u) = Inr (Subscription ?p tier c)
       \<longleftrightarrow> now_secs u \<le> timestamp (int (s_now s1)) + d)"
    using bearer_no_db [OF db, of h' tok ep res u] v by simp
  ultimately show ?thesis
    using 1 c(1-3) by (intro exI [of _ tier] exI [of _ d] exI [of _ settlement] exI [of _ "int (s_now s1)"] exI [of _ tok])
      (simp add: Let_def)
qed

text \<open>After a payment that was settled, a purchase can still fail on the token; its answer is then a
  plain 503 that does not carry the settlement.\<close>

lemma purchase_without_secret:
  assumes "extract_tier_from_query q = Some tier" "is_valid_tier tier"
    and "check_payment E (subscribe_endpoint_key tier) h
       (resource_for E h (subscribe_endpoint_key tier) ''/api/v1/subscribe'' q) s = (Inr settlement, s1)"
    and "e_getenv E ''JWT_SECRET'' = None"
  shows "snd (handle_subscribe E h q s) = s1 \<and> rs_status (fst (handle_subscribe E h q s)) = 503
    \<and> response_header (fst (handle_subscribe E h q s)) ''PAYMENT-RESPONSE'' = None"
proof -
  have "\<exists>e. sign_subscription_token (e_web E) (e_getenv E) p tier i = Inl e" for p i
    using sign_ok_iff [of "e_web E" "e_getenv E" p tier i] assms(4)
    by (cases "sign_subscription_token (e_web E) (e_getenv E) p tier i") auto
  then obtain e where "sign_subscription_token (e_web E) (e_getenv E)
      (unwrap_or (Option.bind settlement payer_of_proof) ''unknown'') tier (int (s_now s1)) = Inl e" by blast
  then show ?thesis
    using assms(1-3) by (simp add: handle_subscribe_def opt_filter_def issue_subscription_def Let_def
        error_response_def json_response_def response_header_def)
qed

end
