(* ===== verification/Process.thy ===== *)
theory Process
  imports Service Db_Live
begin

text \<open>
  The process around the routes: the responses of \<^verbatim>\<open>src/error.rs\<close>, the application state of
  \<^verbatim>\<open>src/state.rs\<close> with the choice of a database in \<^verbatim>\<open>src/db.rs\<close>, and the adapter of
  \<^verbatim>\<open>src/route_handler.rs\<close> that hands the parts of a request to the routes.
\<close>

section \<open>Errors as responses\<close>

text \<open>\<open>date\<close> is the current time as the time library formats it, \<open>to_string\<close> the serializer of
  the result type. The headers are all legal, so building the response does not fail.\<close>

definition vercel_headers :: "string \<Rightarrow> headers" where
  "vercel_headers date =
     [(''Content-Type'', ''application/json''), (''Access-Control-Allow-Origin'', ''*''),
      (''Access-Control-Allow-Methods'', ''GET, POST, PUT, PATCH, DELETE, OPTIONS''),
      (''Access-Control-Allow-Headers'', ''Content-Type, Authorization, Date, X-Date''),
      (''X-Date'', date)]"

definition to_vercel_response :: "web \<Rightarrow> string \<Rightarrow> err \<Rightarrow> response" where
  "to_vercel_response W date e =
     \<lparr>rs_status = err_status e, rs_headers = vercel_headers date,
      rs_body = BText (j_show W (JObj [(''error'', JStr ''Error''), (''message'', JStr (err_message e))]))\<rparr>"

definition into_vercel_response ::
    "web \<Rightarrow> string \<Rightarrow> ('v \<Rightarrow> string option) \<Rightarrow> err + 'v \<Rightarrow> response" where
  "into_vercel_response W date to_string result =
     (case result of
        Inr v \<Rightarrow>
          \<lparr>rs_status = 200, rs_headers = vercel_headers date,
           rs_body = BText (case to_string v of
             Some t \<Rightarrow> t
           | None \<Rightarrow> j_show W (JObj [(''error'', JStr ''SerializationFailed''),
                                    (''message'', JStr ''Failed to serialize response'')]))\<rparr>
      | Inl e \<Rightarrow> to_vercel_response W date e)"

section \<open>The application state\<close>

text \<open>\<^verbatim>\<open>ParametersDb::connect\<close>: the configuration of the pool (times in seconds), handed to the pool and
  TLS libraries. \<open>make_tls\<close> builds the connector, with or without verification of the server.\<close>

record pool_config =
  pl_url :: string
  pl_recycling :: string
  pl_max_size :: nat
  pl_wait :: nat
  pl_create :: nat
  pl_recycle :: nat

definition WAIT :: nat where "WAIT = 15"
definition CREATE :: nat where "CREATE = 10"
definition RECYCLE :: nat where "RECYCLE = 30"

definition connect ::
    "(bool \<Rightarrow> string + 't) \<Rightarrow> (pool_config \<Rightarrow> 't \<Rightarrow> string + 'p) \<Rightarrow> string \<Rightarrow> err + 'p" where
  "connect make_tls create_pool database_url =
     (case make_tls False of
        Inl e \<Rightarrow> Inl (Internal e)
      | Inr tls \<Rightarrow>
          (case create_pool \<lparr>pl_url = database_url, pl_recycling = ''Clean'', pl_max_size = 5, pl_wait = WAIT,
                  pl_create = CREATE, pl_recycle = RECYCLE\<rparr> tls of
             Inl e \<Rightarrow> Inl (Internal (''db pool: '' @ e))
           | Inr pool \<Rightarrow> Inr pool))"

text \<open>\<^verbatim>\<open>ParametersDb::from_env_var\<close>, over \<open>connect\<close>.\<close>

definition from_env_var ::
    "(string \<Rightarrow> string option) \<Rightarrow> (bool \<Rightarrow> string + 't) \<Rightarrow> (pool_config \<Rightarrow> 't \<Rightarrow> string + 'p) \<Rightarrow> string \<Rightarrow> (err + 'p) option" where
  "from_env_var getenv make_tls create_pool var_name =
     (case getenv var_name of
        None \<Rightarrow> None
      | Some url \<Rightarrow> if url = [] then None else Some (connect make_tls create_pool url))"

record 'p app_state =
  as_config :: config
  as_rpc_url :: string
  as_db :: "'p option"
  as_facilitator :: string

definition app_state_new ::
    "(string \<Rightarrow> string option) \<Rightarrow> (bool \<Rightarrow> string + 't) \<Rightarrow> (pool_config \<Rightarrow> 't \<Rightarrow> string + 'p) \<Rightarrow> config \<Rightarrow> 'p app_state" where
  "app_state_new getenv make_tls create_pool cfg =
     \<lparr>as_config = cfg, as_rpc_url = solana_rpc_url cfg,
      as_db = (case from_env_var getenv make_tls create_pool ''DATABASE_URL'' of
                 None \<Rightarrow> None
               | Some (Inr d) \<Rightarrow> Some d
               | Some (Inl e) \<Rightarrow> None),
      as_facilitator = base_url cfg\<rparr>"

text \<open>The first lines of \<^verbatim>\<open>main\<close>: no configuration, no process.\<close>

definition start_process ::
    "(string \<Rightarrow> string option) \<Rightarrow> (bool \<Rightarrow> string + 't) \<Rightarrow> (pool_config \<Rightarrow> 't \<Rightarrow> string + 'p) \<Rightarrow> err + 'p app_state" where
  "start_process getenv make_tls create_pool =
     (case config_from_env getenv of Inl e \<Rightarrow> Inl e | Inr cfg \<Rightarrow> Inr (app_state_new getenv make_tls create_pool cfg))"

section \<open>Requests\<close>

record incoming =
  in_headers :: headers
  in_method :: string
  in_path :: string
  in_query :: "string option"

definition handle_incoming ::
    "'e svc_env_scheme \<Rightarrow> pages \<Rightarrow> incoming \<Rightarrow> 'a world_scheme \<Rightarrow> response \<times> 'a world_scheme" where
  "handle_incoming E P rq s =
     routes E P (in_headers rq) (in_method rq) (in_path rq) (unwrap_or (in_query rq) []) s"

fun serve_all ::
    "'e svc_env_scheme \<Rightarrow> pages \<Rightarrow> incoming list \<Rightarrow> 'a world_scheme \<Rightarrow> response list \<times> 'a world_scheme" where
  "serve_all E P [] s = ([], s)"
| "serve_all E P (rq # rqs) s =
     (let (r, s1) = handle_incoming E P rq s; (rs, s2) = serve_all E P rqs s1 in (r # rs, s2))"

section \<open>Facts\<close>

lemma into_vercel_status:
  "rs_status (into_vercel_response W date f r) = (case r of Inl e \<Rightarrow> err_status e | Inr v \<Rightarrow> 200)"
  by (simp add: into_vercel_response_def to_vercel_response_def split: sum.split)

lemma err_status_range: "err_status e \<in> {400, 401, 402, 404, 500}"
  by (cases e) simp_all

text \<open>The process starts exactly when the facilitator and the payee are configured; a database that
  is not configured, or cannot be reached, only means to go on without one.\<close>

lemma start_process_iff:
  "(\<exists>st. start_process getenv make_tls create_pool = Inr st) \<longleftrightarrow>
     getenv ''X402_FACILITATOR_URL'' \<noteq> None
     \<and> (getenv ''X402_PAY_TO'' \<noteq> None \<or> getenv ''X402_PAY_TO_WALLET'' \<noteq> None)"
  by (auto simp: start_process_def config_from_env_def or_else_def split: option.split)

lemma start_process_db:
  assumes "start_process getenv make_tls create_pool = Inr st"
  shows "as_db st = Some d \<longleftrightarrow>
    (\<exists>url. getenv ''DATABASE_URL'' = Some url \<and> url \<noteq> [] \<and> connect make_tls create_pool url = Inr d)"
  using assms by (auto simp: start_process_def app_state_new_def from_env_var_def split: sum.splits option.splits if_splits)

text \<open>Every wait inside the pool ends before the caller of \<open>conn\<close> gives up on it, and only a pool or TLS
  set-up that is refused keeps the process from having a database.\<close>

lemma pool_waits: "WAIT < POOL_GET_TIMEOUT" "CREATE < POOL_GET_TIMEOUT" "POOL_GET_TIMEOUT < RECYCLE"
  by (simp_all add: WAIT_def CREATE_def RECYCLE_def POOL_GET_TIMEOUT_def)

lemma connect_iff:
  "(\<exists>p. connect make_tls create_pool url = Inr p) \<longleftrightarrow>
     (\<exists>tls p. make_tls False = Inr tls
        \<and> create_pool \<lparr>pl_url = url, pl_recycling = ''Clean'', pl_max_size = 5, pl_wait = 15, pl_create = 10,
             pl_recycle = 30\<rparr> tls = Inr p)"
  by (auto simp: connect_def WAIT_def CREATE_def RECYCLE_def split: sum.split)

text \<open>Serving a list of requests is a run of the service, so it keeps what every run keeps.\<close>

lemma serve_all_run:
  "service_run E P n s0 s \<Longrightarrow> service_run E P (n + length rqs) s0 (snd (serve_all E P rqs s))"
proof (induction rqs arbitrary: n s)
  case (Cons rq rqs)
  obtain r s1 where r: "handle_incoming E P rq s = (r, s1)" by force
  have "service_run E P (Suc n) s0 s1"
    using Cons.prems r unfolding handle_incoming_def by (rule service_run.request)
  from Cons.IH [OF this] show ?case by (simp add: r case_prod_unfold Let_def)
qed simp

lemma serve_all_length: "length (fst (serve_all E P rqs s)) = length rqs"
  by (induction rqs arbitrary: s) (simp_all add: case_prod_unfold Let_def)

lemma serve_all_inv: "run_inv (length rqs) s (snd (serve_all E P rqs s))"
proof -
  have "service_run E P (0 + length rqs) s (snd (serve_all E P rqs s))"
    by (rule serve_all_run, rule service_run.start)
  from service_run_inv [OF this] show ?thesis by simp
qed

end
