(* ===== verification/Rate_Limits.thy ===== *)
theory Rate_Limits
  imports Process Books
begin

text \<open>
  The rate limit of \<^verbatim>\<open>auth/dual.rs\<close> and \<^verbatim>\<open>db.rs\<close> as its clients see it: over any sequence of
  requests within one minute, an address gets at most as many answers as its limit has room for.
\<close>

definition DATA_PATHS :: "string list" where
  "DATA_PATHS = [''/api/v1/wallet-risk'', ''/api/v1/token-risk'', ''/api/v1/tx-risk'']"

text \<open>An answer of a data route to the address \<open>ip\<close>.\<close>

definition answered_to :: "string \<Rightarrow> incoming \<Rightarrow> response \<Rightarrow> bool" where
  "answered_to ip rq r \<longleftrightarrow>
     client_ip (in_headers rq) = ip \<and> in_path rq \<in> set DATA_PATHS \<and> rs_status r = 200"

definition answers_to :: "string \<Rightarrow> incoming list \<Rightarrow> response list \<Rightarrow> nat" where
  "answers_to ip rqs rs = length (filter (\<lambda>(rq, r). answered_to ip rq r) (zip rqs rs))"

section \<open>One request\<close>

text \<open>Over a healthy database a check that lets a request through has counted it within the limit.\<close>

lemma rate_check_counts:
  assumes "e_has_db E" "\<And>k. e_wire E k = WOk" "\<And>k. minute_of (e_pgnow E k) = m"
    and "rate_check E key limit code what s = (Inr x, t)"
  shows "bucket_count key m (w_tables s) + 1 \<le> int limit
    \<and> bucket_count key m (w_tables t) = bucket_count key m (w_tables s) + 1"
proof -
  have h: "healthy E = E" using assms(2) by (rule healthy_id)
  obtain k where k: "fst (check_and_increment_rate E key limit s)
      = Inr (fst (map_prod (\<lambda>n. n \<le> int limit) id (bump_bucket key (e_pgnow E k) (w_tables s))))"
    "w_tables (snd (check_and_increment_rate E key limit s))
      = snd (map_prod (\<lambda>n. n \<le> int limit) id (bump_bucket key (e_pgnow E k) (w_tables s)))"
    by (rule rate_live.applied [where E = E and s = s, unfolded h])
  have "fst (check_and_increment_rate E key limit s) = Inr True" "t = snd (check_and_increment_rate E key limit s)"
    using assms(1,4) k(1) by (auto simp: rate_check_def Let_def split: prod.splits sum.splits bool.splits)
  with k show ?thesis
    using assms(3) [of k] bump_bucket_count(1) [of key "e_pgnow E k" "w_tables s"]
      bump_bucket_count(2) [of key m key "e_pgnow E k" "w_tables s"]
    by (simp add: map_prod_def case_prod_unfold)
qed

lemma svc_frame_rates: "svc_frame P s t \<Longrightarrow> rates_le (w_tables s) (w_tables t)"
  by (simp add: svc_frame_def tables_le_def)

definition ip_key :: "string \<Rightarrow> string" where
  "ip_key ip = ''ip:'' @ ip"

text \<open>\<open>counted E m ip s t\<close>: from \<open>s\<close> to \<open>t\<close> the address was counted, with room left in its limit.\<close>

definition counted :: "'e svc_env_scheme \<Rightarrow> int \<Rightarrow> string \<Rightarrow> 'a world_scheme \<Rightarrow> 'a world_scheme \<Rightarrow> bool" where
  "counted E m ip s t \<longleftrightarrow>
     bucket_count (ip_key ip) m (w_tables s) + 1 \<le> int (rate_limit_global_per_min (e_getenv E))
     \<and> bucket_count (ip_key ip) m (w_tables s) + 1 \<le> bucket_count (ip_key ip) m (w_tables t)"

lemma counted_later: "\<lbrakk>counted E m ip s t; rates_le (w_tables t) (w_tables u)\<rbrakk> \<Longrightarrow> counted E m ip s u"
  unfolding counted_def rates_le_def by (meson order_trans)

lemma authenticate_counts:
  assumes "e_has_db E" "\<And>k. e_wire E k = WOk" "\<And>k. minute_of (e_pgnow E k) = m"
    and "authenticate_data_route E h ep res s = (Inr auth, t)"
  shows "counted E m (client_ip h) s t"
proof -
  obtain lim s1 where l: "check_global_rate_limit E h s = (lim, s1)" by force
  note d = assms(4) [unfolded authenticate_data_route_def l Let_def prod.case]
  obtain x where x: "lim = Inr x" using d by (cases lim) auto
  have c: "counted E m (client_ip h) s s1"
    using rate_check_counts [OF assms(1-3) l [unfolded check_global_rate_limit_def x]]
    by (simp add: counted_def ip_key_def)
  have "rates_le (w_tables s1) (w_tables t)"
  proof (cases "extract_bearer h")
    case (Some token)
    then have "t = snd (verify_bearer E token s1)" using d x by simp
    then show ?thesis using verify_bearer_frame svc_frame_rates by blast
  next
    case None
    then have "t = snd (check_payment E ep h res s1)"
      using d x by (auto split: if_splits prod.splits sum.splits)
    then show ?thesis using svc_frame_rates [OF check_payment_frame] by simp
  qed
  with c show ?thesis by (rule counted_later)
qed

context paid_handler
begin

lemma answer_counts:
  assumes "e_has_db E" "\<And>k. e_wire E k = WOk" "\<And>k. minute_of (e_pgnow E k) = m"
    and "rs_status (fst (handler s)) = 200"
  shows "counted E m (client_ip h) s (snd (handler s))"
proof -
  from ok_authorized [OF assms(4)] obtain auth s1 where
    a: "authenticate_data_route E h endpoint resource s = (Inr auth, s1)" "handler s = work auth s1" by blast
  have "counted E m (client_ip h) s s1" by (rule authenticate_counts [OF assms(1-3) a(1)])
  then show ?thesis
    unfolding a(2) by (rule counted_later) (rule svc_frame_rates [OF work_frame])
qed

end

lemma routes_data:
  assumes "rs_status (fst (routes E P h meth path q s)) = 200" "path \<in> set DATA_PATHS"
  shows "routes E P h meth path q s \<in> {handle_wallet_risk E h q s, handle_token_risk E h q s, handle_tx_risk E h q s}"
proof -
  have "rs_status cors_options \<noteq> 200" "rs_status not_found \<noteq> 200"
    by (simp_all add: cors_options_def not_found_def)
  with assms show ?thesis by (auto simp: routes_def DATA_PATHS_def Let_def split: if_splits)
qed

lemma request_counts:
  assumes "e_has_db E" "\<And>k. e_wire E k = WOk" "\<And>k. minute_of (e_pgnow E k) = m"
    and "answered_to ip rq (fst (handle_incoming E P rq s))"
  shows "counted E m ip s (snd (handle_incoming E P rq s))"
proof -
  let ?h = "in_headers rq" and ?q = "unwrap_or (in_query rq) []"
  have a: "client_ip ?h = ip" "in_path rq \<in> set DATA_PATHS" "rs_status (fst (handle_incoming E P rq s)) = 200"
    using assms(4) by (simp_all add: answered_to_def)
  have "handle_incoming E P rq s \<in>
      {handle_wallet_risk E ?h ?q s, handle_token_risk E ?h ?q s, handle_tx_risk E ?h ?q s}"
    using a(2,3) unfolding handle_incoming_def by (rule routes_data [rotated])
  then show ?thesis
    using a(3) wallet_route.answer_counts [OF assms(1-3), where s = s and h = ?h and query = ?q]
      token_route.answer_counts [OF assms(1-3), where s = s and h = ?h and query = ?q]
      tx_route.answer_counts [OF assms(1-3), where s = s and h = ?h and query = ?q] a(1)
    by auto
qed

section \<open>A minute of requests\<close>

text \<open>Each answer uses up one of the limit, and nothing gives any of it back.\<close>

lemma answers_within_limit:
  assumes "e_has_db E" "\<And>k. e_wire E k = WOk" "\<And>k. minute_of (e_pgnow E k) = m"
  shows "int (answers_to ip rqs (fst (serve_all E P rqs s))) \<le>
    max 0 (int (rate_limit_global_per_min (e_getenv E)) - bucket_count (ip_key ip) m (w_tables s))"
proof (induction rqs arbitrary: s)
  case Nil
  then show ?case by (simp add: answers_to_def)
next
  case (Cons rq rqs)
  obtain r s1 where r: "handle_incoming E P rq s = (r, s1)" by force
  have le: "bucket_count (ip_key ip) m (w_tables s) \<le> bucket_count (ip_key ip) m (w_tables s1)"
    using svc_frame_rates [OF routes_frame] r unfolding handle_incoming_def rates_le_def by (metis snd_conv)
  have split: "answers_to ip (rq # rqs) (fst (serve_all E P (rq # rqs) s)) =
      (if answered_to ip rq r then 1 else 0) + answers_to ip rqs (fst (serve_all E P rqs s1))"
    by (simp add: answers_to_def r Let_def case_prod_unfold)
  show ?case
  proof (cases "answered_to ip rq r")
    case True
    then have "counted E m ip s s1" using request_counts [OF assms, where s = s and rq = rq and ip = ip and P = P] r by simp
    then show ?thesis using Cons.IH [of s1] True unfolding split counted_def by (auto simp: max_def split: if_splits)
  next
    case False
    then show ?thesis using Cons.IH [of s1] le unfolding split by simp
  qed
qed

end
