(* ===== verification/Samples.thy ===== *)
theory Samples
  imports Service Age_Bonus "HOL-Library.Code_Target_Nat"
begin

text \<open>
  One concrete environment, for the witnesses of the properties: a Solana library, a
  facilitator, token and JSON functions that are given by tables, and a database that
  answers. Nothing here models code under \<^verbatim>\<open>src/\<close>.
\<close>

section \<open>Third-party functions\<close>

text \<open>A key prints as 32 digits; all-zero is the System program.\<close>

definition sample_key :: "nat \<Rightarrow> pubkey" where
  "sample_key n = replicate 31 0 @ [of_nat n]"

definition key_text :: "pubkey \<Rightarrow> string" where
  "key_text pk = map (\<lambda>b. char_of (49 + unat b)) pk"

definition sample_tx :: vtx where
  "sample_tx = \<lparr>static_keys = [sample_key 1, replicate 32 0], lookups = None,
     instructions = [\<lparr>program_id_index = 1, ix_data = []\<rparr>]\<rparr>"

definition sample_lib :: lib where
  "sample_lib =
     \<lparr>pk_str = key_text,
      pk_parse = (\<lambda>t. if length t < 32 then Inl ''too short'' else Inr (map (\<lambda>c. of_nat (of_char c - 49)) t)),
      sig_parse = (\<lambda>t. if t = [] then None else Some (replicate 64 0)),
      b64_std = (\<lambda>t. if t = ''tx'' then Inr [1] else Inl ''not base64''),
      b64_url = (\<lambda>t. Inl ''not base64''),
      bincode_tx = (\<lambda>b. if b = [1] then Inr sample_tx else Inl ''not a transaction''),
      token_unpack = (\<lambda>b. None)\<rparr>"

definition sample_proof :: json where
  "sample_proof = JObj [(''x402Version'', JPos 2), (''paymentPayload'', JObj []), (''paymentRequirements'', JObj [])]"

definition sample_settled :: json where
  "sample_settled = JObj [(''success'', JBool True), (''payer'', JStr ''buyer''), (''transaction'', JStr ''sig'')]"

definition sample_claims :: claims where
  "sample_claims = \<lparr>cl_payer = ''buyer'', cl_tier = ''hourly'', cl_sub = ''solrisk'', cl_iat = 1000, cl_exp = 4600\<rparr>"

definition sample_spec :: accept_spec where
  "sample_spec = \<lparr>as_kind = ''usdc'', as_mint = None, as_amount_ui = ''1'', as_decimals = None\<rparr>"

definition sample_web :: web where
  "sample_web =
     \<lparr>j_parse = (\<lambda>t. if t = ''proof'' then Inr sample_proof
                    else if t = ''valid'' then Inr (JObj [(''isValid'', JBool True)])
                    else if t = ''settled'' then Inr sample_settled else Inl ''not JSON''),
      j_show = (\<lambda>v. ''json''), b64_encode = (\<lambda>t. t), b64_text = (\<lambda>t. None), utf8_ok = (\<lambda>t. True),
      rfc3339 = (\<lambda>t. ''time''), accepts_of_json = (\<lambda>t. if t = ''accepts'' then Inr [sample_spec] else Inl ''none''),
      supported_of_json = (\<lambda>t. Inr \<lparr>sup_kinds = [], sup_extensions = [], sup_signers = []\<rparr>),
      jwt_encode = (\<lambda>k c. if c = sample_claims then Inr (k @ ''/token'') else Inl ''refused''),
      jwt_decode = (\<lambda>k now t. if t = k @ ''/token'' \<and> now \<le> cl_exp sample_claims then Inr sample_claims
                             else Inl ''InvalidToken''),
      chrono_ts_ok = (\<lambda>t. True), label_of_json = (\<lambda>t. None), status_display = show_nat\<rparr>"

lemma sample_jwt: "jwt_scheme sample_web 0"
  by (auto simp: jwt_scheme_def sample_web_def)

text \<open>The real logarithm, cut after 60 binary digits.\<close>

fun cut_ln :: "fl \<Rightarrow> fl" where
  "cut_ln (Fin q) = Fin (of_int \<lfloor>ln (real_of_rat q) * 2 ^ 60\<rfloor> / 2 ^ 60)"
| "cut_ln x = FNan"

lemma cut_ln_accurate: "ln_accurate cut_ln"
proof -
  have cut: "\<bar>real_of_rat (of_int \<lfloor>y * 2 ^ 60\<rfloor> / 2 ^ 60) - y\<bar> \<le> 1 / 2 ^ 40" for y :: real
  proof -
    have "real_of_rat (of_int \<lfloor>y * 2 ^ 60\<rfloor> / 2 ^ 60) = real_of_int \<lfloor>y * 2 ^ 60\<rfloor> / 2 ^ 60"
      by (simp add: of_rat_divide)
    moreover have "real_of_int \<lfloor>y * 2 ^ 60\<rfloor> \<le> y * 2 ^ 60" "y * 2 ^ 60 < real_of_int \<lfloor>y * 2 ^ 60\<rfloor> + 1"
      by linarith+
    then have "real_of_int \<lfloor>y * 2 ^ 60\<rfloor> / 2 ^ 60 \<le> y" "y < real_of_int \<lfloor>y * 2 ^ 60\<rfloor> / 2 ^ 60 + 1 / 2 ^ 60"
      by (simp_all add: field_simps)
    moreover have "1 / 2 ^ 60 \<le> (1 / 2 ^ 40 :: real)" by simp
    ultimately show ?thesis unfolding abs_le_iff by linarith
  qed
  have val: "cut_ln (Fin (of_nat n)) = Fin (of_int \<lfloor>ln (real n) * 2 ^ 60\<rfloor> / 2 ^ 60)" for n
    by (simp only: cut_ln.simps of_rat_of_nat_eq)
  have "\<exists>q. cut_ln (Fin (of_nat n)) = Fin q \<and> \<bar>real_of_rat q - ln (real n)\<bar> \<le> 1 / 2 ^ 40" for n
    by (rule exI, rule conjI, rule val, rule cut)
  then show ?thesis unfolding ln_accurate_def by blast
qed

section \<open>The environment\<close>

definition sample_cfg :: config where
  "sample_cfg = \<lparr>solana_rpc_url = ''rpc'', x402_facilitator_url = ''fac'', x402_network = SOLANA_MAINNET,
     x402_pay_to = ''vault'', x402_merchant_wallet = None, x402_scheme = ''exact'',
     x402_timeout_sec = 300, x402_legacy_usdc_amount = None\<rparr>"

definition sample_getenv :: "string \<Rightarrow> string option" where
  "sample_getenv k = (if k = ''JWT_SECRET'' then Some ''k'' else if k = ''X402_PAY_TO'' then Some ''vault''
     else if k = ''X402_ACCEPTS_JSON'' then Some ''accepts'' else None)"

definition sample_http :: "nat \<Rightarrow> http_request \<Rightarrow> http_reply" where
  "sample_http k rq =
     HttpResp 200 (Inr (if ends_with (hq_url rq) ''verify'' then ''valid''
                        else if ends_with (hq_url rq) ''settle'' then ''settled'' else ''supported''))"

definition sample_env :: "bool \<Rightarrow> svc_env" where
  "sample_env has_db =
     \<lparr>e_lib = sample_lib, e_dur = (\<lambda>k. 0), e_rng = (\<lambda>n. 0), e_getenv = sample_getenv,
      e_balance = (\<lambda>k pk. Inr 5), e_token_accounts = (\<lambda>k pk. Inr []),
      e_sigs = (\<lambda>k pk b n. Inr []), e_tx = (\<lambda>k sig. Inl (Custom ''down'')),
      e_simulate = (\<lambda>k tx addrs. Inr \<lparr>sr_err = None, sr_accounts = None\<rparr>),
      e_supply = (\<lambda>k m. Inl (Custom ''down'')), e_account = (\<lambda>k m. Inl (Custom ''down'')),
      e_largest = (\<lambda>k m. Inl (Custom ''down'')),
      e_web = sample_web, e_cfg = sample_cfg, e_has_db = has_db, e_http = sample_http,
      e_wire = (\<lambda>k. WOk), e_applied = (\<lambda>k. True), e_pgnow = (\<lambda>k. 1000000 * int k),
      e_order_params = (\<lambda>rs. rs), e_order_labels = (\<lambda>rs. rs), e_ln = (\<lambda>x. Fin 0),
      e_denylist = [], e_allowlist = []\<rparr>"

definition sample_world :: "bool \<Rightarrow> world" where
  "sample_world has_db = cold_start (sample_env has_db) empty_tables 1000000000000"

definition paying_headers :: headers where
  "paying_headers = [(''payment-signature'', ''proof'')]"

text \<open>The amounts offered for an endpoint when neither the database nor the environment sets a price.\<close>

definition default_price :: "string \<Rightarrow> err + string list" where
  "default_price endpoint = map_sum id (map rl_amount)
     (legacy_usdc_line sample_lib SOLANA_MAINNET ''vault'' ''exact'' (default_legacy_usdc endpoint) 300)"

end
