(* ===== verification/Unit_Tests.thy ===== *)
theory Unit_Tests
  imports Samples
begin

text \<open>
  The repository's own unit tests, run on the model: the test modules of \<^verbatim>\<open>src/scoring.rs\<close>,
  \<^verbatim>\<open>src/scoring_tx.rs\<close>, \<^verbatim>\<open>src/rpc_retry.rs\<close>, \<^verbatim>\<open>src/signals/tx.rs\<close> and \<^verbatim>\<open>src/x402/facilitator.rs\<close>,
  under the names they have there. Tests of a third-party crate alone (key generation, program
  ids, base64) are left out. Every lemma is an evaluation of the definitions.
\<close>

section \<open>Wallet scoring\<close>

definition base_signals :: chain_signals where
  "base_signals =
     \<lparr>age_days = 200, tx_count_total = 100, tx_count_30d = 30, unique_counterparties_30d = Some 15,
      sol_balance_lamports = 500000000, spl_account_count = 5, has_activity_48h = True,
      program_diversity_30d = Some 8, is_fresh_funded = False,
      funding_source_risk = ''traced_clean'', funder = None, funder_labels = [],
      funding_chain = [], counterparty_labels = [], first_seen_ts = 1700000000,
      latest_tx_ts = 1715000000, counterparty_metrics_estimated = True, sig_pages_fetched = 3\<rparr>"

text \<open>The fixture's only age is 200 days, so its logarithm is a constant to four digits.\<close>

definition test_ln :: "fl \<Rightarrow> fl" where
  "test_ln x = (if x = Fin 200 then Fin (52983 / 10000) else FNan)"

definition deny_rows :: "label_entry list" where
  "deny_rows = [\<lparr>le_wallet = ''WSSoJFMBEKBbAMwRqnMfjt1urtsFGBTMqjsqbBpVMpC'', le_source = ''ofac'',
     le_label = ''sanctioned_mixer'', le_weight = 100, le_note = []\<rparr>]"

definition scored :: "string \<Rightarrow> chain_signals \<Rightarrow> risk_result" where
  "scored wallet sg = score_wallet test_ln (li_build deny_rows) (li_build []) wallet sg"

definition healthy :: string where
  "healthy = ''SomeHealthyWallet111111111111111111111111111''"

definition mixer_hit :: "string \<Rightarrow> tx_label_hit list" where
  "mixer_hit a = [\<lparr>lh_program = a, lh_source = ''test'', lh_label = ''mixer''\<rparr>]"

text \<open>The age credit of 200 days, and the facts that evaluate a score.\<close>

lemma test_age_bonus [simp]: "age_bonus test_ln 200 = 15"
  by code_simp

lemma show_two: "show_nat 2 = ''2''"
  by code_simp

lemma empty_confidence: "flt (compute_confidence default_chain_signals ''low'') (Fin (61 / 100))"
  by code_simp

lemma scored_version: "rr_scoring_version (scored w sg) = SCORING_VERSION"
  by (simp add: scored_def score_wallet_def Let_def case_prod_unfold)

lemmas wallet_eval = Let_def scored_def ws.score_raw ws.band_score wallet_tally_def signal_tally_def bump_def
  add_i32_def wrap_i32_def final_score_def clamp_def risk_band_def deny_step_def li.lookup_build
  deny_rows_def base_signals_def default_chain_signals_def healthy_def mixer_hit_def deep_labeled_hop_def
  hop_weight_def untraced_def active_counterparties_def compute_signal_quality_def case_prod_unfold
  wallet_recommendation_def recommendation_from_def has_deny_def to_match_def show_two starts_with_def

lemma healthy_wallet_scores_low:
  "rr_risk_score (scored healthy base_signals) \<le> 24 \<and> rr_risk_band (scored healthy base_signals) = ''LOW''
   \<and> rr_scoring_version (scored healthy base_signals) = SCORING_VERSION"
  unfolding scored_version by (simp add: wallet_eval)

lemma activity_bonus_skipped_when_counterparties_estimated:
  "let sg = base_signals\<lparr>is_fresh_funded := True, funding_source_risk := ''fresh_unknown''\<rparr>
   in rr_risk_score (scored healthy (sg\<lparr>counterparty_metrics_estimated := False\<rparr>))
        < rr_risk_score (scored healthy sg)"
  by (simp add: wallet_eval)

lemma funded_by_labeled_address_raises_score:
  "let r = scored healthy (base_signals\<lparr>funder := Some ''Mixer'', funder_labels := mixer_hit ''Mixer''\<rparr>)
   in rr_risk_score (scored healthy base_signals) < rr_risk_score r
      \<and> ''FUNDED_BY_LABELED'' \<in> set (rr_flags r)"
  by (simp add: wallet_eval)

lemma labeled_second_hop_funder_raises_score_less_than_direct:
  "let direct = scored healthy (base_signals\<lparr>funder_labels := mixer_hit ''Mix1'',
         funding_chain := [\<lparr>fh_address = ''Mix1'', fh_hop = 1, fh_labels = mixer_hit ''Mix1''\<rparr>]\<rparr>);
       second = scored healthy (base_signals\<lparr>funding_chain :=
         [\<lparr>fh_address = ''Clean1'', fh_hop = 1, fh_labels = []\<rparr>,
          \<lparr>fh_address = ''Mix2'', fh_hop = 2, fh_labels = mixer_hit ''Mix2''\<rparr>]\<rparr>)
   in rr_risk_score (scored healthy base_signals) < rr_risk_score second
      \<and> rr_risk_score second < rr_risk_score direct
      \<and> ''FUNDING_CHAIN_LABELED:hop2'' \<in> set (rr_flags second)
      \<and> ''FUNDED_BY_LABELED'' \<notin> set (rr_flags second)"
  by (simp add: wallet_eval)

lemma labeled_counterparty_raises_score:
  "let r = scored healthy (base_signals\<lparr>counterparty_labels := mixer_hit ''Drainer''\<rparr>)
   in rr_risk_score (scored healthy base_signals) < rr_risk_score r
      \<and> list_ex (\<lambda>f. starts_with f ''COUNTERPARTY_LABELED'') (rr_flags r)"
  by (simp add: wallet_eval)

lemma fresh_funded_wallet_scores_medium:
  "let r = scored ''FreshWallet1111111111111111111111111111111111''
     (base_signals\<lparr>is_fresh_funded := True, age_days := 0, tx_count_total := 2, tx_count_30d := 2,
        unique_counterparties_30d := Some 1\<rparr>)
   in 25 \<le> rr_risk_score r \<and> ''FRESH_FUNDED'' \<in> set (rr_flags r)"
  by (simp add: wallet_eval)

lemma sanctioned_wallet_scores_critical:
  "let r = scored ''WSSoJFMBEKBbAMwRqnMfjt1urtsFGBTMqjsqbBpVMpC'' base_signals
   in 75 \<le> rr_risk_score r \<and> rr_risk_band r = ''CRITICAL''"
  by (simp add: wallet_eval)

lemma sanctioned_wallet_recommendation_block:
  "let r = scored ''WSSoJFMBEKBbAMwRqnMfjt1urtsFGBTMqjsqbBpVMpC'' base_signals
   in has_deny r \<and> wallet_recommendation r = ''BLOCK''"
  by (simp add: wallet_eval)

lemma clean_wallet_recommendation_allow:
  "wallet_recommendation (scored healthy base_signals) = ''ALLOW''"
  by (simp add: wallet_eval)

lemma confidence_low_for_empty_wallet:
  "let r = scored ''EmptyWallet11111111111111111111111111111111111'' default_chain_signals
   in rr_signal_quality r = ''low'' \<and> flt (rr_confidence r) (Fin (61 / 100))"
proof -
  have q: "compute_signal_quality default_chain_signals = ''low''"
    by (simp add: compute_signal_quality_def default_chain_signals_def)
  show ?thesis by (simp only: Let_def scored_def score_wallet_simps q empty_confidence simp_thms)
qed

section \<open>Transaction scoring\<close>

definition clean_tx :: tx_signals where
  "clean_tx =
     \<lparr>fee_payer = Some ''Payer'', subject = Some ''Payer'', instruction_count = 2,
      programs = [SYSTEM_PROGRAM], uses_lookup_tables = False, simulated = False,
      simulation_error = None, net_sol_change_lamports = None, net_token_changes = [],
      deny_program_hits = [], authority_handoffs = [], delegations = 0, close_accounts = 0,
      unknown_programs = []\<rparr>"

lemmas tx_eval = Let_def clean_tx_def tx_recommendation_def has_block_def has_review_def tx_signal_quality_def
  outflow_via_unknown_def token_outflow_via_unknown_def OUTFLOW_LAMPORTS_THRESHOLD_def tx_flags [simplified]
  txs.score_raw txs.band_score tx_tally_def bump_def add_i32_def wrap_i32_def final_score_def clamp_def risk_band_def
  flag_if_def unwrap_or_def show_nat.simps digit_char_def starts_with_def contains_def

lemma clean_transfer_signs:
  "tr_recommendation (score_tx clean_tx) = ''SIGN'' \<and> tr_risk_band (score_tx clean_tx) = ''LOW''
   \<and> tr_signal_quality (score_tx clean_tx) = ''high''"
  by (simp add: tx_eval)

lemma authority_handoff_blocks:
  "let r = score_tx (clean_tx\<lparr>authority_handoffs := [''AccountOwner'']\<rparr>)
   in tr_recommendation r = ''BLOCK'' \<and> 50 \<le> tr_risk_score r
      \<and> list_ex (\<lambda>f. contains f ''AUTHORITY_HANDOFF'') (tr_flags r)"
  by (simp add: tx_eval)

lemma deny_program_blocks:
  "let r = score_tx (clean_tx\<lparr>deny_program_hits := [\<lparr>lh_program = ''BadProg'', lh_source = ''test'', lh_label = ''drainer''\<rparr>]\<rparr>)
   in tr_recommendation r = ''BLOCK'' \<and> list_ex (\<lambda>f. contains f ''DENY_PROGRAM'') (tr_flags r)"
  by (simp add: tx_eval)

lemma delegation_reviews:
  "tr_recommendation (score_tx (clean_tx\<lparr>delegations := 1\<rparr>)) = ''REVIEW''"
  by (simp add: tx_eval)

lemma lookup_tables_reduce_visibility_and_review:
  "let r = score_tx (clean_tx\<lparr>uses_lookup_tables := True\<rparr>)
   in tr_recommendation r = ''REVIEW'' \<and> tr_signal_quality r = ''medium''"
  by (simp add: tx_eval)

lemma unknown_program_reviews:
  "tr_recommendation (score_tx (clean_tx\<lparr>unknown_programs := [''Unknown'']\<rparr>)) = ''REVIEW''"
  by (simp add: tx_eval)

lemma would_fail_reviews:
  "let r = score_tx (clean_tx\<lparr>simulated := True, simulation_error := Some ''InstructionError(0, Custom(1))''\<rparr>)
   in tr_recommendation r = ''REVIEW'' \<and> ''WOULD_FAIL'' \<in> set (tr_flags r)"
  by (simp add: tx_eval)

lemma legit_outflow_alone_still_signs:
  "tr_recommendation (score_tx (clean_tx\<lparr>simulated := True, net_sol_change_lamports := Some (- 5000000000)\<rparr>)) = ''SIGN''"
  by (simp add: tx_eval)

lemma legit_token_send_alone_still_signs:
  "tr_recommendation (score_tx (clean_tx\<lparr>simulated := True,
     net_token_changes := [\<lparr>tc_mint = ''So1'', tc_delta_raw = - 1000000\<rparr>]\<rparr>)) = ''SIGN''"
  by (simp add: tx_eval)

lemma token_outflow_via_unknown_program_escalates:
  "let r = score_tx (clean_tx\<lparr>simulated := True, unknown_programs := [''Opaque''],
     net_token_changes := [\<lparr>tc_mint = ''So1'', tc_delta_raw = - 1000000\<rparr>]\<rparr>)
   in tr_recommendation r = ''REVIEW'' \<and> ''TOKEN_OUTFLOW_VIA_UNKNOWN_PROGRAM'' \<in> set (tr_flags r)"
  by (simp add: tx_eval)

lemma outflow_via_unknown_program_escalates:
  "let r = score_tx (clean_tx\<lparr>simulated := True, unknown_programs := [''Opaque''],
     net_sol_change_lamports := Some (- 2000000000)\<rparr>)
   in tr_recommendation r = ''REVIEW'' \<and> list_ex (\<lambda>f. starts_with f ''OUTFLOW_VIA_UNKNOWN_PROGRAM'') (tr_flags r)"
  by (simp add: tx_eval)

lemma token_deltas_skip_unmeasured_but_report_closed:
  "compute_token_deltas [(''acct1'', ''MintA'', 100), (''acct2'', ''MintB'', 50)] [None, None] = []
   \<and> compute_token_deltas [(''acct1'', ''MintA'', 100), (''acct2'', ''MintB'', 50)] [Some 0, Some 50]
       = [\<lparr>tc_mint = ''MintA'', tc_delta_raw = - 100\<rparr>]"
  by code_simp

lemma plain_transfer_has_no_findings:
  "let sg = analyze sample_lib (li_build deny_rows) sample_tx None
   in fee_payer sg = Some (key_text (sample_key 1)) \<and> deny_program_hits sg = [] \<and> authority_handoffs sg = []
      \<and> delegations sg = 0 \<and> unknown_programs sg = [] \<and> \<not> uses_lookup_tables sg"
  by code_simp

section \<open>Retries\<close>

definition invalid_params :: client_error where
  "invalid_params = RpcErr (RpcResponseError (- 32602) ''invalid params: malformed pubkey'' DataEmpty)"

lemma io_errors_are_retryable: "retryable_reason (Io ''reset'') = Some ''io''"
  by code_simp

lemma invalid_params_are_terminal: "retryable_reason invalid_params = None"
  by code_simp

lemma rate_limit_responses_are_retryable:
  "retryable_reason (RpcErr (RpcResponseError (- 32000) ''rate limit exceeded'' DataEmpty))
     = Some ''rpc-transient-response''"
  by code_simp

text \<open>An operation that answers from a list, one entry a call; calls are counted by the log.\<close>

definition scripted :: "(client_error + nat) list \<Rightarrow> sys \<Rightarrow> (client_error + nat) \<times> sys" where
  "scripted rs s = perform (\<lambda>k. 0) (ERpc ''test'') (\<lambda>k. rs ! calls (s_log s)) s"

definition retried :: "nat \<Rightarrow> (client_error + nat) list \<Rightarrow> (client_error + nat) \<times> nat" where
  "retried attempts rs =
     (let (r, t) = with_retry \<lparr>max_attempts = attempts, initial_backoff = ms, total_budget = 200 * ms\<rparr>
                     (\<lambda>k. k) (\<lambda>k. 0) (scripted rs) \<lparr>s_now = 0, s_log = []\<rparr>
      in (r, calls (s_log t)))"

lemma success_on_first_attempt_does_not_retry: "retried 3 [Inr 42] = (Inr 42, 1)"
  by code_simp

lemma retries_transient_then_succeeds: "retried 3 [Inl (Io ''reset''), Inl (Io ''reset''), Inr 7] = (Inr 7, 3)"
  by code_simp

lemma terminal_error_does_not_retry: "retried 5 [Inl invalid_params, Inr 7] = (Inl invalid_params, 1)"
  by code_simp

lemma exhausts_attempts_on_persistent_transient:
  "retried 3 (replicate 9 (Inl (Io ''reset''))) = (Inl (Io ''reset''), 3)"
  by code_simp

text \<open>Not a test of the repository: a JSON error is not retried once, as the module documentation has it,
  but until the attempts are used up.\<close>

lemma json_errors_use_all_attempts:
  "retried 3 (replicate 9 (Inl (SerdeJson ''eof''))) = (Inl (SerdeJson ''eof''), 3)"
  by code_simp

section \<open>Payment proofs\<close>

lemma parses_raw_json: "parse_payment_proof sample_web ''proof'' = Inr sample_proof"
  by code_simp

lemma parses_base64_json:
  "parse_payment_proof (sample_web\<lparr>b64_text := (\<lambda>t. if t = ''cHJvb2Y='' then Some ''proof'' else None)\<rparr>) ''cHJvb2Y=''
     = Inr sample_proof"
  by code_simp

lemma fails_on_invalid_json:
  "case parse_payment_proof sample_web ''{ invalid }'' of
     Inl e \<Rightarrow> contains (err_display e) ''payment header is not JSON'' | Inr _ \<Rightarrow> False"
  by code_simp

lemma detects_solana_duplicate_messages:
  "is_duplicate_settle_body ''This transaction has already been processed''
   \<and> is_duplicate_settle_body ''AlreadyProcessed'' \<and> \<not> is_duplicate_settle_body ''insufficient lamports''"
  by code_simp

section \<open>A price\<close>

text \<open>The built-in price of a wallet report: 0.25 USDC, in micro-USDC.\<close>

lemma wallet_report_price: "default_price ENDPOINT_WALLET_RISK = Inr [''250000'']"
  by code_simp

end
