(* ===== verification/Spec2Isabelle.thy ===== *)
theory Spec2Isabelle
  imports Scoring_Tx Token Age_Bonus Db_Live Retry_Spec Journeys Rate_Limits Samples Unit_Tests
begin

text \<open>
  Verification development of \<^verbatim>\<open>solrisk\<close>, a pay-per-call risk service for Solana wallets, token mints
  and transactions. Paths are relative to \<^verbatim>\<open>src/src/\<close> of the repository.

  \<^bold>\<open>The program.\<close> \<^verbatim>\<open>bin/risk_api.rs\<close> dispatches an HTTP request by method and path. A data route
  (\<^verbatim>\<open>api/handlers.rs\<close>) asks \<^verbatim>\<open>auth/dual.rs\<close> whether the caller has a subscription token
  (\<^verbatim>\<open>subscription.rs\<close>) or pays per call (\<^verbatim>\<open>x402/payment_handler.rs\<close>, which quotes, and has
  \<^verbatim>\<open>x402/facilitator.rs\<close> verify and settle); then it collects signals over Solana RPC
  (\<^verbatim>\<open>signals/\<close>, with the retry loop of \<^verbatim>\<open>rpc_retry.rs\<close>), scores them (\<^verbatim>\<open>scoring.rs\<close>,
  \<^verbatim>\<open>scoring_tx.rs\<close>, \<^verbatim>\<open>scoring_token.rs\<close>), and answers through \<^verbatim>\<open>api/common.rs\<close>. \<^verbatim>\<open>db.rs\<close>
  keeps labels, parameters, cached scores, rate buckets, subscriptions and the audit log;
  \<^verbatim>\<open>parameters.rs\<close>, \<^verbatim>\<open>signals/labels.rs\<close> and the health route cache what it says in the process.

  \<^bold>\<open>Theories and the code they model.\<close>
  \<^item> \<^verbatim>\<open>Prelude\<close>, \<^verbatim>\<open>Floats\<close>, \<^verbatim>\<open>Json\<close>: Rust integers, strings (UTF-8 bytes), \<^verbatim>\<open>f32\<close> and \<^verbatim>\<open>f64\<close>
    (every operation rounds to nearest, ties to even) and \<^verbatim>\<open>serde_json\<close> values. No repository code.
  \<^item> \<^verbatim>\<open>Extern\<close>, \<^verbatim>\<open>Retry\<close>, \<^verbatim>\<open>Rpc\<close>: the Solana library as the record \<open>lib\<close>, the process state \<open>sys\<close>
    (clock and effect log), \<^verbatim>\<open>rpc_retry.rs\<close>, and the RPC methods as effects whose replies the
    environment record \<open>env\<close> chooses, one for each position of the effect log.
    \<^verbatim>\<open>Retry_Spec\<close>: the contract of the retry loop as its module documentation states it, and that the
    loop refines it.
  \<^item> \<^verbatim>\<open>Labels\<close>, \<^verbatim>\<open>Tx\<close>, \<^verbatim>\<open>Funding\<close>, \<^verbatim>\<open>Activity\<close>, \<^verbatim>\<open>Chain\<close>, \<^verbatim>\<open>Token\<close>: \<^verbatim>\<open>signals/*.rs\<close> (\<^verbatim>\<open>Token\<close>
    also holds \<^verbatim>\<open>scoring_token.rs\<close>).
  \<^item> \<^verbatim>\<open>Bands\<close>, \<^verbatim>\<open>Scoring\<close>, \<^verbatim>\<open>Scoring_Tx\<close>, \<^verbatim>\<open>Age_Bonus\<close>: \<^verbatim>\<open>scoring.rs\<close>, \<^verbatim>\<open>scoring_tx.rs\<close> and the verdict
    lines of the handlers; \<^verbatim>\<open>Age_Bonus\<close> has the error analysis of the age credit.
  \<^item> \<^verbatim>\<open>Models\<close>, \<^verbatim>\<open>World\<close>: \<^verbatim>\<open>error.rs\<close>, \<^verbatim>\<open>x402/models.rs\<close>, \<^verbatim>\<open>config.rs\<close>, the service environment, the
    tables and the process caches (record \<open>world\<close>, which extends \<open>sys\<close>).
  \<^item> \<^verbatim>\<open>Http\<close>, \<^verbatim>\<open>Db\<close>, \<^verbatim>\<open>Caches\<close>: \<^verbatim>\<open>api/common.rs\<close>, \<^verbatim>\<open>db.rs\<close>, \<^verbatim>\<open>parameters.rs\<close>, the label refresh
    of \<^verbatim>\<open>signals/labels.rs\<close> and the health cache of \<^verbatim>\<open>api/handlers.rs\<close>.
    \<^verbatim>\<open>Db_Live\<close>: the wire steps of a database call, its time and its connection, and its success on a
    healthy wire.
  \<^item> \<^verbatim>\<open>Pricing\<close>, \<^verbatim>\<open>Subscription\<close>, \<^verbatim>\<open>Facilitator\<close>, \<^verbatim>\<open>Payment\<close>, \<^verbatim>\<open>Auth\<close>: \<^verbatim>\<open>pricing.rs\<close>,
    \<^verbatim>\<open>x402/pricing.rs\<close>, \<^verbatim>\<open>subscription.rs\<close>, \<^verbatim>\<open>x402/facilitator.rs\<close>,
    \<^verbatim>\<open>x402/payment_handler.rs\<close>, \<^verbatim>\<open>auth/dual.rs\<close>.
  \<^item> \<^verbatim>\<open>Handlers\<close>, \<^verbatim>\<open>Subscribe\<close>, \<^verbatim>\<open>Routes\<close>: \<^verbatim>\<open>api/handlers.rs\<close>, \<^verbatim>\<open>api/subscribe.rs\<close>,
    \<^verbatim>\<open>well_known.rs\<close> and \<^verbatim>\<open>bin/risk_api.rs\<close>.
  \<^item> \<^verbatim>\<open>Service\<close>: the abstract payment protocol and runs of many requests. \<^verbatim>\<open>Books\<close>: what each stage of a
    request may write. \<^verbatim>\<open>Process\<close>: \<^verbatim>\<open>state.rs\<close>, the pool's configuration, \<^verbatim>\<open>route_handler.rs\<close>, the
    start of \<^verbatim>\<open>main\<close> and the responses of \<^verbatim>\<open>error.rs\<close>. \<^verbatim>\<open>Journeys\<close>: when a data route answers, and
    what holds across requests (a report that comes back from the cache after a run of other requests,
    a bought subscription). \<^verbatim>\<open>Rate_Limits\<close>:
    the rate limit over a minute of requests.
  \<^item> \<^verbatim>\<open>Samples\<close>: one concrete environment for the witnesses. \<^verbatim>\<open>Unit_Tests\<close>: the repository's unit tests,
    evaluated on the model.

  \<^bold>\<open>Interfaces.\<close> \<open>rpc_operation\<close> (what the retry loop may rely on, interpreted on the seven RPC methods),
  \<open>label_index\<close> (build and lookup), \<open>risk_scorer\<close> (score, band and raw sum; wallet, token and transaction
  scorers), \<open>ttl_cache\<close> (parameters, labels, health), \<open>db_op\<close> and \<open>db_query\<close> (a statement happens at most
  once and as a whole; the eight database functions) with \<open>db_live\<close> (it does happen; the functions on a
  healthy wire), \<open>paid_handler\<close> (authenticate, work, answer with the
  settlement; the three data routes).

  \<^bold>\<open>The properties.\<close> C1 to C4: verdicts. C5 to C8: the payment protocol, authorization and runs. C9, C10,
  C13, C15, C16: scores and the screen of a transaction. C11, C12: journeys over several requests. C14: the
  footprint of a request in the database. C17 to C23:
  collected signals. C24 to C26: the retry loop against its documented contract, and its seven callers. C27 to C31: refusals, settlement proofs, subscriptions.
  C32 to C36: storage, database calls and rates. C37 to C40: prices, offers, queries.

  \<^bold>\<open>Modelling decisions.\<close> Requests run one after the other (the function serves one at a time; shared
  state between instances is the database, whose parameters and labels the operator steps of \<open>service_run\<close> edit). Effects
  are recorded in the log \<open>s_log\<close>, and the length of the log indexes the environment's replies, durations
  and random numbers, so an adversarial environment is a function of the history. The clock counts
  nanoseconds in the process and microseconds in Postgres; \<open>NOW()\<close> is fixed at \<open>BEGIN\<close>, and rows are read in table order where the SQL asks for none. A failed
  statement may or may not have been applied (\<open>e_applied\<close>). JSON objects are association lists. Floats
  have no signed zero. Loops terminate by measures (the pages, hops or attempts left), so no fuel is
  used. The natural logarithm is a parameter: results on the age credit hold for every function
  within \<open>2 ^ -40\<close> of the true one (\<open>ln_accurate\<close>); JWT signing is a parameter with its documented
  contract (\<open>jwt_scheme\<close>: what is signed is accepted until a leeway after its expiry). Both predicates are shown to hold for the sample environment.

  \<^bold>\<open>Where the code and its documents differ.\<close> The model follows the code. C7 and C27 show that \<^verbatim>\<open>tx-risk\<close> is a
  paid route (\<^verbatim>\<open>openapi.json\<close> and \<^verbatim>\<open>agent-integration.md\<close> call it reserved) and C7 that an RPC outage degrades
  a report where the documents promise a 503; C26 that a JSON error is retried more than once; C29 that a
  purchase can fail behind its settlement without the proof; C31 that revocation misses sub-second issues.

  \<^bold>\<open>Not modelled.\<close> \<^verbatim>\<open>init.rs\<close> and the module files set up tracing and list modules. Tracing, lock
  poisoning, the 32-bit overflow of a rate bucket within one minute, migrations and
  seed data are left out; the static pages and the connection pool, TLS, Postgres, JWT, HTTP, Solana and JSON libraries are
  parameters.
\<close>

section \<open>Properties\<close>

text \<open>C1. The verdict of a screened transaction is BLOCK exactly when one of its instructions, among
  those whose program id resolves to a static key, calls a deny-listed program or is an SPL Token
  \<^verbatim>\<open>SetAuthority\<close>: neither the owner override nor anything the simulation reports can add a BLOCK
  or remove one.\<close>

theorem tx_block_iff:
  "tr_recommendation (fst (screen_tx E deny tx owner s)) = ''BLOCK'' \<longleftrightarrow>
     (\<exists>pd \<in> set (resolved (e_lib E) tx).
        (\<exists>e. e \<in> set (li_lookup deny (fst pd)))
        \<or> (\<exists>a new_auth. token_ix_of (e_lib E) pd = Some (SetAuthority a new_auth)))"
  unfolding tx_recommendation_screen tx_recommendation_iffs has_block_def merge_sim_static
    deny_hit_iff screen_handoffs_iff case_prod_unfold ex_in_conv set_empty
  by blast

text \<open>C2. The verdict is SIGN exactly when every instruction resolves to a known-safe program without
  deny label and without a token instruction that hands off, delegates or closes, no lookup table is
  used, and the simulation reported no error; and exactly then no flag is raised, so no REVIEW or BLOCK
  goes without a disclosed reason. The simulated outflows play no part in it: they only
  escalate through a program that is itself opaque, which is a REVIEW finding already.\<close>

theorem tx_sign_iff:
  "(tr_recommendation (fst (screen_tx E deny tx owner s)) = ''SIGN'' \<longleftrightarrow>
     list_all (\<lambda>pd. li_lookup deny (fst pd) = [] \<and> \<not> is_opaque (fst pd)
        \<and> (case token_ix_of (e_lib E) pd of
             None \<Rightarrow> True
           | Some t \<Rightarrow> handoff_of t = None \<and> \<not> is_delegation t \<and> t \<noteq> CloseAccount))
       (resolved (e_lib E) tx)
     \<and> \<not> (\<exists>l. lookups tx = Some l \<and> l \<noteq> [])
     \<and> list_all (\<lambda>ix. unat (program_id_index ix) < length (static_keys tx)) (instructions tx)
     \<and> so_error (fst (simulate E tx (subject (analyze (e_lib E) deny tx owner)) s)) = None)
   \<and> (tr_recommendation (fst (screen_tx E deny tx owner s)) = ''SIGN'' \<longleftrightarrow>
        tr_flags (fst (screen_tx E deny tx owner s)) = [])"
proof (intro conjI)
  let ?sp = "screen_spec (e_lib E) deny tx owner"
  let ?sg = "merge_sim (fst (simulate E tx (subject (analyze (e_lib E) deny tx owner)) s)) ?sp"
  have h: "handoff_of t = None \<longleftrightarrow> (\<forall>a o'. t \<noteq> SetAuthority a o')" for t
    by (cases t) (simp_all add: handoff_of_def)
  have "tr_recommendation (fst (screen_tx E deny tx owner s)) = ''SIGN'' \<longleftrightarrow>
      \<not> has_block ?sg \<and> \<not> has_review ?sg"
    by (simp only: tx_recommendation_screen tx_recommendation_iffs)
  also have "\<dots> \<longleftrightarrow> deny_program_hits ?sp = [] \<and> authority_handoffs ?sp = [] \<and> delegations ?sp = 0
      \<and> close_accounts ?sp = 0 \<and> \<not> uses_lookup_tables ?sp \<and> unknown_programs ?sp = []
      \<and> so_error (fst (simulate E tx (subject (analyze (e_lib E) deny tx owner)) s)) = None"
    using outflow_needs_opaque [of ?sg] by (auto simp: has_block_def has_review_def)
  finally show "tr_recommendation (fst (screen_tx E deny tx owner s)) = ''SIGN'' \<longleftrightarrow>
     list_all (\<lambda>pd. li_lookup deny (fst pd) = [] \<and> \<not> is_opaque (fst pd)
        \<and> (case token_ix_of (e_lib E) pd of
             None \<Rightarrow> True
           | Some t \<Rightarrow> handoff_of t = None \<and> \<not> is_delegation t \<and> t \<noteq> CloseAccount))
       (resolved (e_lib E) tx)
     \<and> \<not> (\<exists>l. lookups tx = Some l \<and> l \<noteq> [])
     \<and> list_all (\<lambda>ix. unat (program_id_index ix) < length (static_keys tx)) (instructions tx)
     \<and> so_error (fst (simulate E tx (subject (analyze (e_lib E) deny tx owner)) s)) = None"
    unfolding deny_hit_iff screen_handoffs_iff screen_delegations_iff screen_closes_iff
      screen_unknown_iff screen_lookup_iff
    by (auto simp: h not_le list_all_iff split: option.splits)
  show "tr_recommendation (fst (screen_tx E deny tx owner s)) = ''SIGN'' \<longleftrightarrow>
        tr_flags (fst (screen_tx E deny tx owner s)) = []"
    by (simp add: screen_tx_def Let_def case_prod_unfold tx_flags_empty_iff del: score_tx_simps(3))
qed

text \<open>C3. A wallet is BLOCKed exactly when the label rows hold a positive weight for it or its raw
  score is at least 75, whatever the other signals, the signal quality and the negative labels are.
  The label indices are the ones \<^verbatim>\<open>refresh_labels_from_db\<close> installs from the rows.\<close>

theorem wallet_block_iff:
  "wallet_recommendation (score_wallet ln64 (lc_deny (install_labels rows now c))
       (lc_allow (install_labels rows now c)) w sg) = ''BLOCK'' \<longleftrightarrow>
   (\<exists>e. e \<in> set rows \<and> le_wallet e = w \<and> 0 < le_weight e)
   \<or> 75 \<le> fst (wallet_tally ln64 (filter (\<lambda>e. le_wallet e = w \<and> 0 < le_weight e) rows)
                (filter (\<lambda>e. le_wallet e = w \<and> le_weight e \<le> 0) rows) sg)"
  unfolding wallet_recommendation_def recommendation_iffs ws.band_raw has_deny_iff
    install_labels_lookup by auto

text \<open>C4. A wallet is ALLOWed exactly when it has no positive label, its raw score is at most 24, and
  at least five transactions on at least two signature pages were seen.\<close>

theorem wallet_allow_iff:
  "wallet_recommendation (score_wallet ln64 (lc_deny (install_labels rows now c))
       (lc_allow (install_labels rows now c)) w sg) = ''ALLOW'' \<longleftrightarrow>
   filter (\<lambda>e. le_wallet e = w \<and> 0 < le_weight e) rows = []
   \<and> fst (wallet_tally ln64 [] (filter (\<lambda>e. le_wallet e = w \<and> le_weight e \<le> 0) rows) sg) \<le> 24
   \<and> 5 \<le> tx_count_total sg \<and> 2 \<le> sig_pages_fetched sg"
proof -
  have q: "compute_signal_quality sg \<noteq> ''low'' \<longleftrightarrow> 5 \<le> tx_count_total sg \<and> 2 \<le> sig_pages_fetched sg"
    by (auto simp: compute_signal_quality_def)
  let ?D = "filter (\<lambda>e. le_wallet e = w \<and> 0 < le_weight e) rows"
  let ?A = "filter (\<lambda>e. le_wallet e = w \<and> le_weight e \<le> 0) rows"
  have d: "(\<exists>e \<in> set ?D \<union> set ?A. 0 < le_weight e) \<longleftrightarrow> ?D \<noteq> []"
    by (auto simp: filter_empty_conv)
  show ?thesis
    unfolding wallet_recommendation_def recommendation_iffs ws.band_raw has_deny_iff install_labels_lookup
      score_wallet_simps q d by (cases "?D = []"; simp only: simp_thms; linarith)
qed

text \<open>C5. Every route follows the payment protocol: quoting first, then at most one verification, a
  settlement only right after a verification, and paid work (RPC calls) only at the end, after which
  nothing is quoted, verified or settled any more. This is a refinement of the automaton \<open>access_step\<close>.\<close>

theorem routes_refine_protocol:
  "\<exists>es ph. s_log (snd (routes E P h meth path query s)) = s_log s @ es \<and> access_run Quoting es = Some ph"
  by (rule routes_protocol)

text \<open>C6. A per-call payment is only accepted if the facilitator verified the buyer's own proof and
  settled it: the settle request keeps every field of the proof, the settlement reply was a success, or the
  facilitator said the transaction had been settled before.\<close>

theorem payment_verified_and_settled:
  fixes s s' :: "'a world_scheme"
  assumes "check_payment E ep h res s = (Inr (Some p), s')"
  shows "\<exists>raw pf (s2 :: 'a world_scheme) vj s3 status bt. extract_payment h = Some raw
    \<and> parse_payment_proof (e_web E) raw = Inr pf \<and> validate_pr402_verify_shape pf = Inr ()
    \<and> verify E pf s2 = (Inr vj, s3) \<and> is_valid_reply vj
    \<and> fst (settle_post_raw E (settle_body_of pf vj) s3) = Inr (status, bt)
    \<and> (\<forall>k. k \<noteq> ''correlationId'' \<longrightarrow> jget (settle_body_of pf vj) k = jget pf k)
    \<and> (is_success status \<and> j_parse (e_web E) bt = Inr (sp_response p)
         \<and> jget (sp_response p) ''success'' \<noteq> Some (JBool False)
       \<or> \<not> is_success status \<and> is_duplicate_settle_body bt
         \<and> sp_response p = synthetic_settlement_after_duplicate vj pf bt)"
  using check_payment_grantD [OF assms] .

theorem payment_verified_and_settled_witness:
  "\<exists>p s' raw. check_payment (sample_env False) ENDPOINT_TX_RISK paying_headers
      (resource_for (sample_env False) paying_headers ENDPOINT_TX_RISK ''/api/v1/tx-risk'' ''transaction=tx'')
      (sample_world False) = (Inr (Some p), s') \<and> extract_payment paying_headers = Some raw"
proof -
  let ?c = "check_payment (sample_env False) ENDPOINT_TX_RISK paying_headers
      (resource_for (sample_env False) paying_headers ENDPOINT_TX_RISK ''/api/v1/tx-risk'' ''transaction=tx'')
      (sample_world False)"
  have "case fst ?c of Inr (Some p) \<Rightarrow> True | _ \<Rightarrow> False" by code_simp
  then obtain p s' where "?c = (Inr (Some p), s')" by (cases ?c) (auto split: sum.splits option.splits)
  with payment_verified_and_settled [OF this] show ?thesis by blast
qed

text \<open>C7. A data route answers 200 exactly when the request is well-formed, authentication let it in (with
  a subscription or a per-call payment), and its subject is a valid key or its report is cached (for a
  transaction: it can be decoded). So nobody is served without authorization. It also shows two
  disagreements with the repository's documents, both listed as findings. The collected signals do not
  occur in the condition: an outage of the RPC node never turns an answer into the 503 \<^verbatim>\<open>RPC_ERROR\<close> which
  \<^verbatim>\<open>README.md\<close>, \<^verbatim>\<open>rpc_retry.rs\<close>, \<^verbatim>\<open>openapi.json\<close> and \<^verbatim>\<open>agent-integration.md\<close> promise; the report is
  made from what could be read. And the transaction route is served and charged, as \<^verbatim>\<open>README.md\<close> says,
  where \<^verbatim>\<open>openapi.json\<close> and \<^verbatim>\<open>agent-integration.md\<close> have it answer 501 before authentication.\<close>

theorem data_answered_iff:
  "(rs_status (fst (handle_wallet_risk E h q s)) = 200 \<longleftrightarrow>
     (let w = extract_query_param q ''wallet''
      in \<not> bad_subject w
       \<and> (case authenticate_data_route E h ENDPOINT_WALLET_RISK
             (resource_for E h ENDPOINT_WALLET_RISK ''/api/v1/wallet-risk'' q) s of
            (Inl e, s1) \<Rightarrow> False
          | (Inr auth, s1) \<Rightarrow> \<not> (isl (pk_parse (e_lib E) w) \<and> fst (maybe_cached E ENDPOINT_WALLET_RISK w s1) = None))))
   \<and> (rs_status (fst (handle_token_risk E h q s)) = 200 \<longleftrightarrow>
     (let m = extract_query_param q ''mint''
      in \<not> bad_subject m
       \<and> (case authenticate_data_route E h ENDPOINT_TOKEN_RISK
             (resource_for E h ENDPOINT_TOKEN_RISK ''/api/v1/token-risk'' q) s of
            (Inl e, s1) \<Rightarrow> False
          | (Inr auth, s1) \<Rightarrow> \<not> (isl (pk_parse (e_lib E) m) \<and> fst (maybe_cached E ENDPOINT_TOKEN_RISK m s1) = None))))
   \<and> (rs_status (fst (handle_tx_risk E h q s)) = 200 \<longleftrightarrow>
     (let x = extract_query_param q ''transaction''
      in x \<noteq> [] \<and> base64_ok (e_lib E) x \<and> \<not> isl (decode_tx (e_lib E) x)
       \<and> \<not> isl (fst (authenticate_data_route E h ENDPOINT_TX_RISK
             (resource_for E h ENDPOINT_TX_RISK ''/api/v1/tx-risk'' q) s))))"
  by (intro conjI wallet_answered_iff token_answered_iff tx_answered_iff)

text \<open>C8. Over any run of requests, idle time and operator edits, time and the effect log only grow, the
  audit log is append-only, every request adds at most one subscription, with the duration of its tier,
  no rate counter goes back, the score cache holds one row per subject, no pooled connection is left in a
  transaction, and there is at most one settlement per request.\<close>

theorem service_run_invariant:
  assumes "service_run E P n s t"
  shows "s_now s \<le> s_now t \<and> prefix (s_log s) (s_log t)
    \<and> subs_grow n (w_tables s) (w_tables t) \<and> prefix (t_log (w_tables s)) (t_log (w_tables t))
    \<and> rates_le (w_tables s) (w_tables t)
    \<and> (cache_unique (w_tables s) \<longrightarrow> cache_unique (w_tables t)) \<and> (pool_idle s \<longrightarrow> pool_idle t)
    \<and> settles (s_log t) \<le> settles (s_log s) + n"
  using service_run_inv [OF assms] service_run_subs [OF assms] unfolding run_inv_def by simp

theorem service_run_invariant_witness:
  "settles (s_log (snd (routes (sample_env False) \<lparr>page_index = [], page_agent = [], page_openapi = []\<rparr>
      paying_headers ''GET'' ''/api/v1/tx-risk'' ''transaction=tx'' (sample_world False)))) \<le> 1"
proof -
  let ?P = "\<lparr>page_index = [], page_agent = [], page_openapi = []\<rparr>"
  let ?r = "routes (sample_env False) ?P paying_headers ''GET'' ''/api/v1/tx-risk'' ''transaction=tx'' (sample_world False)"
  have "service_run (sample_env False) ?P (Suc 0) (sample_world False) (snd ?r)"
    by (rule service_run.request [OF service_run.start, of _ _ _ _ _ _ _ "fst ?r"]) simp
  from service_run_invariant [OF this] show ?thesis
    by (simp add: sample_world_def cold_start_def settles_def)
qed

text \<open>C9. The wallet score in exact arithmetic. For any logarithm within \<open>2 ^ -40\<close> of the true one and
  label weights of less than two billion in all, no rounding and no 32-bit wrap-around shows: the score is
  the sum of the signal penalties, the label weights, the age credit \<open>min 15 \<lfloor>3 ln days\<rfloor>\<close> and the
  activity credit, clamped to 0..100.\<close>

theorem wallet_score_exact:
  assumes "ln_accurate ln64" "age_days sg < 2 ^ 53"
    and "weight_mass (li_lookup d w) + weight_mass (li_lookup a w) < 2000000000"
  shows "rr_risk_score (score_wallet ln64 d a w sg) =
    max 0 (min 100 (signal_sum sg + weight_sum (li_lookup d w)
      - (if 0 < age_days sg then min 15 \<lfloor>3 * ln (real (age_days sg))\<rfloor> else 0)
      - (if active_counterparties sg then 10 else 0) + weight_sum (li_lookup a w)))"
  using wallet_tally_exact [OF assms]
  by (simp add: ws.score_raw final_score_def clamp_def wallet_raw_sum_def age_credit_def of_bool_i_def)

theorem wallet_score_exact_witness:
  "rr_risk_score (score_wallet cut_ln (li_build []) (li_build []) ''w'' (default_chain_signals\<lparr>age_days := 90\<rparr>))
     = max 0 (min 100 (10 - min 15 \<lfloor>3 * ln (90 :: real)\<rfloor>))"
proof -
  let ?sg = "default_chain_signals\<lparr>age_days := 90\<rparr>"
  have n: "li_lookup (li_build []) ''w'' = []" by (simp add: li.lookup_build)
  have s: "signal_sum ?sg = 10" "\<not> active_counterparties ?sg" by code_simp+
  show ?thesis
    using wallet_score_exact [of cut_ln ?sg "li_build []" "''w''" "li_build []"] cut_ln_accurate
    by (simp add: n s)
qed

text \<open>C10. The screen of a transaction, written as one loop over mutable signals in the code, equals its
  specification by lists: programs in order of first use, the deny hits of every resolved instruction,
  the token instructions by kind, the opaque programs, and reduced visibility if a program id or an
  address sits in a lookup table.\<close>

theorem analyze_equals_spec: "analyze L deny tx owner = screen_spec L deny tx owner"
  by (rule analyze_refines)

text \<open>C11. From purchase to use, for a service without a database (\<^verbatim>\<open>DATABASE_URL\<close> unset, so neither
  revocation nor rate limits apply) and against the documented contract of the JWT library (a signed token
  is accepted with its claims until a leeway after its expiry): the answer to a successful purchase
  carries a token which, sent as a bearer token, is accepted on every data route as the payer's
  subscription for the bought tier exactly until the tier's duration after the issue.\<close>

theorem bought_subscription_usable:
  fixes u :: "'a world_scheme" and s :: "'b world_scheme"
  assumes "jwt_scheme (e_web E) leeway" "\<not> e_has_db E"
    and "handle_subscribe E h q s = (r, t)" "rs_status r = 200"
  shows "\<exists>tier d settlement issued tok. tier_duration_secs tier = Some d
    \<and> extract_tier_from_query q = Some tier
    \<and> r = ok_with_payment (e_web E) (subscribe_body (e_web E) tok tier (issued + d * ns_per_sec)) settlement
    \<and> int (s_now s) \<le> issued
    \<and> (extract_bearer h' = Some tok \<longrightarrow>
        (fst (authenticate_data_route E h' ep res u) =
           Inr (let p = unwrap_or (Option.bind settlement payer_of_proof) ''unknown''
                in Subscription p tier (claims_for p tier issued d))
         \<longleftrightarrow> now_secs u \<le> timestamp issued + d))"
  using assms by (rule bought_subscription_accepted)

theorem bought_subscription_usable_witness:
  "\<exists>tier d settlement issued tok. tier_duration_secs tier = Some d
    \<and> extract_tier_from_query ''tier=hourly'' = Some tier
    \<and> fst (handle_subscribe (sample_env False) paying_headers ''tier=hourly'' (sample_world False))
        = ok_with_payment (e_web (sample_env False))
            (subscribe_body (e_web (sample_env False)) tok tier (issued + d * ns_per_sec)) settlement"
proof -
  let ?b = "handle_subscribe (sample_env False) paying_headers ''tier=hourly'' (sample_world False)"
  have ok: "rs_status (fst ?b) = 200" by code_simp
  have e: "jwt_scheme (e_web (sample_env False)) 0" "\<not> e_has_db (sample_env False)"
    using sample_jwt by (simp_all add: sample_env_def)
  obtain r t where b: "?b = (r, t)" by force
  with ok have "rs_status r = 200" by simp
  from bought_subscription_usable [OF e b this, of "[]" "[]" undefined "sample_world False"]
  show ?thesis unfolding b fst_conv by (elim exE conjE) (intro exI conjI)
qed

text \<open>C12. A wallet report serves the next paying caller. With a database whose wire does not fail, every
  report that was collected and answered is stored; after any stretch of the service's run in which nobody
  asks for that wallet (requests for other wallets, tokens and transactions, purchases, idle time and
  operator edits are allowed), an authorized request for the wallet within five minutes of the server's
  clock is answered with the stored report, marked as cached, and without any RPC call.\<close>

theorem repeated_report_from_cache:
  fixes s t u :: world
  assumes "e_has_db E" "\<And>k. e_wire E k = WOk"
    and "serve_wallet E w auth s = (r, t)" "rs_status r = 200"
    and "quiet_run E P w t u"
    and "authenticate_data_route E h ENDPOINT_WALLET_RISK
        (resource_for E h ENDPOINT_WALLET_RISK ''/api/v1/wallet-risk'' q) u = (Inr auth', u1)"
    and "extract_query_param q ''wallet'' = w" "\<not> bad_subject w"
    and "within_five_minutes E s t u (snd (handle_wallet_risk E h q u))"
  shows "\<exists>v stored u2. r = ok_with_payment (e_web E) v (settlement_from_auth auth)
    \<and> handle_wallet_risk E h q u =
        (ok_with_payment (e_web E) (enrich_cached (e_web E) v stored) (settlement_from_auth auth'), u2)
    \<and> svc_frame is_pay u u2"
  using assms by (rule repeated_wallet_report)

theorem repeated_report_from_cache_witness:
  "let E = (sample_env True)\<lparr>e_pgnow := (\<lambda>k. 7)\<rparr>; h = [(''authorization'', ''Bearer k/token'')];
       (r, t) = serve_wallet E (replicate 32 CHR ''1'') (PerCall None) (sample_world True);
       u = snd (routes E \<lparr>page_index = [], page_agent = [], page_openapi = []\<rparr> h ''GET'' ''/openapi.json'' []
             (t\<lparr>s_now := s_now t + 60 * 10 ^ 9\<rparr>))
   in \<exists>v stored p p' u2. r = ok_with_payment (e_web E) v p
     \<and> handle_wallet_risk E h ''wallet=11111111111111111111111111111111'' u
        = (ok_with_payment (e_web E) (enrich_cached (e_web E) v stored) p', u2)"
proof -
  let ?E = "(sample_env True)\<lparr>e_pgnow := (\<lambda>k. 7)\<rparr>" and ?h = "[(''authorization'', ''Bearer k/token'')]"
  let ?w = "replicate 32 CHR ''1''" and ?q = "''wallet=11111111111111111111111111111111''"
  let ?P = "\<lparr>page_index = [], page_agent = [], page_openapi = []\<rparr>"
  let ?auth = "authenticate_data_route ?E ?h ENDPOINT_WALLET_RISK
      (resource_for ?E ?h ENDPOINT_WALLET_RISK ''/api/v1/wallet-risk'' ?q)"
  obtain r t where t: "serve_wallet ?E ?w (PerCall None) (sample_world True) = (r, t)" by force
  let ?u = "snd (routes ?E ?P ?h ''GET'' ''/openapi.json'' [] (t\<lparr>s_now := s_now t + 60 * 10 ^ 9\<rparr>))"
  have "(\<lambda>t. (s_now t, w_pool t, t_rate (w_tables t), t_subs (w_tables t)))
      (snd (serve_wallet ?E ?w (PerCall None) (sample_world True))) = (10 ^ 12, [\<lparr>cl_in_tx = False\<rparr>], [], [])"
    by code_simp
  then have f: "s_now t = 10 ^ 12" "w_pool t = [\<lparr>cl_in_tx = False\<rparr>]" "t_rate (w_tables t) = []" "t_subs (w_tables t) = []"
    by (simp_all add: t)
  have "\<not> isl (fst (?auth \<lparr>s_now = 1060 * 10 ^ 9, s_log = l, w_tables = \<lparr>t_params = ps, t_subs = [], t_rate = [],
      t_labels = ls, t_cache = c, t_log = g\<rparr>, w_pool = [\<lparr>cl_in_tx = False\<rparr>], w_labels = lb, w_params = p,
      w_health = hl\<rparr>))" for l ps ls c g lb p hl
    by code_simp
  from this [of "s_log t" "t_params (w_tables t)" "t_labels (w_tables t)" "t_cache (w_tables t)" "t_log (w_tables t)"
      "w_labels t" "w_params t" "w_health t"]
  have "\<not> isl (fst (?auth (t\<lparr>s_now := s_now t + 60 * 10 ^ 9\<rparr>)))"
    using f by (cases t; cases "w_tables t") simp
  moreover have u: "?u = t\<lparr>s_now := s_now t + 60 * 10 ^ 9\<rparr>" by (simp add: routes_def)
  ultimately obtain auth' u1 where a: "?auth ?u = (Inr auth', u1)"
    by (cases "?auth ?u"; cases "fst (?auth ?u)") auto
  have key: "\<not> isl (pk_parse (e_lib ?E) ?w)" by code_simp
  have ok: "rs_status r = 200"
    using serve_wallet_status [of ?E ?w "PerCall None" "sample_world True"] key unfolding t by simp
  have db: "e_has_db ?E" "\<And>k. e_wire ?E k = WOk" by (simp_all add: sample_env_def)
  have q: "extract_query_param ?q ''wallet'' = ?w" "\<not> bad_subject ?w" by code_simp+
  have quiet: "quiet_run ?E ?P ?w t ?u"
    by (rule quiet_run.request [OF quiet_run.idle [OF quiet_run.start] prod.collapse [symmetric]])
      (simp add: asks_for_def)
  have clock: "within_five_minutes ?E (sample_world True) t ?u (snd (handle_wallet_risk ?E ?h ?q ?u))"
    by (simp add: within_five_minutes_def)
  obtain v stored u2 where "r = ok_with_payment (e_web ?E) v (settlement_from_auth (PerCall None))"
    "handle_wallet_risk ?E ?h ?q ?u =
      (ok_with_payment (e_web ?E) (enrich_cached (e_web ?E) v stored) (settlement_from_auth auth'), u2)"
    using repeated_report_from_cache [OF db t ok quiet a q clock] by blast
  then show ?thesis unfolding Let_def t prod.case by (intro exI conjI)
qed

text \<open>C13. The transaction score is the exact sum of its penalties, cut at 100, for up to ten million
  BLOCK findings: the 32-bit accumulator does not wrap.\<close>

theorem tx_score_exact:
  assumes "length (deny_program_hits sg) + length (authority_handoffs sg) \<le> 10000000"
  shows "tr_risk_score (score_tx sg) = min 100
     (60 * int (length (deny_program_hits sg)) + 60 * int (length (authority_handoffs sg))
      + of_bool_i (delegations sg > 0) 30 + of_bool_i (close_accounts sg > 0) 20
      + of_bool_i (uses_lookup_tables sg) 15 + of_bool_i (unknown_programs sg \<noteq> []) 15
      + of_bool_i (simulation_error sg \<noteq> None) 10 + of_bool_i (outflow_via_unknown sg) 25
      + of_bool_i (token_outflow_via_unknown sg) 25)"
  using tx_tally_exact [OF assms]
  by (simp add: txs.score_raw final_score_def clamp_def tx_raw_sum_def of_bool_i_def min.commute)

theorem tx_score_exact_witness:
  "tr_risk_score (score_tx (screen_spec sample_lib (li_build []) sample_tx None)) = 0"
proof -
  let ?sg = "screen_spec sample_lib (li_build []) sample_tx None"
  have "deny_program_hits ?sg = []" "authority_handoffs ?sg = []" "delegations ?sg = 0" "close_accounts ?sg = 0"
    "\<not> uses_lookup_tables ?sg" "unknown_programs ?sg = []" "simulation_error ?sg = None"
    "\<not> outflow_via_unknown ?sg" "\<not> token_outflow_via_unknown ?sg"
    by code_simp+
  then show ?thesis using tx_score_exact [of ?sg] by (simp add: of_bool_i_def)
qed

text \<open>C14. What a request may change in the database: a wallet or token report the rate counters, the score
  cache and the audit log; a screened transaction the rate counters; a purchase at most one new
  subscription, of the tier asked for and with its duration, and only behind an accepted payment; the
  other routes nothing.\<close>

theorem request_footprint:
  "report_only (w_tables s) (w_tables (snd (handle_wallet_risk E h q s)))
   \<and> report_only (w_tables s) (w_tables (snd (handle_token_risk E h q s)))
   \<and> rates_only (w_tables s) (w_tables (snd (handle_tx_risk E h q s)))
   \<and> w_tables (snd (handle_health E s)) = w_tables s
   \<and> w_tables (snd (handle_subscribe_info E s)) = w_tables s
   \<and> (w_tables (snd (handle_subscribe E h q s)) = w_tables s
      \<or> (\<exists>row. w_tables (snd (handle_subscribe E h q s)) = (w_tables s)\<lparr>t_subs := t_subs (w_tables s) @ [row]\<rparr>
        \<and> sub_row_ok row \<and> Some (sb_tier row) = extract_tier_from_query q \<and> is_valid_tier (sb_tier row)
        \<and> (\<exists>settlement s1. check_payment E (subscribe_endpoint_key (sb_tier row)) h
              (resource_for E h (subscribe_endpoint_key (sb_tier row)) ''/api/v1/subscribe'' q) s
                = (Inr settlement, s1))))"
  by (intro conjI data_routes_footprint info_routes_footprint subscribe_footprint)

text \<open>C15. A simulated token change is reported exactly for a touched account whose amount after the
  simulation was returned and differs from the one before, and it is the true difference as long as
  that fits in 63 bits. If the node returns no accounts at all, no token change and no SOL change is
  reported: no outflow is inferred from missing data.\<close>

theorem token_changes_measured:
  assumes "\<forall>(a, m, pre) \<in> set touched. \<forall>q. Some q \<in> set posts \<longrightarrow> \<bar>int (unat q) - int (unat pre)\<bar> < 2 ^ 63"
  shows "(c \<in> set (compute_token_deltas touched posts) \<longleftrightarrow>
     (\<exists>i a m pre q. i < length touched \<and> i < length posts \<and> touched ! i = (a, m, pre)
        \<and> posts ! i = Some q \<and> q \<noteq> pre
        \<and> c = \<lparr>tc_mint = m, tc_delta_raw = int (unat q) - int (unat pre)\<rparr>))
   \<and> compute_token_deltas touched (post_amounts L touched None) = []
   \<and> net_sol pre_sol (post_lamports None) = None"
proof (intro conjI)
  have d: "i64_sub q pre = int (unat q) - int (unat pre)"
    if "i < length touched" "i < length posts" "touched ! i = (a, m, pre)" "posts ! i = Some q" for i a m pre q
  proof -
    have "(a, m, pre) \<in> set touched" "Some q \<in> set posts" using that by (metis nth_mem)+
    with assms show ?thesis by (intro i64_sub_exact) auto
  qed
  have z: "i64_sub q pre \<noteq> 0 \<longleftrightarrow> q \<noteq> pre"
    if "i64_sub q pre = int (unat q) - int (unat pre)" for q pre
    using that by (auto simp: word_uint_eq_iff)
  show "c \<in> set (compute_token_deltas touched posts) \<longleftrightarrow>
     (\<exists>i a m pre q. i < length touched \<and> i < length posts \<and> touched ! i = (a, m, pre)
        \<and> posts ! i = Some q \<and> q \<noteq> pre
        \<and> c = \<lparr>tc_mint = m, tc_delta_raw = int (unat q) - int (unat pre)\<rparr>)" (is "_ \<longleftrightarrow> ?R")
  proof
    assume "c \<in> set (compute_token_deltas touched posts)"
    then obtain i a m pre q where h: "i < length touched" "i < length posts" "touched ! i = (a, m, pre)"
      "posts ! i = Some q" "i64_sub q pre \<noteq> 0" "c = \<lparr>tc_mint = m, tc_delta_raw = i64_sub q pre\<rparr>"
      unfolding compute_token_deltas_iff by blast
    with z d [OF h(1-4)] show ?R by (intro exI [of _ i] exI [of _ a] exI [of _ m] exI [of _ pre] exI [of _ q]) simp
  next
    assume ?R
    then obtain i a m pre q where h: "i < length touched" "i < length posts" "touched ! i = (a, m, pre)"
      "posts ! i = Some q" "q \<noteq> pre" "c = \<lparr>tc_mint = m, tc_delta_raw = int (unat q) - int (unat pre)\<rparr>"
      by blast
    with z d [OF h(1-4)] show "c \<in> set (compute_token_deltas touched posts)"
      unfolding compute_token_deltas_iff
      by (intro exI [of _ i] exI [of _ a] exI [of _ m] exI [of _ pre] exI [of _ q]) simp
  qed
qed (simp_all add: post_amounts_unmeasured no_deltas_unmeasured net_sol_def post_lamports_def split: option.split)

theorem token_changes_measured_witness:
  "\<lparr>tc_mint = ''m'', tc_delta_raw = - 5\<rparr> \<in> set (compute_token_deltas [(''a'', ''m'', 7)] [Some 2])"
proof -
  have "\<forall>(a, m, pre) \<in> set [(''a'', ''m'', 7 :: u64)]. \<forall>q. Some q \<in> set [Some 2] \<longrightarrow> \<bar>int (unat q) - int (unat pre)\<bar> < 2 ^ 63"
    by simp
  note exact = token_changes_measured [OF this, of "\<lparr>tc_mint = ''m'', tc_delta_raw = - 5\<rparr>", THEN conjunct1]
  show ?thesis
    unfolding exact by (rule exI [of _ 0], rule exI [of _ "''a''"], rule exI [of _ "''m''"], rule exI [of _ 7], rule exI [of _ 2]) simp
qed

text \<open>C16. The token score is the sum of its four penalties: no rounding, no wrap-around and no clamping,
  it stays within 0..100 by itself. The flags name exactly the penalties that were applied, and disclose
  that liquidity was not checked.\<close>

theorem token_score_exact:
  "kr_risk_score (score_token mint sg) =
     of_bool_i (\<not> mint_authority_revoked sg) 35 + of_bool_i (freeze_authority_set sg) 20
     + of_bool_i (flt (Fin 80) (top10_holder_pct sg)) 30
     + of_bool_i (mint_age_days sg < 7 \<and> flt (Fin 50) (top10_holder_pct sg)) 15
   \<and> kr_flags (score_token mint sg) =
     flag_if (\<not> mint_authority_revoked sg) ''MINT_AUTHORITY_ACTIVE''
     @ flag_if (freeze_authority_set sg) ''FREEZE_AUTHORITY_SET''
     @ flag_if (flt (Fin 80) (top10_holder_pct sg)) ''TOP10_HOLDERS_GT_80PCT''
     @ flag_if (mint_age_days sg < 7 \<and> flt (Fin 50) (top10_holder_pct sg)) ''YOUNG_MINT_HIGH_CONCENTRATION''
     @ flag_if (\<not> liquidity_checked sg) ''LOW_LIQUIDITY_UNKNOWN''"
  using token_raw_bounds [of sg] ks.score_exact [of sg mint]
  by (simp add: token_tally_score token_flags token_bumps_def)

text \<open>C17. Token signals collected from the chain never claim high quality, always carry the flag
  that liquidity is unknown, and never report more than 100 percent of the supply in the top ten
  accounts.\<close>

theorem collected_token_quality:
  "case fst (collect_token_signals E m s) of
     Inl e \<Rightarrow> True
   | Inr sg \<Rightarrow> kr_signal_quality (score_token m sg) \<noteq> ''high''
       \<and> ''LOW_LIQUIDITY_UNKNOWN'' \<in> set (kr_flags (score_token m sg))
       \<and> \<not> flt (Fin 100) (top10_holder_pct sg)"
  using collect_token_signals_result [of E m s]
  by (auto simp: token_signal_quality_def token_sane_def token_flags token_bumps_def flag_if_def split: sum.split)

text \<open>C18. A funding trace numbers its hops from 1, gives every hop its own deny labels, goes no further
  than the first labelled address and no deeper than the configured number of hops.\<close>

theorem funding_chain_well_formed:
  "chain_ok deny (ft_funding_chain (fst (trace_funder E deny wallet sig reached s)))
   \<and> length (ft_funding_chain (fst (trace_funder E deny wallet sig reached s))) \<le> max_funder_hops (e_getenv E)"
  using trace_funder_chain by blast

text \<open>C19. The funder extracted from a first transaction is an account of it other than the wallet that
  lost lamports, and no other account lost more; the wallet itself gained. Balances that do not line up
  with the keys give no funder.\<close>

theorem funder_lost_the_most:
  assumes "extract_funder L enc wallet = Some f"
  shows "\<exists>pre post b64 tx w i. et_meta enc = Some (pre, post) \<and> et_transaction enc = EncBinary b64
    \<and> decode_tx L b64 = Inr tx \<and> length pre = length (static_keys tx) \<and> length post = length (static_keys tx)
    \<and> w < length pre \<and> static_keys tx ! w = wallet \<and> pre ! w < post ! w
    \<and> i < length pre \<and> i \<noteq> w \<and> f = pk_str L (static_keys tx ! i) \<and> post ! i < pre ! i
    \<and> (\<forall>j < length pre. j \<noteq> w \<longrightarrow> sat_sub (pre ! j) (post ! j) \<le> pre ! i - post ! i)"
  using assms by (rule extract_funder_SomeD) blast

theorem funder_lost_the_most_witness:
  "\<exists>i. i \<noteq> 0 \<and> key_text (replicate 32 0) = pk_str sample_lib (static_keys sample_tx ! i)"
proof -
  have "extract_funder sample_lib \<lparr>et_meta = Some ([0, 9], [5, 2]), et_transaction = EncBinary ''tx''\<rparr> (sample_key 1)
      = Some (key_text (replicate 32 0))" by code_simp
  from funder_lost_the_most [OF this] obtain b64 tx w i where h: "''tx'' = b64" "decode_tx sample_lib b64 = Inr tx"
    "static_keys tx ! w = sample_key 1" "w < 2" "i \<noteq> w" "key_text (replicate 32 0) = pk_str sample_lib (static_keys tx ! i)"
    "length (static_keys tx) = 2"
    by (auto simp: numeral_2_eq_2)
  have t: "decode_tx sample_lib ''tx'' = Inr sample_tx" by code_simp
  have ne: "static_keys sample_tx ! 1 \<noteq> sample_key 1" by code_simp
  have tx: "tx = sample_tx" using h(1,2) t by simp
  then have "w = 0" using h(3,4) ne by (cases w) (auto simp: less_2_cases_iff)
  with h(5,6) tx show ?thesis by (intro exI [of _ i]) simp
qed

text \<open>C20. The activity metrics count at most the configured number of transactions and are marked as
  measured only if one was fetched; every counterparty label is a deny label of the address it names,
  and no pair of address and label is listed twice.\<close>

theorem activity_metrics_sound:
  "case fst (analyze_recent_activity E deny wallet sigs cap s) of m \<Rightarrow>
     am_txns_parsed m \<le> min cap (length sigs) \<and> (am_measured m \<longleftrightarrow> 0 < am_txns_parsed m)
     \<and> distinct (map (\<lambda>h. (lh_program h, lh_label h)) (am_counterparty_labels m))
     \<and> list_all (\<lambda>h. h \<in> set (deny_labels_for deny (lh_program h))) (am_counterparty_labels m)"
  using analyze_recent_activity_metrics [OF refl, of E deny wallet sigs cap s]
  by (simp add: Let_def list_all_iff)

text \<open>C21. With positive block times, the first-seen time of a wallet is the least block time of its
  fetched signatures, the 30-day count and the 48-hour flag are those of the signatures in the window,
  and the latest time bounds them all.\<close>

theorem scan_sigs_spec:
  assumes "\<forall>bt \<in> block_times sigs. bt > 0" "block_times sigs \<noteq> {}"
  shows "ss_first (scan_sigs t30 t48 sigs) = Min (block_times sigs)
    \<and> ss_latest (scan_sigs t30 t48 sigs) = Max (block_times sigs)
    \<and> ss_count_30d (scan_sigs t30 t48 sigs)
        = length (filter (\<lambda>x. \<exists>bt. si_block_time x = Some bt \<and> bt \<ge> t30) sigs)
    \<and> (ss_active_48h (scan_sigs t30 t48 sigs) \<longleftrightarrow> (\<exists>bt \<in> block_times sigs. bt \<ge> t48))"
  using scan_sigs_extremes [OF assms, of t30 t48]
  by (auto simp: scan_sigs_def scan_count scan_active block_times_def)

theorem scan_sigs_spec_witness:
  "ss_first (scan_sigs 5 9 [\<lparr>si_signature = ''b'', si_block_time = Some 7\<rparr>, \<lparr>si_signature = ''a'', si_block_time = Some 3\<rparr>]) = 3"
  using scan_sigs_spec [of "[\<lparr>si_signature = ''b'', si_block_time = Some 7\<rparr>, \<lparr>si_signature = ''a'', si_block_time = Some 3\<rparr>]" 5 9]
  by (simp only: block_times_simps sig_info.simps option.case) simp

text \<open>C22. Signals collected from the chain are of low quality, so the wallet is never ALLOWed, unless
  at least a hundred transactions were seen: the second page that better quality asks for is only
  fetched after a full first one.\<close>

theorem low_quality_below_100:
  "case fst (collect_chain_signals E deny w s) of
     Inl e \<Rightarrow> True
   | Inr sg \<Rightarrow> 100 \<le> tx_count_total sg \<or> compute_signal_quality sg = ''low''"
  using collect_history [of E deny w s]
  by (fastforce simp: compute_signal_quality_def split: sum.split)

text \<open>C23. The confidence of a wallet report is a finite single-precision number between 0.45 and 0.95,
  up to rounding, whatever the signals.\<close>

theorem confidence_bounds:
  "fl_in (44999 / 100000) (95001 / 100000) (rr_confidence (score_wallet ln64 d a w sg))"
  unfolding score_wallet_simps by (rule confidence_fl_in)


text \<open>C25. Every RPC method the collectors call under the retry loop returns: it makes at least one request
  to the node, at most as many as configured and never more than ten, and the pauses it asks for add up to
  less than the time budget, always below 30 seconds. The limits hold whatever the environment variables
  say. (The simulation of a transaction is not retried.)\<close>

theorem rpc_calls_bounded:
  "call_bounded E s (snd (retrying E (rpc_get_balance E pk) s))
   \<and> call_bounded E s (snd (retrying E (rpc_get_token_accounts E pk) s))
   \<and> call_bounded E s (snd (retrying E (rpc_get_signatures E pk before limit) s))
   \<and> call_bounded E s (snd (retrying E (rpc_get_transaction E sig) s))
   \<and> call_bounded E s (snd (retrying E (rpc_get_token_supply E pk) s))
   \<and> call_bounded E s (snd (retrying E (rpc_get_account E pk) s))
   \<and> call_bounded E s (snd (retrying E (rpc_get_largest E pk) s))"
  by (intro conjI op_balance.retrying_bounded op_token_accounts.retrying_bounded op_signatures.retrying_bounded
      op_transaction.retrying_bounded op_supply.retrying_bounded op_account.retrying_bounded
      op_largest.retrying_bounded)

text \<open>C26. When one of the seven retried RPC methods fails, it had a reason to stop: the last error is
  terminal by the documented table, all configured attempts were made, the time budget is spent to the
  millisecond, or the pause that was drawn would overrun it. In particular a JSON decoding error, which
  the table of \<^verbatim>\<open>rpc_retry.rs\<close> says is retried once, is retried like any transient error, as often as the
  attempts and the budget allow (a finding).\<close>

theorem rpc_failure_reasons:
  "failure_has_reason E s (retrying E (rpc_get_balance E pk) s)
   \<and> failure_has_reason E s (retrying E (rpc_get_token_accounts E pk) s)
   \<and> failure_has_reason E s (retrying E (rpc_get_signatures E pk before limit) s)
   \<and> failure_has_reason E s (retrying E (rpc_get_transaction E sig) s)
   \<and> failure_has_reason E s (retrying E (rpc_get_token_supply E pk) s)
   \<and> failure_has_reason E s (retrying E (rpc_get_account E pk) s)
   \<and> failure_has_reason E s (retrying E (rpc_get_largest E pk) s)"
  by (intro conjI op_balance.retrying_failure op_token_accounts.retrying_failure op_signatures.retrying_failure
      op_transaction.retrying_failure op_supply.retrying_failure op_account.retrying_failure
      op_largest.retrying_failure)

text \<open>C27. A request with neither a bearer token nor a payment header is turned away with 400, 402, 429
  or 503 on every data route, and makes no RPC call and no settlement: its effects are those of a quote.
  For the transaction route this departs from \<^verbatim>\<open>openapi.json\<close> and \<^verbatim>\<open>agent-integration.md\<close>, which say it
  answers 501 before authentication and is not billed; the code quotes a price, as \<^verbatim>\<open>README.md\<close> says
  (a finding).\<close>

theorem anonymous_request_refused:
  assumes "extract_bearer h = None" "extract_payment h = None"
  shows "rs_status (fst (handle_wallet_risk E h q s)) \<in> {400, 402, 429, 503}
    \<and> rs_status (fst (handle_token_risk E h q s)) \<in> {400, 402, 429, 503}
    \<and> rs_status (fst (handle_tx_risk E h q s)) \<in> {400, 402, 429, 503}
    \<and> svc_frame is_quote s (snd (handle_wallet_risk E h q s))
    \<and> svc_frame is_quote s (snd (handle_token_risk E h q s))
    \<and> svc_frame is_quote s (snd (handle_tx_risk E h q s))"
  using wallet_route.anonymous [OF assms, of E q s] token_route.anonymous [OF assms, of E q s]
    tx_route.anonymous [OF assms, of E q s] by blast

theorem anonymous_request_refused_witness:
  "rs_status (fst (handle_wallet_risk (sample_env False) [] ''wallet=11111111111111111111111111111111''
      (sample_world False))) \<in> {400, 402, 429, 503}"
proof -
  have "extract_bearer [] = None" "extract_payment [] = None" by code_simp+
  from anonymous_request_refused [OF this] show ?thesis by blast
qed

text \<open>C28. Whoever paid finds the proof of the settlement in the response, on each of the three data
  routes: once a request with well-formed input was let in with a settlement, the answer carries it in
  \<^verbatim>\<open>PAYMENT-RESPONSE\<close>, be it a fresh or cached report, a screened transaction, or the error behind a
  failed collection or an undecodable transaction. (Malformed input is refused before any payment.)\<close>

theorem settlement_proof_returned:
  assumes "settlement_from_auth auth = Some p" "header_value (e_web E) p \<noteq> []"
  shows "(\<not> bad_subject (extract_query_param q ''wallet'')
        \<and> fst (authenticate_data_route E h ENDPOINT_WALLET_RISK
             (resource_for E h ENDPOINT_WALLET_RISK ''/api/v1/wallet-risk'' q) s) = Inr auth
      \<longrightarrow> response_header (fst (handle_wallet_risk E h q s)) ''PAYMENT-RESPONSE'' = Some (header_value (e_web E) p))
    \<and> (\<not> bad_subject (extract_query_param q ''mint'')
        \<and> fst (authenticate_data_route E h ENDPOINT_TOKEN_RISK
             (resource_for E h ENDPOINT_TOKEN_RISK ''/api/v1/token-risk'' q) s) = Inr auth
      \<longrightarrow> response_header (fst (handle_token_risk E h q s)) ''PAYMENT-RESPONSE'' = Some (header_value (e_web E) p))
    \<and> (extract_query_param q ''transaction'' \<noteq> [] \<and> base64_ok (e_lib E) (extract_query_param q ''transaction'')
        \<and> fst (authenticate_data_route E h ENDPOINT_TX_RISK
             (resource_for E h ENDPOINT_TX_RISK ''/api/v1/tx-risk'' q) s) = Inr auth
      \<longrightarrow> response_header (fst (handle_tx_risk E h q s)) ''PAYMENT-RESPONSE'' = Some (header_value (e_web E) p))"
  using wallet_proof [OF assms, of q h s] token_proof [OF assms, of q h s] tx_proof [OF assms, of q h s] by blast

theorem settlement_proof_returned_witness:
  "response_header (fst (handle_wallet_risk (sample_env False) paying_headers
       ''wallet=11111111111111111111111111111111'' (sample_world False))) ''PAYMENT-RESPONSE'' = Some ''json''
   \<and> response_header (fst (handle_tx_risk (sample_env False) paying_headers ''transaction=tx'' (sample_world False)))
     ''PAYMENT-RESPONSE'' = Some ''json''"
proof -
  let ?a = "\<lambda>ep path q. fst (authenticate_data_route (sample_env False) paying_headers ep
     (resource_for (sample_env False) paying_headers ep path q) (sample_world False))"
  let ?w = "?a ENDPOINT_WALLET_RISK ''/api/v1/wallet-risk'' ''wallet=11111111111111111111111111111111''"
  let ?x = "?a ENDPOINT_TX_RISK ''/api/v1/tx-risk'' ''transaction=tx''"
  have "case ?w of Inr (PerCall (Some p)) \<Rightarrow> True | _ \<Rightarrow> False" by code_simp
  then obtain p where w: "?w = Inr (PerCall (Some p))"
    by (auto split: sum.splits data_auth.splits option.splits)
  have "case ?x of Inr (PerCall (Some p)) \<Rightarrow> True | _ \<Rightarrow> False" by code_simp
  then obtain p' where x: "?x = Inr (PerCall (Some p'))"
    by (auto split: sum.splits data_auth.splits option.splits)
  have j: "header_value (e_web (sample_env False)) p = ''json''" for p
    by (simp add: sample_env_def sample_web_def header_value_def)
  have "\<not> bad_subject (extract_query_param ''wallet=11111111111111111111111111111111'' ''wallet'')"
    "extract_query_param ''transaction=tx'' ''transaction'' = ''tx''" "base64_ok (e_lib (sample_env False)) ''tx''"
    by code_simp+
  then show ?thesis
    using settlement_proof_returned [of "PerCall (Some p)" p "sample_env False"
        "''wallet=11111111111111111111111111111111''" paying_headers "sample_world False"]
      settlement_proof_returned [of "PerCall (Some p')" p' "sample_env False" "''transaction=tx''" paying_headers
        "sample_world False"] w x j
    by (simp add: settlement_from_auth_def)
qed

text \<open>C29. A purchase can be paid and settled and still end in a bare error: when the signing secret is not
  configured, the answer after the settlement is a 503 that neither delivers a token nor carries the
  settlement in \<^verbatim>\<open>PAYMENT-RESPONSE\<close>, and nothing is recorded.\<close>

theorem purchase_without_proof:
  assumes "extract_tier_from_query q = Some tier" "is_valid_tier tier"
    and "check_payment E (subscribe_endpoint_key tier) h
       (resource_for E h (subscribe_endpoint_key tier) ''/api/v1/subscribe'' q) s = (Inr settlement, s1)"
    and "e_getenv E ''JWT_SECRET'' = None"
  shows "snd (handle_subscribe E h q s) = s1 \<and> rs_status (fst (handle_subscribe E h q s)) = 503
    \<and> response_header (fst (handle_subscribe E h q s)) ''PAYMENT-RESPONSE'' = None"
  using assms by (rule purchase_without_secret)

theorem purchase_without_proof_witness:
  "\<exists>(E :: svc_env) p s1. fst (check_payment E (subscribe_endpoint_key ''hourly'') paying_headers
       (resource_for E paying_headers (subscribe_endpoint_key ''hourly'') ''/api/v1/subscribe'' ''tier=hourly'')
       (sample_world False)) = Inr (Some p)
     \<and> rs_status (fst (handle_subscribe E paying_headers ''tier=hourly'' (sample_world False))) = 503"
proof -
  let ?E = "(sample_env False)\<lparr>e_getenv := sample_getenv(''JWT_SECRET'' := None)\<rparr>"
  let ?c = "check_payment ?E (subscribe_endpoint_key ''hourly'') paying_headers
       (resource_for ?E paying_headers (subscribe_endpoint_key ''hourly'') ''/api/v1/subscribe'' ''tier=hourly'')
       (sample_world False)"
  have "case fst ?c of Inr (Some p) \<Rightarrow> True | _ \<Rightarrow> False" by code_simp
  then obtain p s1 where c: "?c = (Inr (Some p), s1)" by (cases ?c) (auto split: sum.splits option.splits)
  have t: "extract_tier_from_query ''tier=hourly'' = Some ''hourly''" "is_valid_tier ''hourly''" by code_simp+
  have k: "e_getenv ?E ''JWT_SECRET'' = None" by simp
  have st: "rs_status (fst (handle_subscribe ?E paying_headers ''tier=hourly'' (sample_world False))) = 503"
    using purchase_without_proof [OF t c k] by blast
  have "fst ?c = Inr (Some p)" by (simp only: c fst_conv)
  with st show ?thesis by blast
qed

text \<open>C30. A bearer token is let in only with claims that verify under the secret, that have not expired,
  and, when there is a database, that the database was asked about and did not report revoked: a failing
  revocation check turns the request away.\<close>

theorem bearer_granted:
  "case verify_bearer E token s of
     (Inl e, _) \<Rightarrow> True
   | (Inr a, _) \<Rightarrow>
       \<exists>c. a = Subscription (cl_payer c) (cl_tier c) c
         \<and> verify_subscription_token (e_web E) (e_getenv E) (now_secs s) token = Inr c
         \<and> now_secs s \<le> cl_exp c
         \<and> (if e_has_db E then fst (is_revoked E (cl_payer c) (cl_iat c) s) = Inr False else True)"
  by (auto split: prod.split sum.split elim!: verify_bearer_granted)

text \<open>C31. The revocation check does not see subscriptions that were issued inside a second: the claim's
  issue time is a whole second, the stored one has microseconds, and the query asks for equality. If no row
  of the payer was issued on a whole second, the check answers not revoked, whatever the rows say.\<close>

theorem revocation_needs_whole_second:
  assumes "\<forall>row \<in> set (t_subs (w_tables s)). sb_payer row = payer \<longrightarrow> sb_issued_at row mod 1000000 \<noteq> 0"
  shows "fst (is_revoked E payer iat s) \<noteq> Inr True"
proof
  assume "fst (is_revoked E payer iat s) = Inr True"
  then obtain k where "True = fst (map_prod (\<lambda>row. unwrap_or row False) id
      (select_revoked payer (iat * 1000000) (e_pgnow E k) (w_tables s)))"
    using revoked_op.answer [of E payer iat s True] by (metis prod.collapse)
  then obtain row where "row \<in> set (t_subs (w_tables s))" "sb_payer row = payer" "sb_issued_at row = iat * 1000000"
    by (auto simp: select_revoked_def unwrap_or_def find_Some_iff split: option.splits) (metis nth_mem)
  with assms show False by auto
qed

theorem revocation_needs_whole_second_witness:
  "fst (is_revoked (sample_env True) ''buyer'' 1000 ((sample_world True)\<lparr>w_tables := empty_tables\<lparr>t_subs :=
     [\<lparr>sb_payer = ''buyer'', sb_tier = ''hourly'', sb_issued_at = 1000000123, sb_expires_at = 4600000123,
       sb_tx_sig = None, sb_revoked = True\<rparr>]\<rparr>\<rparr>)) \<noteq> Inr True"
  by (rule revocation_needs_whole_second) simp

text \<open>C32. Round trip of the score cache: a stored score is found under its own endpoint and subject until
  its time to live, clamped to between a second and a day, is over, and storing it disturbs no other subject.\<close>

theorem cached_score_roundtrip:
  "fst (select_cached ep' sj' now' (snd (set_stmt ep sj sc b v ver ttl now t))) =
     (if ep' = ep \<and> sj' = sj
      then (if now' < now + clamp 1 86400 ttl * 1000000 then Some (v, now) else None)
      else fst (select_cached ep' sj' now' t))"
  using cached_after_set [of ep sj now' sc b v ver ttl now t]
    cached_other_key [of ep' sj' ep sj now' sc b v ver ttl now t]
  by (cases "ep' = ep \<and> sj' = sj") auto

text \<open>C33. A database write happens at most once and as a whole: after storing a score (delete and insert),
  recording a subscription, or logging, whatever failed on the way, the tables are the old ones or exactly
  those of the whole statement.\<close>

theorem database_writes_atomic:
  "(w_tables (snd (set_cached_score E ep sj sc b v ver ttl s)) = w_tables s
    \<or> (\<exists>now. w_tables (snd (set_cached_score E ep sj sc b v ver ttl s))
          = snd (set_stmt ep sj sc b v ver ttl now (w_tables s))))
   \<and> (w_tables (snd (log_scoring E lrow s)) = w_tables s
    \<or> (\<exists>now. w_tables (snd (log_scoring E lrow s)) = snd (insert_log lrow now (w_tables s))))
   \<and> (w_tables (snd (record_subscription E payer tier i x sig s)) = w_tables s
    \<or> (\<exists>now. w_tables (snd (record_subscription E payer tier i x sig s)) =
         snd (insert_sub \<lparr>sb_payer = payer, sb_tier = tier, sb_issued_at = i div 1000,
           sb_expires_at = x div 1000, sb_tx_sig = sig, sb_revoked = False\<rparr> now (w_tables s))))"
  using set_op.tables_cases [of E ep sj sc b v ver ttl s] log_op.tables_cases [of E lrow s]
    sub_op.tables_cases [of E payer tier i x sig s] by blast



text \<open>C35. Within one minute of the database clock a key is let through exactly as often as its limit has
  room left: of \<open>n\<close> successful checks the \<open>i\<close>-th passes iff the count before it plus one is within the
  limit, and the bucket has grown by \<open>n\<close>.\<close>

theorem rate_limit_within_minute:
  assumes "\<And>k. minute_of (e_pgnow E k) = m"
    and "rate_run E key limit n s = (rs, s')" and "\<forall>r \<in> set rs. \<exists>b. r = Inr b"
  shows "rs = map (\<lambda>i. Inr (bucket_count key m (w_tables s) + int i + 1 \<le> int limit)) [0..<n]
    \<and> bucket_count key m (w_tables s') = bucket_count key m (w_tables s) + int n"
  using assms by (rule rate_run_within_minute)

theorem rate_limit_within_minute_witness:
  "fst (rate_run ((sample_env True)\<lparr>e_pgnow := (\<lambda>k. 7)\<rparr>) ''k'' 1 2 (sample_world True)) = [Inr True, Inr False]"
proof -
  let ?E = "(sample_env True)\<lparr>e_pgnow := (\<lambda>k. 7)\<rparr>"
  obtain rs s' where r: "rate_run ?E ''k'' 1 2 (sample_world True) = (rs, s')" by force
  have "list_all (\<lambda>r. \<not> isl r) (fst (rate_run ?E ''k'' 1 2 (sample_world True)))" by code_simp
  then have "\<forall>r \<in> set rs. \<exists>b. r = Inr b" using r by (auto simp: list_all_iff isl_def) (metis sum.exhaust)
  moreover have "\<And>k. minute_of (e_pgnow ?E k) = 0" by (simp add: minute_of_def)
  moreover have "bucket_count ''k'' 0 (w_tables (sample_world True)) = 0" by code_simp
  ultimately show ?thesis using rate_limit_within_minute [OF _ r, of 0] r by (simp add: upt_rec)
qed

text \<open>C36. The rate limit as a client sees it: over a healthy database, however many requests arrive within
  one minute and whatever they ask for, the data routes answer an address at most as often as the limit
  had room left at the start.\<close>

theorem client_answers_limited:
  assumes "e_has_db E" "\<And>k. e_wire E k = WOk" "\<And>k. minute_of (e_pgnow E k) = m"
  shows "int (answers_to ip rqs (fst (serve_all E P rqs s))) \<le>
    max 0 (int (rate_limit_global_per_min (e_getenv E)) - bucket_count (ip_key ip) m (w_tables s))"
  using assms by (rule answers_within_limit)

theorem client_answers_limited_witness:
  "let rq = \<lparr>in_headers = [(''x-forwarded-for'', ''1.2.3.4''), (''authorization'', ''Bearer k/token'')], in_method = ''GET'',
       in_path = ''/api/v1/tx-risk'', in_query = Some ''transaction=tx''\<rparr>
   in answers_to ''1.2.3.4'' (replicate 1000 rq)
     (fst (serve_all ((sample_env True)\<lparr>e_pgnow := (\<lambda>k. 7)\<rparr>) \<lparr>page_index = [], page_agent = [], page_openapi = []\<rparr>
        (replicate 1000 rq) (sample_world True))) \<le> 200"
proof -
  let ?rq = "\<lparr>in_headers = [(''x-forwarded-for'', ''1.2.3.4''), (''authorization'', ''Bearer k/token'')], in_method = ''GET'',
       in_path = ''/api/v1/tx-risk'', in_query = Some ''transaction=tx''\<rparr>"
  let ?E = "(sample_env True)\<lparr>e_pgnow := (\<lambda>k. 7)\<rparr>"
  have db: "e_has_db ?E" "\<And>k. e_wire ?E k = WOk" by (simp_all add: sample_env_def)
  have m: "\<And>k. minute_of (e_pgnow ?E k) = 0" by (simp add: minute_of_def)
  have "rate_limit_global_per_min (e_getenv ?E) = 200" by code_simp
  moreover have "bucket_count (ip_key ''1.2.3.4'') 0 (w_tables (sample_world True)) = 0"
    by (simp add: bucket_count_def sample_world_def cold_start_def empty_tables_def unwrap_or_def)
  ultimately show ?thesis
    using client_answers_limited [OF db m, of "''1.2.3.4''" "replicate 1000 ?rq"
        "\<lparr>page_index = [], page_agent = [], page_openapi = []\<rparr>" "sample_world True"] by (simp add: Let_def)
qed

text \<open>C37. Prices survive binary floating point: an amount with at most nine decimals and below 1024 whole
  units, read as a double, scaled by the power of ten and rounded, is its exact number of raw units.\<close>

theorem price_exact:
  assumes "parse_f64 amount = Some (fround F64 (of_nat n / 10 ^ d))" "d \<le> 9" "n < 1024 * 10 ^ d"
  shows "ui_to_raw amount d = Inr n"
  using assms by (rule ui_to_raw_exact)

theorem price_exact_witness: "ui_to_raw ''0.25'' 6 = Inr 250000"
proof -
  have "parse_f64 ''0.25'' = Some (fround F64 (of_nat 250000 / 10 ^ 6))" by code_simp
  from price_exact [OF this] show ?thesis by simp
qed

text \<open>C38. Payment lines built from the configured specs are never free: there is at least one, and each
  asks for a positive amount that fits in 64 bits and prints it, to the configured recipient, on the configured
  network and scheme.\<close>

theorem payment_lines_ask_for_money:
  "case build_lines_from_specs L n p sc t specs of
     Inl e \<Rightarrow> True
   | Inr ls \<Rightarrow> ls \<noteq> [] \<and> list_all (\<lambda>l. \<exists>raw > 0. parse_unsigned (2 ^ 64) (rl_amount l) = Some raw
       \<and> rl_pay_to l = p \<and> rl_network l = n \<and> rl_scheme l = sc) ls"
  using build_lines_amounts [of L n p sc t specs] by (auto simp: list_all_iff split: sum.split)

text \<open>C39. The offers of a 402 response are the configured lines, one for each scheme, network and asset,
  in order; enriching them with the facilitator's data changes neither amount, asset, network nor scheme.\<close>

theorem offers_keep_terms:
  "case fst (enrich_accepts_with_fee_payer E m rows s) of
     Inl e \<Rightarrow> True
   | Inr vs \<Rightarrow> list_all2 same_terms (first_rows {} rows) vs
       \<and> distinct (map line_key (first_rows {} rows))
       \<and> line_key ` set (first_rows {} rows) = line_key ` set rows"
  using enrich_accepts_Inr [of E m rows s] first_rows_keys [of "{}" rows]
  by (auto split: sum.split) (metis prod.collapse)

text \<open>C40. Round trip of query strings: from a query of key-value pairs without separators in them, a
  parameter reads as the value of its first pair, and as the empty string if it is not there.\<close>

theorem query_roundtrip:
  assumes "list_all plain_pair kvs"
  shows "extract_query_param (query_string kvs) key = unwrap_or (map_of kvs key) []"
  using assms by (rule extract_query_string)

theorem query_roundtrip_witness:
  "extract_query_param (query_string [(''owner'', ''a''), (''wallet'', ''b'')]) ''wallet'' = ''b''"
proof -
  have "list_all plain_pair [(''owner'', ''a''), (''wallet'', ''b'')]" by (simp add: plain_pair_def)
  from query_roundtrip [OF this] show ?thesis by simp
qed

end
